theory Spec2Isabelle
  imports Complex_Main
begin

section \<open>Shared vocabulary (src/types/core.types.ts)\<close>

text \<open>
  \<open>UniqueId\<close> is a branded string and \<open>Timestamp\<close> a branded number (Unix time in
  milliseconds). \<open>createTimestamp()\<close> reads \<open>Date.now()\<close> and \<open>uuidv4()\<close> draws a fresh
  identifier: both are inputs from the environment. The operations of the Lifecycle
  Controller, the Context Manager and the Tool Registry receive the values they read as
  explicit arguments, one argument per read, in the order of the reads; the Decision Loop,
  which makes many reads, takes them from an environment record.
\<close>

type_synonym UniqueId = string
type_synonym Timestamp = int

datatype AgentPhase =
  IDLE | PLANNING | ACTING | OBSERVING | REFLECTING | COMPLETE | FAILED | SUSPENDED

text \<open>The string value of each enum member, as interpolated into messages.\<close>

fun phaseName :: "AgentPhase \<Rightarrow> string" where
  "phaseName IDLE = ''IDLE''"
| "phaseName PLANNING = ''PLANNING''"
| "phaseName ACTING = ''ACTING''"
| "phaseName OBSERVING = ''OBSERVING''"
| "phaseName REFLECTING = ''REFLECTING''"
| "phaseName COMPLETE = ''COMPLETE''"
| "phaseName FAILED = ''FAILED''"
| "phaseName SUSPENDED = ''SUSPENDED''"

text \<open>A \<open>Record<string, unknown>\<close> payload, kept as a list of key/value pairs.\<close>

type_synonym DataRecord = "(string \<times> string) list"

section \<open>Lifecycle Controller (src/agent/lifecycle.ts)\<close>

record PhaseMetadata =
  pm_enteredAt :: Timestamp
  pm_stepNumber :: nat
  pm_reason :: string
  pm_data :: DataRecord

record LifecycleError =
  le_code :: string
  le_message :: string
  le_phase :: AgentPhase
  le_attemptedTransition :: "AgentPhase option"

record PhaseHistoryEntry =
  phe_phase :: AgentPhase
  phe_stepNumber :: nat
  phe_enteredAt :: Timestamp
  phe_exitedAt :: "Timestamp option"
  phe_reason :: string

text \<open>The four events of \<open>LifecycleEvents\<close>, as the values passed to \<open>emit\<close>.\<close>

datatype LifecycleEvent =
    PhaseEnter AgentPhase PhaseMetadata
  | PhaseExit AgentPhase PhaseMetadata
  | Transition AgentPhase AgentPhase string
  | ErrorEvent LifecycleError

text \<open>
  The private fields of \<open>LifecycleController\<close>. \<open>lc_emitted\<close> is not a field of the
  class: it is the trace of the \<open>emit\<close> calls made so far, oldest first, so that the
  notifications are visible in the model. Listeners are external observers and are not
  modelled as acting on the controller.
\<close>

record LifecycleController =
  lc_sessionId :: UniqueId
  lc_currentPhase :: AgentPhase
  lc_previousPhase :: "AgentPhase option"
  lc_stepNumber :: nat
  lc_phaseHistory :: "PhaseHistoryEntry list"
  lc_startedAt :: Timestamp
  lc_lastTransitionAt :: Timestamp
  lc_currentPhaseEntry :: "PhaseHistoryEntry option"
  lc_emitted :: "LifecycleEvent list"

text \<open>The snapshot returned by \<open>getState()\<close>.\<close>

record LifecycleState =
  st_sessionId :: UniqueId
  st_currentPhase :: AgentPhase
  st_previousPhase :: "AgentPhase option"
  st_stepNumber :: nat
  st_phaseHistory :: "PhaseHistoryEntry list"
  st_startedAt :: Timestamp
  st_lastTransitionAt :: Timestamp
  st_isTerminal :: bool

text \<open>\<open>VALID_TRANSITIONS\<close>: the \<open>Map\<close> literal, entry by entry.\<close>

definition VALID_TRANSITIONS :: "(AgentPhase \<times> AgentPhase list) list" where
  "VALID_TRANSITIONS =
    [(IDLE, [PLANNING, SUSPENDED]),
     (PLANNING, [ACTING, REFLECTING, FAILED, SUSPENDED]),
     (ACTING, [OBSERVING, FAILED, SUSPENDED]),
     (OBSERVING, [REFLECTING, FAILED, SUSPENDED]),
     (REFLECTING, [PLANNING, COMPLETE, FAILED, SUSPENDED]),
     (SUSPENDED, [PLANNING, FAILED]),
     (COMPLETE, []),
     (FAILED, [])]"

definition TERMINAL_PHASES :: "AgentPhase list" where
  "TERMINAL_PHASES = [COMPLETE, FAILED]"

text \<open>\<open>enterPhase(phase, reason, data)\<close>; \<open>now\<close> is its clock read.\<close>

definition enterPhase ::
  "AgentPhase \<Rightarrow> string \<Rightarrow> DataRecord \<Rightarrow> Timestamp \<Rightarrow> LifecycleController \<Rightarrow> LifecycleController"
where
  "enterPhase phase reason dat now c =
    c\<lparr> lc_currentPhaseEntry :=
          Some \<lparr> phe_phase = phase, phe_stepNumber = lc_stepNumber c, phe_enteredAt = now,
                  phe_exitedAt = None, phe_reason = reason \<rparr>,
       lc_emitted := lc_emitted c @
          [PhaseEnter phase \<lparr> pm_enteredAt = now, pm_stepNumber = lc_stepNumber c,
                               pm_reason = reason, pm_data = dat \<rparr>] \<rparr>"

text \<open>
  \<open>exitPhase()\<close>; \<open>now\<close> is the clock read made when an entry is open (no read is made
  otherwise).
\<close>

definition exitPhase :: "Timestamp \<Rightarrow> LifecycleController \<Rightarrow> LifecycleController" where
  "exitPhase now c =
    (case lc_currentPhaseEntry c of
       None \<Rightarrow> c
     | Some entry \<Rightarrow>
         c\<lparr> lc_phaseHistory := lc_phaseHistory c @ [entry\<lparr> phe_exitedAt := Some now \<rparr>],
            lc_emitted := lc_emitted c @
              [PhaseExit (lc_currentPhase c)
                 \<lparr> pm_enteredAt = phe_enteredAt entry, pm_stepNumber = phe_stepNumber entry,
                    pm_reason = phe_reason entry, pm_data = [] \<rparr>],
            lc_currentPhaseEntry := None \<rparr>)"

text \<open>
  The constructor: \<open>sid\<close> is the session id (given, or drawn from \<open>uuidv4\<close>), \<open>t0\<close> the
  clock read for \<open>startedAt\<close> and \<open>t1\<close> the one made by \<open>enterPhase\<close>.
\<close>

definition newLifecycle :: "UniqueId \<Rightarrow> Timestamp \<Rightarrow> Timestamp \<Rightarrow> LifecycleController" where
  "newLifecycle sid t0 t1 =
    enterPhase IDLE ''Session initialized'' [] t1
      \<lparr> lc_sessionId = sid, lc_currentPhase = IDLE, lc_previousPhase = None,
        lc_stepNumber = 0, lc_phaseHistory = [], lc_startedAt = t0,
        lc_lastTransitionAt = t0, lc_currentPhaseEntry = None, lc_emitted = [] \<rparr>"

definition isTerminal :: "LifecycleController \<Rightarrow> bool" where
  "isTerminal c = (lc_currentPhase c \<in> set TERMINAL_PHASES)"

definition getState :: "LifecycleController \<Rightarrow> LifecycleState" where
  "getState c =
    \<lparr> st_sessionId = lc_sessionId c, st_currentPhase = lc_currentPhase c,
      st_previousPhase = lc_previousPhase c, st_stepNumber = lc_stepNumber c,
      st_phaseHistory = lc_phaseHistory c, st_startedAt = lc_startedAt c,
      st_lastTransitionAt = lc_lastTransitionAt c, st_isTerminal = isTerminal c \<rparr>"

definition getCurrentPhase :: "LifecycleController \<Rightarrow> AgentPhase" where
  "getCurrentPhase c = lc_currentPhase c"

definition getStepNumber :: "LifecycleController \<Rightarrow> nat" where
  "getStepNumber c = lc_stepNumber c"

definition canTransition :: "LifecycleController \<Rightarrow> AgentPhase \<Rightarrow> bool" where
  "canTransition c targetPhase =
    (case map_of VALID_TRANSITIONS (lc_currentPhase c) of
       None \<Rightarrow> False
     | Some validTargets \<Rightarrow> targetPhase \<in> set validTargets)"

text \<open>
  A call either returns or throws \<open>new Error(message)\<close>; the thrown value carries the
  message only (the error code travels in the emitted \<open>error\<close> event).
\<close>

datatype Outcome = Returned | Threw string

text \<open>The right arrow of the \<open>INVALID_TRANSITION\<close> message, U+2192 in UTF-8.\<close>

definition rightArrow :: string where
  "rightArrow = [CHR 0xE2, CHR 0x86, CHR 0x92]"

text \<open>The two \<open>LifecycleError\<close> objects that \<open>transition\<close> builds.\<close>

definition terminalStateError :: "LifecycleController \<Rightarrow> AgentPhase \<Rightarrow> LifecycleError" where
  "terminalStateError c targetPhase =
    \<lparr> le_code = ''TERMINAL_STATE'',
      le_message = ''Cannot transition from terminal state '' @ [CHR 0x27]
                    @ phaseName (lc_currentPhase c) @ [CHR 0x27],
      le_phase = lc_currentPhase c,
      le_attemptedTransition = Some targetPhase \<rparr>"

definition invalidTransitionError :: "LifecycleController \<Rightarrow> AgentPhase \<Rightarrow> LifecycleError" where
  "invalidTransitionError c targetPhase =
    \<lparr> le_code = ''INVALID_TRANSITION'',
      le_message = ''Invalid transition: '' @ [CHR 0x27] @ phaseName (lc_currentPhase c)
                    @ [CHR 0x27] @ '' '' @ rightArrow @ '' '' @ [CHR 0x27]
                    @ phaseName targetPhase @ [CHR 0x27],
      le_phase = lc_currentPhase c,
      le_attemptedTransition = Some targetPhase \<rparr>"

text \<open>
  \<open>transition(targetPhase, reason, data)\<close>. The three timestamps are the clock reads of
  \<open>exitPhase\<close>, of \<open>lastTransitionAt\<close> and of \<open>enterPhase\<close>, made on the success path only.
\<close>

definition transition ::
  "AgentPhase \<Rightarrow> string \<Rightarrow> DataRecord \<Rightarrow> Timestamp \<Rightarrow> Timestamp \<Rightarrow> Timestamp \<Rightarrow>
   LifecycleController \<Rightarrow> Outcome \<times> LifecycleController"
where
  "transition targetPhase reason dat tExit tTrans tEnter c =
    (if isTerminal c then
       (let error = terminalStateError c targetPhase
        in (Threw (le_message error), c\<lparr> lc_emitted := lc_emitted c @ [ErrorEvent error] \<rparr>))
     else if \<not> canTransition c targetPhase then
       (let error = invalidTransitionError c targetPhase
        in (Threw (le_message error), c\<lparr> lc_emitted := lc_emitted c @ [ErrorEvent error] \<rparr>))
     else
       (let c1 = exitPhase tExit c;
            c2 = c1\<lparr> lc_previousPhase := Some (lc_currentPhase c1),
                     lc_currentPhase := targetPhase,
                     lc_lastTransitionAt := tTrans \<rparr>;
            c3 = (if targetPhase \<noteq> SUSPENDED
                  then c2\<lparr> lc_stepNumber := lc_stepNumber c2 + 1 \<rparr> else c2);
            c4 = c3\<lparr> lc_emitted := lc_emitted c3 @
                        [Transition (lc_currentPhase c) targetPhase reason] \<rparr>
        in (Returned, enterPhase targetPhase reason dat tEnter c4)))"

text \<open>\<open>fail(reason)\<close>, with the same three clock reads when it acts.\<close>

definition fail ::
  "string \<Rightarrow> Timestamp \<Rightarrow> Timestamp \<Rightarrow> Timestamp \<Rightarrow> LifecycleController \<Rightarrow> LifecycleController"
where
  "fail reason tExit tTrans tEnter c =
    (if isTerminal c then c
     else
       (let c1 = exitPhase tExit c;
            c2 = c1\<lparr> lc_previousPhase := Some (lc_currentPhase c1),
                     lc_currentPhase := FAILED,
                     lc_lastTransitionAt := tTrans \<rparr>;
            c3 = c2\<lparr> lc_emitted := lc_emitted c2 @
                        [Transition (lc_currentPhase c) FAILED reason] \<rparr>
        in enterPhase FAILED reason [(''forced'', ''true'')] tEnter c3))"

definition complete ::
  "string \<Rightarrow> Timestamp \<Rightarrow> Timestamp \<Rightarrow> Timestamp \<Rightarrow> LifecycleController \<Rightarrow>
   Outcome \<times> LifecycleController"
where
  "complete reason tExit tTrans tEnter c =
    (if \<not> canTransition c COMPLETE then
       (Threw (''Cannot complete from phase '' @ [CHR 0x27] @ phaseName (lc_currentPhase c)
               @ [CHR 0x27]), c)
     else transition COMPLETE reason [] tExit tTrans tEnter c)"

definition suspend ::
  "string \<Rightarrow> Timestamp \<Rightarrow> Timestamp \<Rightarrow> Timestamp \<Rightarrow> LifecycleController \<Rightarrow>
   Outcome \<times> LifecycleController"
where
  "suspend reason tExit tTrans tEnter c =
    (if \<not> canTransition c SUSPENDED then
       (Threw (''Cannot suspend from phase '' @ [CHR 0x27] @ phaseName (lc_currentPhase c)
               @ [CHR 0x27]), c)
     else transition SUSPENDED reason [] tExit tTrans tEnter c)"

definition resume ::
  "string \<Rightarrow> Timestamp \<Rightarrow> Timestamp \<Rightarrow> Timestamp \<Rightarrow> LifecycleController \<Rightarrow>
   Outcome \<times> LifecycleController"
where
  "resume reason tExit tTrans tEnter c =
    (if lc_currentPhase c \<noteq> SUSPENDED then
       (Threw ''Can only resume from SUSPENDED state'', c)
     else transition PLANNING reason [] tExit tTrans tEnter c)"

text \<open>
  The legal transitions as the specification's table of section 4.1 lists them, row by
  row, for comparison with \<open>VALID_TRANSITIONS\<close>.
\<close>

fun specAllowed :: "AgentPhase \<Rightarrow> AgentPhase set" where
  "specAllowed IDLE = {PLANNING, SUSPENDED}"
| "specAllowed PLANNING = {ACTING, REFLECTING, FAILED, SUSPENDED}"
| "specAllowed ACTING = {OBSERVING, FAILED, SUSPENDED}"
| "specAllowed OBSERVING = {REFLECTING, FAILED, SUSPENDED}"
| "specAllowed REFLECTING = {PLANNING, COMPLETE, FAILED, SUSPENDED}"
| "specAllowed SUSPENDED = {PLANNING, FAILED}"
| "specAllowed COMPLETE = {}"
| "specAllowed FAILED = {}"

text \<open>
  The states a controller can be in: the constructor's, and those reached from one of
  them by a public method, whether the call returns or throws.
\<close>

inductive reachable :: "LifecycleController \<Rightarrow> bool" where
  r_new: "reachable (newLifecycle sid t0 t1)"
| r_transition: "reachable c \<Longrightarrow> reachable (snd (transition tp reason dat ta tb tc c))"
| r_fail: "reachable c \<Longrightarrow> reachable (fail reason ta tb tc c)"
| r_complete: "reachable c \<Longrightarrow> reachable (snd (complete reason ta tb tc c))"
| r_suspend: "reachable c \<Longrightarrow> reachable (snd (suspend reason ta tb tc c))"
| r_resume: "reachable c \<Longrightarrow> reachable (snd (resume reason ta tb tc c))"

text \<open>
  The history invariant: every recorded entry carries an exit time, and the open entry of
  the current phase is held apart in \<open>currentPhaseEntry\<close>, without one.
\<close>

definition historyClosed :: "LifecycleController \<Rightarrow> bool" where
  "historyClosed c =
    ((\<forall>e \<in> set (lc_phaseHistory c). phe_exitedAt e \<noteq> None) \<and>
     (case lc_currentPhaseEntry c of
        None \<Rightarrow> False
      | Some cur \<Rightarrow> phe_exitedAt cur = None \<and> phe_phase cur = lc_currentPhase c))"

text \<open>Two example controllers: one suspended, one planning.\<close>

definition suspended0 :: LifecycleController where
  "suspended0 = snd (suspend ''pause'' 1 2 3 (newLifecycle ''s'' 0 0))"

definition planning0 :: LifecycleController where
  "planning0 = snd (transition PLANNING ''Starting'' [] 1 2 3 (newLifecycle ''s'' 0 0))"

section \<open>Data model (src/types/core.types.ts, mcp.types.ts)\<close>

text \<open>
  A value of type \<open>unknown\<close> is opaque to the engine: it is either some payload, kept
  as a string, or a parameter record. Fractional \<open>number\<close> fields (confidences,
  averages) are exact rationals: floating-point rounding is outside the model. Integral
  ones (versions, millisecond durations) are integers; the version of a context, which
  \<open>update\<close> computes from the version it is given, is added as a double (section
  ``JavaScript numbers'').
\<close>

datatype Unknown = Opaque string | Params DataRecord

record TextRange =
  rng_startLine :: int
  rng_startColumn :: int
  rng_endLine :: int
  rng_endColumn :: int

record UserIntent =
  ui_rawInput :: string
  ui_action :: string
  ui_target :: "string option"
  ui_constraints :: "string list"
  ui_confidence :: rat
  ui_capturedAt :: Timestamp

record WorkspaceMetadata =
  ws_rootPath :: string
  ws_projectType :: "string option"
  ws_frameworks :: "string list"
  ws_activeFile :: "string option"
  ws_selection :: "TextRange option"
  ws_gitBranch :: "string option"
  ws_hasUncommittedChanges :: bool
  ws_scannedAt :: Timestamp

text \<open>
  \<open>Partial<WorkspaceMetadata>\<close>: every field may be absent (\<open>None\<close>); a nullable field
  that is present may still be \<open>null\<close> (\<open>Some None\<close>).
\<close>

record PartialWorkspace =
  pw_rootPath :: "string option"
  pw_projectType :: "string option option"
  pw_frameworks :: "string list option"
  pw_activeFile :: "string option option"
  pw_selection :: "TextRange option option"
  pw_gitBranch :: "string option option"
  pw_hasUncommittedChanges :: "bool option"
  pw_scannedAt :: "Timestamp option"

record ToolError =
  te_code :: string
  te_message :: string
  te_recoverable :: bool
  te_suggestions :: "string list"
  te_stack :: "string option"

record ToolResult =
  tres_id :: UniqueId
  tres_toolId :: string
  tres_success :: bool
  tres_data :: "Unknown option"
  tres_error :: "ToolError option"
  tres_durationMs :: int
  tres_completedAt :: Timestamp

datatype MemoryType = EPISODIC | SEMANTIC | PROCEDURAL

record MemoryReference =
  mr_memoryId :: UniqueId
  mr_memoryType :: MemoryType
  mr_summary :: string
  mr_relevance :: rat
  mr_createdAt :: Timestamp

datatype FactCategory =
  CODE_STRUCTURE | DEPENDENCY | USER_PREFERENCE | SYSTEM_STATE | ERROR_PATTERN | DISCOVERY
  | VALIDATION

record ContextFact =
  cf_id :: UniqueId
  cf_category :: FactCategory
  cf_statement :: string
  cf_confidence :: rat
  cf_source :: string
  cf_discoveredAt :: Timestamp

datatype ConstraintType =
  FILE_PROTECTION | STYLE_REQUIREMENT | TIME_BOUND | RESOURCE_LIMIT | COMPATIBILITY

datatype ConstraintSource = FromUser | FromSystem | Inferred

record ExecutionConstraint =
  ec_id :: UniqueId
  ec_type :: ConstraintType
  ec_description :: string
  ec_mandatory :: bool
  ec_source :: ConstraintSource

datatype Priority = CRITICAL | HIGH | NORMAL | LOW | BACKGROUND

datatype PlannedActionStatus =
  PENDING | IN_PROGRESS | COMPLETED | SKIPPED | ACTION_FAILED

record PlannedAction =
  pa_id :: UniqueId
  pa_index :: int
  pa_toolId :: string
  pa_description :: string
  pa_expectedParameters :: DataRecord
  pa_dependsOn :: "UniqueId list"
  pa_priority :: Priority
  pa_status :: PlannedActionStatus

record ExecutionPlan =
  ep_id :: UniqueId
  ep_description :: string
  ep_actions :: "PlannedAction list"
  ep_currentIndex :: int
  ep_confidence :: rat
  ep_createdAt :: Timestamp
  ep_revision :: int

record MCPContext =
  mc_id :: UniqueId
  mc_sessionId :: UniqueId
  mc_version :: int
  mc_intent :: UserIntent
  mc_workspace :: WorkspaceMetadata
  mc_memoryRefs :: "MemoryReference list"
  mc_recentResults :: "ToolResult list"
  mc_activePlan :: "ExecutionPlan option"
  mc_facts :: "ContextFact list"
  mc_constraints :: "ExecutionConstraint list"
  mc_createdAt :: Timestamp
  mc_updatedAt :: Timestamp

section \<open>JavaScript containers\<close>

text \<open>
  A JavaScript \<open>Map\<close> iterates in insertion order, and \<open>set\<close> on a key that is present
  replaces the value where it stands. It is kept as a list of key/value pairs.
\<close>

type_synonym ('k, 'v) JsMap = "('k \<times> 'v) list"

definition mapGet :: "('k, 'v) JsMap \<Rightarrow> 'k \<Rightarrow> 'v option" where
  "mapGet m k = map_of m k"

fun mapSet :: "'k \<Rightarrow> 'v \<Rightarrow> ('k, 'v) JsMap \<Rightarrow> ('k, 'v) JsMap" where
  "mapSet k v [] = [(k, v)]"
| "mapSet k v ((k', v') # m) = (if k' = k then (k, v) # m else (k', v') # mapSet k v m)"

definition mapDelete :: "'k \<Rightarrow> ('k, 'v) JsMap \<Rightarrow> ('k, 'v) JsMap" where
  "mapDelete k m = filter (\<lambda>kv. fst kv \<noteq> k) m"

definition mapValues :: "('k, 'v) JsMap \<Rightarrow> 'v list" where
  "mapValues m = map snd m"

text \<open>
  \<open>Array.prototype.slice(start)\<close> for an integral \<open>start\<close>: a negative start counts
  from the end, and both ends are clamped to the array. The argument \<open>-0\<close> is \<open>0\<close>.
\<close>

definition jsSliceFrom :: "int \<Rightarrow> 'a list \<Rightarrow> 'a list" where
  "jsSliceFrom start xs =
    (let len = int (length xs);
         k = (if start < 0 then max (len + start) 0 else min start len)
     in drop (nat k) xs)"

section \<open>JavaScript numbers\<close>

text \<open>
  A \<open>number\<close> is an IEEE 754 double. An integral number is kept as an integer, and the
  sum of two of them, like every operation on doubles, is the exact sum rounded to the
  nearest double, a tie going to the double with the even significand. The significand has
  53 bits: every integer of magnitude up to \<open>2^53\<close> is a double, and the doubles of a
  magnitude \<open>n\<close> from \<open>2^53\<close> on are the multiples of \<open>ulp n\<close>, the power of two for which
  \<open>n div ulp n\<close> has exactly 53 bits. Fractions, \<open>NaN\<close> and the infinities (magnitudes
  from \<open>2^1024\<close> on) are outside the model.
\<close>

function ulp :: "nat \<Rightarrow> nat" where
  "ulp n = (if n < 2 ^ 53 then 1 else 2 * ulp (n div 2))"
  by pat_completeness auto
termination
  by (relation "measure id") auto

declare ulp.simps [simp del]

definition roundToDouble :: "int \<Rightarrow> int" where
  "roundToDouble x =
    (let n = nat \<bar>x\<bar>;
         q = ulp n;
         m = n div q;
         r = n mod q;
         nearest = (if 2 * r < q then m
                    else if q < 2 * r then m + 1
                    else if even m then m else m + 1)
     in sgn x * int (nearest * q))"

text \<open>\<open>a + b\<close> on two integral doubles.\<close>

definition jsAdd :: "int \<Rightarrow> int \<Rightarrow> int" where
  "jsAdd a b = roundToDouble (a + b)"

section \<open>Context Manager (src/mcp/context-manager.ts)\<close>

record UpdateContextOptions =
  uo_memoryRefs :: "MemoryReference list option"
  uo_addResults :: "ToolResult list option"
  uo_addFacts :: "ContextFact list option"
  uo_addConstraints :: "ExecutionConstraint list option"
  uo_plan :: "ExecutionPlan option option"
  uo_workspace :: "PartialWorkspace option"

text \<open>An options object with every field absent.\<close>

definition noUpdates :: UpdateContextOptions where
  "noUpdates =
    \<lparr> uo_memoryRefs = None, uo_addResults = None, uo_addFacts = None,
      uo_addConstraints = None, uo_plan = None, uo_workspace = None \<rparr>"

record CreateContextOptions =
  co_sessionId :: UniqueId
  co_intent :: UserIntent
  co_workspace :: WorkspaceMetadata
  co_memoryRefs :: "MemoryReference list option"
  co_constraints :: "ExecutionConstraint list option"

record ContextManager =
  cm_maxRecentResults :: int
  cm_history :: "(UniqueId, MCPContext list) JsMap"

text \<open>The constructor; the argument is \<open>options.maxRecentResults\<close>, absent or given.\<close>

definition newContextManager :: "int option \<Rightarrow> ContextManager" where
  "newContextManager maxRecentResults =
    \<lparr> cm_maxRecentResults = (case maxRecentResults of None \<Rightarrow> 10 | Some n \<Rightarrow> n),
      cm_history = [] \<rparr>"

definition initializeHistory :: "UniqueId \<Rightarrow> MCPContext \<Rightarrow> ContextManager \<Rightarrow> ContextManager" where
  "initializeHistory sessionId context m =
    m\<lparr> cm_history := mapSet sessionId [context] (cm_history m) \<rparr>"

definition recordHistory :: "UniqueId \<Rightarrow> MCPContext \<Rightarrow> ContextManager \<Rightarrow> ContextManager" where
  "recordHistory sessionId context m =
    (case mapGet (cm_history m) sessionId of
       Some sessionHistory \<Rightarrow>
         m\<lparr> cm_history := mapSet sessionId (sessionHistory @ [context]) (cm_history m) \<rparr>
     | None \<Rightarrow> m\<lparr> cm_history := mapSet sessionId [context] (cm_history m) \<rparr>)"

definition mergeResults :: "ContextManager \<Rightarrow> ToolResult list \<Rightarrow> ToolResult list \<Rightarrow> ToolResult list" where
  "mergeResults m existing additions =
    (let combined = existing @ additions
     in if int (length combined) > cm_maxRecentResults m
        then jsSliceFrom (- cm_maxRecentResults m) combined
        else combined)"

definition mergeFacts :: "ContextFact list \<Rightarrow> ContextFact list \<Rightarrow> ContextFact list" where
  "mergeFacts existing additions =
    (let factMap0 = fold (\<lambda>fact factMap. mapSet (cf_statement fact) fact factMap) existing [];
         factMap1 = fold (\<lambda>fact factMap. mapSet (cf_statement fact) fact factMap) additions factMap0
     in mapValues factMap1)"

definition mergeConstraints ::
  "ExecutionConstraint list \<Rightarrow> ExecutionConstraint list \<Rightarrow> ExecutionConstraint list"
where
  "mergeConstraints existing additions =
    (let constraintMap0 = fold (\<lambda>c cmap. mapSet (ec_id c) c cmap) existing [];
         constraintMap1 = fold (\<lambda>c cmap. mapSet (ec_id c) c cmap) additions constraintMap0
     in mapValues constraintMap1)"

text \<open>\<open>a ?? b\<close> on an optional field, and on an optional field that may also be null.\<close>

definition orElse :: "'a option \<Rightarrow> 'a \<Rightarrow> 'a" where
  "orElse a b = (case a of None \<Rightarrow> b | Some v \<Rightarrow> v)"

definition orElseNullable :: "'a option option \<Rightarrow> 'a option \<Rightarrow> 'a option" where
  "orElseNullable a b = (case a of Some (Some v) \<Rightarrow> Some v | _ \<Rightarrow> b)"

definition mergeWorkspace :: "WorkspaceMetadata \<Rightarrow> PartialWorkspace \<Rightarrow> WorkspaceMetadata" where
  "mergeWorkspace existing updates =
    \<lparr> ws_rootPath = orElse (pw_rootPath updates) (ws_rootPath existing),
      ws_projectType = orElseNullable (pw_projectType updates) (ws_projectType existing),
      ws_frameworks = orElse (pw_frameworks updates) (ws_frameworks existing),
      ws_activeFile = orElseNullable (pw_activeFile updates) (ws_activeFile existing),
      ws_selection = orElseNullable (pw_selection updates) (ws_selection existing),
      ws_gitBranch = orElseNullable (pw_gitBranch updates) (ws_gitBranch existing),
      ws_hasUncommittedChanges =
        orElse (pw_hasUncommittedChanges updates) (ws_hasUncommittedChanges existing),
      ws_scannedAt = orElse (pw_scannedAt updates) (ws_scannedAt existing) \<rparr>"

text \<open>
  \<open>create(options)\<close>; \<open>now\<close> is its clock read and \<open>contextId\<close> the identifier drawn
  from \<open>uuidv4\<close>. The manager's history is mutated, so the new manager is returned too.
\<close>

definition createContext ::
  "CreateContextOptions \<Rightarrow> Timestamp \<Rightarrow> UniqueId \<Rightarrow> ContextManager \<Rightarrow> MCPContext \<times> ContextManager"
where
  "createContext options now contextId m =
    (let context =
           \<lparr> mc_id = contextId, mc_sessionId = co_sessionId options, mc_version = 1,
             mc_intent = co_intent options, mc_workspace = co_workspace options,
             mc_memoryRefs = orElse (co_memoryRefs options) [],
             mc_recentResults = [], mc_activePlan = None, mc_facts = [],
             mc_constraints = orElse (co_constraints options) [],
             mc_createdAt = now, mc_updatedAt = now \<rparr>
     in (context, initializeHistory (co_sessionId options) context m))"

text \<open>
  \<open>update(current, updates)\<close>; \<open>now\<close> is its clock read and \<open>newContextId\<close> the
  identifier drawn from \<open>uuidv4\<close>. The source builds a new object and assigns to no field
  of \<open>current\<close>; the only mutation is the push onto the session's history. Contexts are
  values in this section; the section after it gives the same method over a store of
  objects, where leaving \<open>current\<close> alone is a statement to prove.
\<close>

definition update ::
  "MCPContext \<Rightarrow> UpdateContextOptions \<Rightarrow> Timestamp \<Rightarrow> UniqueId \<Rightarrow> ContextManager \<Rightarrow>
   MCPContext \<times> ContextManager"
where
  "update current updates now newContextId m =
    (let mergedResults = mergeResults m (mc_recentResults current)
                           (orElse (uo_addResults updates) []);
         mergedFacts = mergeFacts (mc_facts current) (orElse (uo_addFacts updates) []);
         mergedConstraints = mergeConstraints (mc_constraints current)
                               (orElse (uo_addConstraints updates) []);
         updatedWorkspace =
           (case uo_workspace updates of
              Some w \<Rightarrow> mergeWorkspace (mc_workspace current) w
            | None \<Rightarrow> mc_workspace current);
         updated =
           \<lparr> mc_id = newContextId, mc_sessionId = mc_sessionId current,
             mc_version = jsAdd (mc_version current) 1, mc_intent = mc_intent current,
             mc_workspace = updatedWorkspace,
             mc_memoryRefs = orElse (uo_memoryRefs updates) (mc_memoryRefs current),
             mc_recentResults = mergedResults,
             mc_activePlan =
               (case uo_plan updates of Some p \<Rightarrow> p | None \<Rightarrow> mc_activePlan current),
             mc_facts = mergedFacts, mc_constraints = mergedConstraints,
             mc_createdAt = mc_createdAt current, mc_updatedAt = now \<rparr>
     in (updated, recordHistory (mc_sessionId current) updated m))"

definition getHistory :: "ContextManager \<Rightarrow> UniqueId \<Rightarrow> MCPContext list" where
  "getHistory m sessionId = orElse (mapGet (cm_history m) sessionId) []"

definition getVersion :: "ContextManager \<Rightarrow> UniqueId \<Rightarrow> int \<Rightarrow> MCPContext option" where
  "getVersion m sessionId version =
    (case mapGet (cm_history m) sessionId of
       None \<Rightarrow> None
     | Some sessionHistory \<Rightarrow> find (\<lambda>ctx. mc_version ctx = version) sessionHistory)"

definition clearHistory :: "UniqueId \<Rightarrow> ContextManager \<Rightarrow> ContextManager" where
  "clearHistory sessionId m = m\<lparr> cm_history := mapDelete sessionId (cm_history m) \<rparr>"

definition createMinimalIntent :: "string \<Rightarrow> Timestamp \<Rightarrow> UserIntent" where
  "createMinimalIntent rawInput now =
    \<lparr> ui_rawInput = rawInput, ui_action = ''unknown'', ui_target = None,
      ui_constraints = [], ui_confidence = 1 / 2, ui_capturedAt = now \<rparr>"

definition createMinimalWorkspace :: "string \<Rightarrow> Timestamp \<Rightarrow> WorkspaceMetadata" where
  "createMinimalWorkspace rootPath now =
    \<lparr> ws_rootPath = rootPath, ws_projectType = None, ws_frameworks = [],
      ws_activeFile = None, ws_selection = None, ws_gitBranch = None,
      ws_hasUncommittedChanges = False, ws_scannedAt = now \<rparr>"

text \<open>
  Auxiliary notions for the fact map: one insertion step, the invariant that a map is keyed
  by the statement of the fact it holds under distinct keys, and the last fact of a list
  with a given statement.
\<close>

abbreviation putFact ::
  "ContextFact \<Rightarrow> (string, ContextFact) JsMap \<Rightarrow> (string, ContextFact) JsMap"
where
  "putFact \<equiv> (\<lambda>fact factMap. mapSet (cf_statement fact) fact factMap)"

definition keyed :: "(string, ContextFact) JsMap \<Rightarrow> bool" where
  "keyed m \<longleftrightarrow> distinct (map fst m) \<and> (\<forall>(k, f) \<in> set m. k = cf_statement f)"

fun lastWith :: "string \<Rightarrow> ContextFact list \<Rightarrow> ContextFact option" where
  "lastWith k [] = None"
| "lastWith k (f # fs) =
     (case lastWith k fs of
        Some g \<Rightarrow> Some g
      | None \<Rightarrow> if cf_statement f = k then Some f else None)"

text \<open>Example values: a session's first context with its manager, a result and a fact.\<close>

definition ctx0 :: MCPContext where
  "ctx0 = fst (createContext
            \<lparr> co_sessionId = ''session-1'', co_intent = createMinimalIntent ''do it'' 0,
              co_workspace = createMinimalWorkspace ''/w'' 0, co_memoryRefs = None,
              co_constraints = None \<rparr> 1 ''ctx-1'' (newContextManager None))"

definition mgr0 :: ContextManager where
  "mgr0 = snd (createContext
            \<lparr> co_sessionId = ''session-1'', co_intent = createMinimalIntent ''do it'' 0,
              co_workspace = createMinimalWorkspace ''/w'' 0, co_memoryRefs = None,
              co_constraints = None \<rparr> 1 ''ctx-1'' (newContextManager None))"

definition okResult :: "UniqueId \<Rightarrow> ToolResult" where
  "okResult rid =
    \<lparr> tres_id = rid, tres_toolId = ''echo'', tres_success = True, tres_data = Some (Opaque ''ok''),
      tres_error = None, tres_durationMs = 1, tres_completedAt = 5 \<rparr>"

definition factA :: "rat \<Rightarrow> string \<Rightarrow> ContextFact" where
  "factA confidence source =
    \<lparr> cf_id = ''f'', cf_category = DISCOVERY, cf_statement = ''uses vitest'',
      cf_confidence = confidence, cf_source = source, cf_discoveredAt = 3 \<rparr>"

section \<open>Context Manager over a store of objects\<close>

text \<open>
  The contexts of the previous section are values. In the source a context is an object,
  its array- and object-valued fields hold references, \<open>update\<close> allocates new objects
  and \<open>recordHistory\<close> pushes onto an existing array. To state what a call writes and
  what it leaves alone, \<open>create\<close> and \<open>update\<close> are given once more over an explicit
  store. A reference is an address; the store is the list of the objects allocated so far,
  an object's address being its position; allocation appends, and a write replaces the
  object at an address. The elements of the arrays (results, facts, constraints, memory
  references) are values: the two methods copy them from array to array and write to none.
\<close>

type_synonym Ref = nat

record ContextObject =
  ob_id :: UniqueId
  ob_sessionId :: UniqueId
  ob_version :: int
  ob_intent :: Ref
  ob_workspace :: Ref
  ob_memoryRefs :: Ref
  ob_recentResults :: Ref
  ob_activePlan :: "Ref option"
  ob_facts :: Ref
  ob_constraints :: Ref
  ob_createdAt :: Timestamp
  ob_updatedAt :: Timestamp

datatype StoredObject =
    StoredContext ContextObject
  | StoredIntent UserIntent
  | StoredWorkspace WorkspaceMetadata
  | StoredMemoryRefs "MemoryReference list"
  | StoredResults "ToolResult list"
  | StoredPlan ExecutionPlan
  | StoredFacts "ContextFact list"
  | StoredConstraints "ExecutionConstraint list"
  | StoredHistory "Ref list"

type_synonym Store = "StoredObject list"

definition deref :: "Store \<Rightarrow> Ref \<Rightarrow> StoredObject option" where
  "deref s r = (if r < length s then Some (s ! r) else None)"

definition allocate :: "StoredObject \<Rightarrow> Store \<Rightarrow> Ref \<times> Store" where
  "allocate obj s = (length s, s @ [obj])"

definition assign :: "Ref \<Rightarrow> StoredObject \<Rightarrow> Store \<Rightarrow> Store" where
  "assign r obj s = s[r := obj]"

text \<open>
  Reading a reference at the type its field declares. \<open>None\<close> is a reference that holds
  an object of another kind or none at all, which the types of the source exclude.
\<close>

definition readContext :: "Store \<Rightarrow> Ref \<Rightarrow> ContextObject option" where
  "readContext s r = (case deref s r of Some (StoredContext v) \<Rightarrow> Some v | _ \<Rightarrow> None)"

definition readIntent :: "Store \<Rightarrow> Ref \<Rightarrow> UserIntent option" where
  "readIntent s r = (case deref s r of Some (StoredIntent v) \<Rightarrow> Some v | _ \<Rightarrow> None)"

definition readWorkspace :: "Store \<Rightarrow> Ref \<Rightarrow> WorkspaceMetadata option" where
  "readWorkspace s r = (case deref s r of Some (StoredWorkspace v) \<Rightarrow> Some v | _ \<Rightarrow> None)"

definition readMemoryRefs :: "Store \<Rightarrow> Ref \<Rightarrow> MemoryReference list option" where
  "readMemoryRefs s r = (case deref s r of Some (StoredMemoryRefs v) \<Rightarrow> Some v | _ \<Rightarrow> None)"

definition readResults :: "Store \<Rightarrow> Ref \<Rightarrow> ToolResult list option" where
  "readResults s r = (case deref s r of Some (StoredResults v) \<Rightarrow> Some v | _ \<Rightarrow> None)"

definition readPlan :: "Store \<Rightarrow> Ref \<Rightarrow> ExecutionPlan option" where
  "readPlan s r = (case deref s r of Some (StoredPlan v) \<Rightarrow> Some v | _ \<Rightarrow> None)"

definition readFacts :: "Store \<Rightarrow> Ref \<Rightarrow> ContextFact list option" where
  "readFacts s r = (case deref s r of Some (StoredFacts v) \<Rightarrow> Some v | _ \<Rightarrow> None)"

definition readConstraints :: "Store \<Rightarrow> Ref \<Rightarrow> ExecutionConstraint list option" where
  "readConstraints s r =
    (case deref s r of Some (StoredConstraints v) \<Rightarrow> Some v | _ \<Rightarrow> None)"

definition readHistory :: "Store \<Rightarrow> Ref \<Rightarrow> Ref list option" where
  "readHistory s r = (case deref s r of Some (StoredHistory v) \<Rightarrow> Some v | _ \<Rightarrow> None)"

text \<open>
  The options of \<open>create\<close> and \<open>update\<close> as the caller passes them: objects and arrays
  that end up in the context are references; the arrays of additions and the partial
  workspace, which are only read, are values.
\<close>

record StoredCreateOptions =
  sc_sessionId :: UniqueId
  sc_intent :: Ref
  sc_workspace :: Ref
  sc_memoryRefs :: "Ref option"
  sc_constraints :: "Ref option"

record StoredUpdateOptions =
  so_memoryRefs :: "Ref option"
  so_addResults :: "ToolResult list option"
  so_addFacts :: "ContextFact list option"
  so_addConstraints :: "ExecutionConstraint list option"
  so_plan :: "Ref option option"
  so_workspace :: "PartialWorkspace option"

text \<open>The manager object: its history maps a session to the array of its contexts.\<close>

record StoredManager =
  sm_maxRecentResults :: int
  sm_history :: "(UniqueId, Ref) JsMap"

text \<open>
  \<open>mergeResults\<close> reads nothing of the manager but \<open>maxRecentResults\<close>; this is a manager
  value that carries the limit.
\<close>

definition limitOnly :: "int \<Rightarrow> ContextManager" where
  "limitOnly maxRecentResults = \<lparr> cm_maxRecentResults = maxRecentResults, cm_history = [] \<rparr>"

text \<open>\<open>create(options)\<close>: five or fewer new arrays and objects, and a new history array.\<close>

definition createStored ::
  "StoredCreateOptions \<Rightarrow> Timestamp \<Rightarrow> UniqueId \<Rightarrow> StoredManager \<Rightarrow> Store \<Rightarrow>
   Ref \<times> StoredManager \<times> Store"
where
  "createStored options now contextId m s =
    (let (memoryRefs, s1) =
           (case sc_memoryRefs options of
              Some given \<Rightarrow> (given, s)
            | None \<Rightarrow> allocate (StoredMemoryRefs []) s);
         (recentResults, s2) = allocate (StoredResults []) s1;
         (facts, s3) = allocate (StoredFacts []) s2;
         (constraints, s4) =
           (case sc_constraints options of
              Some given \<Rightarrow> (given, s3)
            | None \<Rightarrow> allocate (StoredConstraints []) s3);
         (context, s5) =
           allocate (StoredContext
             \<lparr> ob_id = contextId, ob_sessionId = sc_sessionId options, ob_version = 1,
               ob_intent = sc_intent options, ob_workspace = sc_workspace options,
               ob_memoryRefs = memoryRefs, ob_recentResults = recentResults,
               ob_activePlan = None, ob_facts = facts, ob_constraints = constraints,
               ob_createdAt = now, ob_updatedAt = now \<rparr>) s4;
         (sessionHistory, s6) = allocate (StoredHistory [context]) s5
     in (context,
         m\<lparr> sm_history := mapSet (sc_sessionId options) sessionHistory (sm_history m) \<rparr>,
         s6))"

text \<open>
  \<open>recordHistory\<close>: the push writes to the session's array where it stands; only a
  session without an array gets a new one.
\<close>

definition recordHistoryStored ::
  "UniqueId \<Rightarrow> Ref \<Rightarrow> StoredManager \<Rightarrow> Store \<Rightarrow> (StoredManager \<times> Store) option"
where
  "recordHistoryStored sessionId context m s =
    (case mapGet (sm_history m) sessionId of
       Some sessionHistory \<Rightarrow>
         (case readHistory s sessionHistory of
            None \<Rightarrow> None
          | Some contexts \<Rightarrow>
              Some (m, assign sessionHistory (StoredHistory (contexts @ [context])) s))
     | None \<Rightarrow>
         (let (sessionHistory, s') = allocate (StoredHistory [context]) s
          in Some (m\<lparr> sm_history := mapSet sessionId sessionHistory (sm_history m) \<rparr>, s')))"

text \<open>The four merges: each reads the existing array or object and allocates its result.\<close>

definition mergeResultsStored ::
  "StoredManager \<Rightarrow> Ref \<Rightarrow> ToolResult list \<Rightarrow> Store \<Rightarrow> (Ref \<times> Store) option"
where
  "mergeResultsStored m existing additions s =
    (case readResults s existing of
       None \<Rightarrow> None
     | Some existingResults \<Rightarrow>
         Some (allocate (StoredResults
                 (mergeResults (limitOnly (sm_maxRecentResults m)) existingResults additions)) s))"

definition mergeFactsStored ::
  "Ref \<Rightarrow> ContextFact list \<Rightarrow> Store \<Rightarrow> (Ref \<times> Store) option"
where
  "mergeFactsStored existing additions s =
    (case readFacts s existing of
       None \<Rightarrow> None
     | Some existingFacts \<Rightarrow>
         Some (allocate (StoredFacts (mergeFacts existingFacts additions)) s))"

definition mergeConstraintsStored ::
  "Ref \<Rightarrow> ExecutionConstraint list \<Rightarrow> Store \<Rightarrow> (Ref \<times> Store) option"
where
  "mergeConstraintsStored existing additions s =
    (case readConstraints s existing of
       None \<Rightarrow> None
     | Some existingConstraints \<Rightarrow>
         Some (allocate (StoredConstraints (mergeConstraints existingConstraints additions)) s))"

definition mergeWorkspaceStored ::
  "Ref \<Rightarrow> PartialWorkspace \<Rightarrow> Store \<Rightarrow> (Ref \<times> Store) option"
where
  "mergeWorkspaceStored existing updates s =
    (case readWorkspace s existing of
       None \<Rightarrow> None
     | Some existingWorkspace \<Rightarrow>
         Some (allocate (StoredWorkspace (mergeWorkspace existingWorkspace updates)) s))"

text \<open>
  \<open>update(current, updates)\<close>, statement by statement. \<open>cur\<close> holds the fields of
  \<open>current\<close> as read on entry; the source reads them one by one while it builds the new
  object, and nothing but allocations happens in between. The result is the reference of
  the new context with the manager and the store as the call leaves them.
\<close>

definition updateStored ::
  "Ref \<Rightarrow> StoredUpdateOptions \<Rightarrow> Timestamp \<Rightarrow> UniqueId \<Rightarrow> StoredManager \<Rightarrow> Store \<Rightarrow>
   (Ref \<times> StoredManager \<times> Store) option"
where
  "updateStored current updates now newContextId m s =
    (case readContext s current of
       None \<Rightarrow> None
     | Some cur \<Rightarrow>
    (case mergeResultsStored m (ob_recentResults cur) (orElse (so_addResults updates) []) s of
       None \<Rightarrow> None
     | Some (mergedResults, s1) \<Rightarrow>
    (case mergeFactsStored (ob_facts cur) (orElse (so_addFacts updates) []) s1 of
       None \<Rightarrow> None
     | Some (mergedFacts, s2) \<Rightarrow>
    (case mergeConstraintsStored (ob_constraints cur) (orElse (so_addConstraints updates) []) s2 of
       None \<Rightarrow> None
     | Some (mergedConstraints, s3) \<Rightarrow>
    (case (case so_workspace updates of
             Some w \<Rightarrow> mergeWorkspaceStored (ob_workspace cur) w s3
           | None \<Rightarrow> Some (ob_workspace cur, s3)) of
       None \<Rightarrow> None
     | Some (updatedWorkspace, s4) \<Rightarrow>
         (let (updated, s5) =
                allocate (StoredContext
                  \<lparr> ob_id = newContextId, ob_sessionId = ob_sessionId cur,
                    ob_version = jsAdd (ob_version cur) 1, ob_intent = ob_intent cur,
                    ob_workspace = updatedWorkspace,
                    ob_memoryRefs = orElse (so_memoryRefs updates) (ob_memoryRefs cur),
                    ob_recentResults = mergedResults,
                    ob_activePlan =
                      (case so_plan updates of Some p \<Rightarrow> p | None \<Rightarrow> ob_activePlan cur),
                    ob_facts = mergedFacts, ob_constraints = mergedConstraints,
                    ob_createdAt = ob_createdAt cur, ob_updatedAt = now \<rparr>) s4
          in case recordHistoryStored (ob_sessionId cur) updated m s5 of
               None \<Rightarrow> None
             | Some (m', s6) \<Rightarrow> Some (updated, m', s6)))))))"

text \<open>\<open>getHistory(sessionId)\<close>: the references in the session's array.\<close>

definition getHistoryStored :: "StoredManager \<Rightarrow> Store \<Rightarrow> UniqueId \<Rightarrow> Ref list" where
  "getHistoryStored m s sessionId =
    (case mapGet (sm_history m) sessionId of
       None \<Rightarrow> []
     | Some sessionHistory \<Rightarrow> orElse (readHistory s sessionHistory) [])"

text \<open>
  The value of the context object at a reference, every field followed to the object it
  refers to, and the value of an options object. They relate this section to the previous
  one.
\<close>

definition loadPlan :: "Store \<Rightarrow> Ref option \<Rightarrow> ExecutionPlan option option" where
  "loadPlan s p =
    (case p of
       None \<Rightarrow> Some None
     | Some r \<Rightarrow> (case readPlan s r of None \<Rightarrow> None | Some plan \<Rightarrow> Some (Some plan)))"

definition loadContext :: "Store \<Rightarrow> Ref \<Rightarrow> MCPContext option" where
  "loadContext s r =
    (case readContext s r of None \<Rightarrow> None | Some ob \<Rightarrow>
    (case readIntent s (ob_intent ob) of None \<Rightarrow> None | Some intent \<Rightarrow>
    (case readWorkspace s (ob_workspace ob) of None \<Rightarrow> None | Some workspace \<Rightarrow>
    (case readMemoryRefs s (ob_memoryRefs ob) of None \<Rightarrow> None | Some memoryRefs \<Rightarrow>
    (case readResults s (ob_recentResults ob) of None \<Rightarrow> None | Some recentResults \<Rightarrow>
    (case loadPlan s (ob_activePlan ob) of None \<Rightarrow> None | Some activePlan \<Rightarrow>
    (case readFacts s (ob_facts ob) of None \<Rightarrow> None | Some facts \<Rightarrow>
    (case readConstraints s (ob_constraints ob) of None \<Rightarrow> None | Some constraints \<Rightarrow>
       Some \<lparr> mc_id = ob_id ob, mc_sessionId = ob_sessionId ob, mc_version = ob_version ob,
              mc_intent = intent, mc_workspace = workspace, mc_memoryRefs = memoryRefs,
              mc_recentResults = recentResults, mc_activePlan = activePlan,
              mc_facts = facts, mc_constraints = constraints,
              mc_createdAt = ob_createdAt ob, mc_updatedAt = ob_updatedAt ob \<rparr>))))))))"

definition loadOptions :: "Store \<Rightarrow> StoredUpdateOptions \<Rightarrow> UpdateContextOptions option" where
  "loadOptions s updates =
    (case (case so_memoryRefs updates of
             None \<Rightarrow> Some None
           | Some r \<Rightarrow> (case readMemoryRefs s r of None \<Rightarrow> None | Some v \<Rightarrow> Some (Some v))) of
       None \<Rightarrow> None
     | Some memoryRefs \<Rightarrow>
    (case (case so_plan updates of
             None \<Rightarrow> Some None
           | Some p \<Rightarrow> (case loadPlan s p of None \<Rightarrow> None | Some v \<Rightarrow> Some (Some v))) of
       None \<Rightarrow> None
     | Some plan \<Rightarrow>
         Some \<lparr> uo_memoryRefs = memoryRefs, uo_addResults = so_addResults updates,
                uo_addFacts = so_addFacts updates,
                uo_addConstraints = so_addConstraints updates,
                uo_plan = plan, uo_workspace = so_workspace updates \<rparr>))"

text \<open>
  The session's entry in the history map, if there is one, refers to an array of contexts.
\<close>

definition historyTyped :: "StoredManager \<Rightarrow> Store \<Rightarrow> UniqueId \<Rightarrow> bool" where
  "historyTyped m s sessionId =
    (case mapGet (sm_history m) sessionId of
       None \<Rightarrow> True
     | Some sessionHistory \<Rightarrow> readHistory s sessionHistory \<noteq> None)"

text \<open>
  Example: a store holding an intent and a workspace, in which \<open>create\<close> has made the
  first context of a session.
\<close>

definition store0 :: Store where
  "store0 = [StoredIntent (createMinimalIntent ''do it'' 0),
             StoredWorkspace (createMinimalWorkspace ''/w'' 0)]"

definition created0 :: "Ref \<times> StoredManager \<times> Store" where
  "created0 =
    createStored \<lparr> sc_sessionId = ''session-1'', sc_intent = 0, sc_workspace = 1,
                   sc_memoryRefs = None, sc_constraints = None \<rparr>
      1 ''ctx-1'' \<lparr> sm_maxRecentResults = 10, sm_history = [] \<rparr> store0"

definition noStoredUpdates :: StoredUpdateOptions where
  "noStoredUpdates =
    \<lparr> so_memoryRefs = None, so_addResults = None, so_addFacts = None,
      so_addConstraints = None, so_plan = None, so_workspace = None \<rparr>"

text \<open>The context of that store, updated with nothing to add.\<close>

definition updated0 :: "(Ref \<times> StoredManager \<times> Store) option" where
  "updated0 =
    updateStored (fst created0) noStoredUpdates 7 ''ctx-2'' (fst (snd created0))
      (snd (snd created0))"

text \<open>
  A context at the last version that a double can still increment, and a context whose
  identifier is a version-4 UUID.
\<close>

definition ctxAtLimit :: MCPContext where
  "ctxAtLimit = ctx0\<lparr> mc_version := 9007199254740992 \<rparr>"

definition ctxWithUuid :: MCPContext where
  "ctxWithUuid = ctx0\<lparr> mc_id := ''3b241101-e2bb-4255-8caf-4136c566a962'' \<rparr>"

section \<open>Text helpers\<close>

text \<open>Decimal rendering of a number inside a template string, and \<open>Array.join\<close>.\<close>

definition digitChar :: "nat \<Rightarrow> char" where
  "digitChar n = ''0123456789'' ! (n mod 10)"

function showNat :: "nat \<Rightarrow> string" where
  "showNat n = (if n < 10 then [digitChar n] else showNat (n div 10) @ [digitChar n])"
  by pat_completeness auto
termination
  by (relation "measure id") auto

declare showNat.simps [simp del]

definition showInt :: "int \<Rightarrow> string" where
  "showInt i = (if i < 0 then ''-'' @ showNat (nat (- i)) else showNat (nat i))"

fun joinWith :: "string \<Rightarrow> string list \<Rightarrow> string" where
  "joinWith sep [] = []"
| "joinWith sep [x] = x"
| "joinWith sep (x # y # ys) = x @ sep @ joinWith sep (y # ys)"

section \<open>Tool contracts (src/types/tools.types.ts)\<close>

datatype ToolCategory =
  FILESYSTEM | EXECUTION | ANALYSIS | VERSION_CONTROL | SEARCH | EXTERNAL | MEMORY | UTILITY

fun categoryName :: "ToolCategory \<Rightarrow> string" where
  "categoryName FILESYSTEM = ''FILESYSTEM''"
| "categoryName EXECUTION = ''EXECUTION''"
| "categoryName ANALYSIS = ''ANALYSIS''"
| "categoryName VERSION_CONTROL = ''VERSION_CONTROL''"
| "categoryName SEARCH = ''SEARCH''"
| "categoryName EXTERNAL = ''EXTERNAL''"
| "categoryName MEMORY = ''MEMORY''"
| "categoryName UTILITY = ''UTILITY''"

datatype ToolPermission =
  FILE_READ | FILE_WRITE | FILE_DELETE | SHELL_EXECUTE | NETWORK_ACCESS | GIT_WRITE | ENV_ACCESS

fun permissionName :: "ToolPermission \<Rightarrow> string" where
  "permissionName FILE_READ = ''FILE_READ''"
| "permissionName FILE_WRITE = ''FILE_WRITE''"
| "permissionName FILE_DELETE = ''FILE_DELETE''"
| "permissionName SHELL_EXECUTE = ''SHELL_EXECUTE''"
| "permissionName NETWORK_ACCESS = ''NETWORK_ACCESS''"
| "permissionName GIT_WRITE = ''GIT_WRITE''"
| "permissionName ENV_ACCESS = ''ENV_ACCESS''"

record MCPSchema =
  sch_id :: string
  sch_version :: string
  sch_schema :: DataRecord
  sch_description :: string
  sch_examples :: "Unknown list"

record ValidationError =
  ve_field :: string
  ve_message :: string
  ve_code :: string

record ValidationWarning =
  vw_field :: string
  vw_message :: string
  vw_suggestion :: string

record ValidationResult =
  vr_valid :: bool
  vr_errors :: "ValidationError list"
  vr_warnings :: "ValidationWarning list"

definition validationSuccess :: ValidationResult where
  "validationSuccess = \<lparr> vr_valid = True, vr_errors = [], vr_warnings = [] \<rparr>"

definition validationFailure :: "ValidationError list \<Rightarrow> ValidationResult" where
  "validationFailure errors = \<lparr> vr_valid = False, vr_errors = errors, vr_warnings = [] \<rparr>"

text \<open>
  The execution context handed to a tool. Its \<open>abortSignal\<close> (never aborted by the
  registry) and its \<open>logger\<close> (console output) carry no state of the engine and are left
  out.
\<close>

record ToolExecutionContext =
  xc_mcpContext :: MCPContext
  xc_executionId :: UniqueId
  xc_workspaceRoot :: string
  xc_allowedPaths :: "string list"
  xc_dryRun :: bool

text \<open>
  What a \<open>catch\<close> clause can receive: an \<open>Error\<close> with its message, or some other value.
  A promise settles by resolving with a value or rejecting with a thrown value.
\<close>

datatype Thrown = ThrownError string | ThrownOther

datatype 'a Settled = Resolved 'a | Rejected Thrown

text \<open>
  The behaviour of one call of a tool's \<open>execute\<close>: its promise settles some milliseconds
  after the call, or never does. A synchronous throw is a rejection after 0 ms.
\<close>

datatype ExecBehaviour = Settles int "ToolResult Settled" | NeverSettles

text \<open>
  A tool's \<open>execute\<close> and \<open>validate\<close> are supplied by the caller. They are functions of
  their arguments here; the execution context of every invocation carries a fresh
  execution id.
\<close>

record ToolDefinition =
  td_id :: string
  td_name :: string
  td_description :: string
  td_category :: ToolCategory
  td_inputSchema :: MCPSchema
  td_outputSchema :: MCPSchema
  td_permissions :: "ToolPermission list"
  td_hasSideEffects :: bool
  td_idempotent :: bool
  td_estimatedDurationMs :: int
  td_execute :: "Unknown \<Rightarrow> ToolExecutionContext \<Rightarrow> ExecBehaviour"
  td_validate :: "(Unknown \<Rightarrow> MCPContext \<Rightarrow> Thrown + ValidationResult) option"
  td_version :: string

record ToolRegistryEntry =
  re_definition :: ToolDefinition
  re_registeredAt :: Timestamp
  re_enabled :: bool
  re_invocationCount :: nat
  re_lastInvokedAt :: "Timestamp option"
  re_averageDurationMs :: rat

record ToolInvocationRequest =
  rq_toolId :: string
  rq_input :: Unknown
  rq_context :: MCPContext
  rq_timeoutMs :: "int option"
  rq_skipValidation :: "bool option"

section \<open>Tool Registry (src/mcp/tool-registry.ts)\<close>

record ToolRegistryConfig =
  rc_defaultTimeoutMs :: int
  rc_strictValidation :: bool
  rc_allowedCategories :: "ToolCategory list"
  rc_grantedPermissions :: "ToolPermission list"

definition DEFAULT_REGISTRY_CONFIG :: ToolRegistryConfig where
  "DEFAULT_REGISTRY_CONFIG =
    \<lparr> rc_defaultTimeoutMs = 30000, rc_strictValidation = True,
      rc_allowedCategories = [], rc_grantedPermissions = [] \<rparr>"

text \<open>
  What the registry does to the outside, in order: the events it emits and its calls of
  the functions a tool supplies.
\<close>

datatype RegistryEffect =
    ToolRegistered ToolRegistryEntry
  | ToolUnregistered string
  | ToolInvoked string UniqueId
  | ToolCompleted string UniqueId ToolResult
  | ToolFailed string UniqueId ToolError
  | CallValidate string Unknown
  | CallExecute string Unknown ToolExecutionContext

text \<open>
  The registry: its two private fields, and \<open>tr_trace\<close>, the effects so far (oldest
  first), which is not a field of the class.
\<close>

record ToolRegistry =
  tr_tools :: "(string, ToolRegistryEntry) JsMap"
  tr_config :: ToolRegistryConfig
  tr_trace :: "RegistryEffect list"

text \<open>The constructor, given the merged configuration.\<close>

definition newToolRegistry :: "ToolRegistryConfig \<Rightarrow> ToolRegistry" where
  "newToolRegistry config = \<lparr> tr_tools = [], tr_config = config, tr_trace = [] \<rparr>"

definition register :: "ToolDefinition \<Rightarrow> Timestamp \<Rightarrow> ToolRegistry \<Rightarrow> Outcome \<times> ToolRegistry" where
  "register definition now reg =
    (if mapGet (tr_tools reg) (td_id definition) \<noteq> None then
       (Threw (''Tool with ID '' @ [CHR 0x27] @ td_id definition @ [CHR 0x27]
               @ '' is already registered''), reg)
     else if length (rc_allowedCategories (tr_config reg)) > 0 \<and>
             td_category definition \<notin> set (rc_allowedCategories (tr_config reg)) then
       (Threw (''Tool category '' @ [CHR 0x27] @ categoryName (td_category definition)
               @ [CHR 0x27] @ '' is not allowed. '' @ ''Allowed categories: ''
               @ joinWith '', '' (map categoryName (rc_allowedCategories (tr_config reg)))),
        reg)
     else
       (let entry = \<lparr> re_definition = definition, re_registeredAt = now, re_enabled = True,
                       re_invocationCount = 0, re_lastInvokedAt = None,
                       re_averageDurationMs = 0 \<rparr>
        in (Returned,
            reg\<lparr> tr_tools := mapSet (td_id definition) entry (tr_tools reg),
                 tr_trace := tr_trace reg @ [ToolRegistered entry] \<rparr>)))"

definition unregister :: "string \<Rightarrow> ToolRegistry \<Rightarrow> bool \<times> ToolRegistry" where
  "unregister toolId reg =
    (let existed = (mapGet (tr_tools reg) toolId \<noteq> None)
     in if existed
        then (True, reg\<lparr> tr_tools := mapDelete toolId (tr_tools reg),
                         tr_trace := tr_trace reg @ [ToolUnregistered toolId] \<rparr>)
        else (False, reg))"

definition getTool :: "ToolRegistry \<Rightarrow> string \<Rightarrow> ToolDefinition option" where
  "getTool reg toolId = map_option re_definition (mapGet (tr_tools reg) toolId)"

definition hasTool :: "ToolRegistry \<Rightarrow> string \<Rightarrow> bool" where
  "hasTool reg toolId =
    (case mapGet (tr_tools reg) toolId of None \<Rightarrow> False | Some entry \<Rightarrow> re_enabled entry)"

definition listTools :: "ToolRegistry \<Rightarrow> ToolCategory option \<Rightarrow> ToolDefinition list" where
  "listTools reg category =
    map re_definition
      (filter (\<lambda>entry. re_enabled entry \<and>
                 (case category of
                    None \<Rightarrow> True
                  | Some cat \<Rightarrow> td_category (re_definition entry) = cat))
         (mapValues (tr_tools reg)))"

definition setEnabled :: "string \<Rightarrow> bool \<Rightarrow> ToolRegistry \<Rightarrow> ToolRegistry" where
  "setEnabled toolId enabled reg =
    (case mapGet (tr_tools reg) toolId of
       Some entry \<Rightarrow>
         reg\<lparr> tr_tools := mapSet toolId (entry\<lparr> re_enabled := enabled \<rparr>) (tr_tools reg) \<rparr>
     | None \<Rightarrow> reg)"

definition getMetrics :: "ToolRegistry \<Rightarrow> string \<Rightarrow> ToolRegistryEntry option" where
  "getMetrics reg toolId = mapGet (tr_tools reg) toolId"

text \<open>\<open>checkPermissions(required)\<close>: the pair of \<open>valid\<close> and \<open>missing\<close>.\<close>

definition checkPermissions ::
  "ToolRegistry \<Rightarrow> ToolPermission list \<Rightarrow> bool \<times> ToolPermission list"
where
  "checkPermissions reg required =
    (let missing = filter (\<lambda>permission.
                     permission \<notin> set (rc_grantedPermissions (tr_config reg))) required
     in (length missing = 0, missing))"

text \<open>
  \<open>validateInput\<close>: the tool's validator if it has one (the call is traced, and may
  throw), success otherwise.
\<close>

definition validateInput ::
  "ToolDefinition \<Rightarrow> Unknown \<Rightarrow> MCPContext \<Rightarrow> ToolRegistry \<Rightarrow>
   (Thrown + ValidationResult) \<times> ToolRegistry"
where
  "validateInput definition input context reg =
    (case td_validate definition of
       Some validate \<Rightarrow>
         (validate input context,
          reg\<lparr> tr_trace := tr_trace reg @ [CallValidate (td_id definition) input] \<rparr>)
     | None \<Rightarrow> (Inr validationSuccess, reg))"

definition createExecutionContext :: "UniqueId \<Rightarrow> MCPContext \<Rightarrow> ToolExecutionContext" where
  "createExecutionContext executionId mcpContext =
    \<lparr> xc_mcpContext = mcpContext, xc_executionId = executionId,
      xc_workspaceRoot = ws_rootPath (mc_workspace mcpContext),
      xc_allowedPaths = [ws_rootPath (mc_workspace mcpContext)],
      xc_dryRun = False \<rparr>"

text \<open>
  The delay a timer really gets from \<open>setTimeout\<close>: a delay below 1 ms or above
  \<open>2^31 - 1\<close> ms is replaced by 1 ms.
\<close>

definition timerDelay :: "int \<Rightarrow> int" where
  "timerDelay ms = (if ms < 1 \<or> ms > 2147483647 then 1 else ms)"

text \<open>
  \<open>executeWithTimeout\<close>: the race between the tool's promise and the timer. The tool wins
  when it settles strictly before the timer's delay has passed; otherwise the timer
  rejects. (Which of two callbacks due in the same millisecond runs first is a matter of
  real time; the model gives that tie to the timer.)
\<close>

definition timeoutError :: "int \<Rightarrow> Thrown" where
  "timeoutError timeoutMs =
    ThrownError (''Tool execution timed out after '' @ showInt timeoutMs @ ''ms'')"

definition executeWithTimeout ::
  "ToolDefinition \<Rightarrow> Unknown \<Rightarrow> ToolExecutionContext \<Rightarrow> int \<Rightarrow> ToolResult Settled"
where
  "executeWithTimeout definition input context timeoutMs =
    (case td_execute definition input context of
       Settles after outcome \<Rightarrow>
         if after < timerDelay timeoutMs then outcome else Rejected (timeoutError timeoutMs)
     | NeverSettles \<Rightarrow> Rejected (timeoutError timeoutMs))"

definition createErrorResult ::
  "UniqueId \<Rightarrow> string \<Rightarrow> string \<Rightarrow> string \<Rightarrow> bool \<Rightarrow> int \<Rightarrow> Timestamp \<Rightarrow> ToolResult"
where
  "createErrorResult executionId toolId code message recoverable durationMs now =
    \<lparr> tres_id = executionId, tres_toolId = toolId, tres_success = False, tres_data = None,
      tres_error = Some \<lparr> te_code = code, te_message = message,
                           te_recoverable = recoverable, te_suggestions = [],
                           te_stack = None \<rparr>,
      tres_durationMs = durationMs, tres_completedAt = now \<rparr>"

definition updateMetrics ::
  "ToolRegistryEntry \<Rightarrow> int \<Rightarrow> Timestamp \<Rightarrow> ToolRegistry \<Rightarrow> ToolRegistry"
where
  "updateMetrics entry durationMs now reg =
    (let newCount = re_invocationCount entry + 1;
         newAverage = (re_averageDurationMs entry * of_nat (re_invocationCount entry)
                       + of_int durationMs) / of_nat newCount
     in reg\<lparr> tr_tools :=
               mapSet (td_id (re_definition entry))
                 (entry\<lparr> re_invocationCount := newCount, re_lastInvokedAt := Some now,
                          re_averageDurationMs := newAverage \<rparr>)
                 (tr_tools reg) \<rparr>)"

definition thrownMessage :: "Thrown \<Rightarrow> string" where
  "thrownMessage error = (case error of ThrownError msg \<Rightarrow> msg | ThrownOther \<Rightarrow> ''Unknown error'')"

text \<open>
  The last stage of \<open>invoke\<close>, from \<open>createExecutionContext\<close> on: announce, run the race,
  then either update the metrics and report completion, or turn the rejection into an
  \<open>EXECUTION_ERROR\<close> result.
\<close>

definition dispatch ::
  "ToolInvocationRequest \<Rightarrow> ToolRegistryEntry \<Rightarrow> UniqueId \<Rightarrow> int \<Rightarrow> int \<Rightarrow> Timestamp \<Rightarrow>
   ToolRegistry \<Rightarrow> ToolResult Settled \<times> ToolRegistry"
where
  "dispatch request entry executionId startTime endTime now reg =
    (let definition = re_definition entry;
         execContext = createExecutionContext executionId (rq_context request);
         reg1 = reg\<lparr> tr_trace := tr_trace reg @
                         [ToolInvoked (rq_toolId request) executionId,
                          CallExecute (rq_toolId request) (rq_input request) execContext] \<rparr>;
         timeoutMs = orElse (rq_timeoutMs request) (rc_defaultTimeoutMs (tr_config reg))
     in case executeWithTimeout definition (rq_input request) execContext timeoutMs of
          Resolved result \<Rightarrow>
            (let reg2 = updateMetrics entry (endTime - startTime) now reg1
             in (Resolved result,
                 reg2\<lparr> tr_trace := tr_trace reg2 @
                          [ToolCompleted (rq_toolId request) executionId result] \<rparr>))
        | Rejected error \<Rightarrow>
            (let errorResult = createErrorResult executionId (rq_toolId request)
                                 ''EXECUTION_ERROR'' (thrownMessage error) True
                                 (endTime - startTime) now
             in (Resolved errorResult,
                 reg1\<lparr> tr_trace := tr_trace reg1 @
                          [ToolFailed (rq_toolId request) executionId
                             \<lparr> te_code = ''EXECUTION_ERROR'', te_message = thrownMessage error,
                               te_recoverable = True, te_suggestions = [],
                               te_stack = None \<rparr>] \<rparr>)))"

text \<open>
  \<open>invoke(request)\<close>. \<open>executionId\<close> is the identifier drawn at entry, \<open>startTime\<close> the
  clock read at entry, \<open>endTime\<close> the read that measures the duration on the path taken
  and \<open>now\<close> the read that stamps the result (or the metrics). The promise it returns
  resolves with a result, or rejects when the tool's validator throws.

  The invocation is taken on its own: the registry it ends in is a function of the registry
  it starts in, so no other invocation and no \<open>register\<close>, \<open>unregister\<close> or \<open>setEnabled\<close>
  call runs while it is suspended at one of its two \<open>await\<close>s. The source reads \<open>entry\<close>
  once, before the first \<open>await\<close>, and \<open>updateMetrics\<close> later stores a copy of that
  entry with the new metrics; with nothing running in between, that entry is still the
  one the registry holds when the copy is stored. Invocations that overlap are outside
  this definition.
\<close>

definition invoke ::
  "ToolInvocationRequest \<Rightarrow> UniqueId \<Rightarrow> int \<Rightarrow> int \<Rightarrow> Timestamp \<Rightarrow> ToolRegistry \<Rightarrow>
   ToolResult Settled \<times> ToolRegistry"
where
  "invoke request executionId startTime endTime now reg =
    (case mapGet (tr_tools reg) (rq_toolId request) of
       None \<Rightarrow>
         (Resolved (createErrorResult executionId (rq_toolId request) ''TOOL_NOT_FOUND''
                      (''Tool '' @ [CHR 0x27] @ rq_toolId request @ [CHR 0x27]
                       @ '' is not registered'')
                      False (endTime - startTime) now), reg)
     | Some entry \<Rightarrow>
         if \<not> re_enabled entry then
           (Resolved (createErrorResult executionId (rq_toolId request) ''TOOL_DISABLED''
                        (''Tool '' @ [CHR 0x27] @ rq_toolId request @ [CHR 0x27]
                         @ '' is currently disabled'')
                        True (endTime - startTime) now), reg)
         else
           (let definition = re_definition entry;
                permissionCheck = checkPermissions reg (td_permissions definition)
            in if \<not> fst permissionCheck then
                 (Resolved (createErrorResult executionId (rq_toolId request)
                              ''PERMISSION_DENIED''
                              (''Missing permissions: ''
                               @ joinWith '', '' (map permissionName (snd permissionCheck)))
                              False (endTime - startTime) now), reg)
               else if rq_skipValidation request \<noteq> Some True then
                 (case validateInput definition (rq_input request) (rq_context request) reg of
                    (Inl thrown, reg1) \<Rightarrow> (Rejected thrown, reg1)
                  | (Inr validation, reg1) \<Rightarrow>
                      if \<not> vr_valid validation then
                        (Resolved (createErrorResult executionId (rq_toolId request)
                                     ''VALIDATION_FAILED''
                                     (''Input validation failed: ''
                                      @ joinWith '', '' (map ve_message (vr_errors validation)))
                                     True (endTime - startTime) now), reg1)
                      else dispatch request entry executionId startTime endTime now reg1)
               else dispatch request entry executionId startTime endTime now reg))"

text \<open>
  The condition under which an invocation of a registered tool reaches \<open>updateMetrics\<close>:
  every gate passes and the tool's promise resolves before the timer.
\<close>

definition validationPasses :: "ToolDefinition \<Rightarrow> ToolInvocationRequest \<Rightarrow> bool" where
  "validationPasses definition request =
    (rq_skipValidation request = Some True \<or>
     (case td_validate definition of
        None \<Rightarrow> True
      | Some validate \<Rightarrow>
          (case validate (rq_input request) (rq_context request) of
             Inl thrown \<Rightarrow> False
           | Inr validation \<Rightarrow> vr_valid validation)))"

definition resolvesInTime ::
  "ToolRegistry \<Rightarrow> ToolRegistryEntry \<Rightarrow> ToolInvocationRequest \<Rightarrow> UniqueId \<Rightarrow> bool"
where
  "resolvesInTime reg entry request executionId =
    (case executeWithTimeout (re_definition entry) (rq_input request)
            (createExecutionContext executionId (rq_context request))
            (orElse (rq_timeoutMs request) (rc_defaultTimeoutMs (tr_config reg))) of
       Resolved result \<Rightarrow> True
     | Rejected error \<Rightarrow> False)"

definition completes ::
  "ToolRegistry \<Rightarrow> ToolRegistryEntry \<Rightarrow> ToolInvocationRequest \<Rightarrow> UniqueId \<Rightarrow> bool"
where
  "completes reg entry request executionId =
    (re_enabled entry \<and> fst (checkPermissions reg (td_permissions (re_definition entry))) \<and>
     validationPasses (re_definition entry) request \<and>
     resolvesInTime reg entry request executionId)"

text \<open>Example tools, a request and a registry that grants \<open>FILE_READ\<close> only.\<close>

definition emptySchema :: MCPSchema where
  "emptySchema = \<lparr> sch_id = ''s'', sch_version = ''1'', sch_schema = [],
                    sch_description = '''', sch_examples = [] \<rparr>"

definition echoTool :: ToolDefinition where
  "echoTool =
    \<lparr> td_id = ''echo'', td_name = ''Echo'', td_description = ''returns its input'',
      td_category = UTILITY, td_inputSchema = emptySchema, td_outputSchema = emptySchema,
      td_permissions = [], td_hasSideEffects = False, td_idempotent = True,
      td_estimatedDurationMs = 1,
      td_execute = (\<lambda>input context.
         Settles 1 (Resolved \<lparr> tres_id = xc_executionId context, tres_toolId = ''echo'',
                                tres_success = True, tres_data = Some input,
                                tres_error = None, tres_durationMs = 1,
                                tres_completedAt = 0 \<rparr>)),
      td_validate = None, td_version = ''1.0.0'' \<rparr>"

definition writeTool :: ToolDefinition where
  "writeTool = echoTool\<lparr> td_id := ''fs.write'', td_permissions := [FILE_READ, FILE_WRITE] \<rparr>"

definition echoRequest :: "string \<Rightarrow> ToolInvocationRequest" where
  "echoRequest toolId =
    \<lparr> rq_toolId = toolId, rq_input = Opaque ''hi'', rq_context = ctx0,
      rq_timeoutMs = None, rq_skipValidation = None \<rparr>"

definition readOnlyRegistry :: ToolRegistry where
  "readOnlyRegistry =
    snd (register writeTool 2
      (snd (register echoTool 1
        (newToolRegistry (DEFAULT_REGISTRY_CONFIG\<lparr> rc_grantedPermissions := [FILE_READ] \<rparr>)))))"

text \<open>The entry that \<open>updateMetrics\<close> stores for an invocation of the given duration.\<close>

definition bumped :: "ToolRegistryEntry \<Rightarrow> int \<Rightarrow> Timestamp \<Rightarrow> ToolRegistryEntry" where
  "bumped entry durationMs now =
    entry\<lparr> re_invocationCount := re_invocationCount entry + 1,
           re_lastInvokedAt := Some now,
           re_averageDurationMs :=
             (re_averageDurationMs entry * of_nat (re_invocationCount entry) + of_int durationMs)
             / of_nat (re_invocationCount entry + 1) \<rparr>"

text \<open>A tool whose promise never settles, and a registry holding it.\<close>

definition hangingTool :: ToolDefinition where
  "hangingTool = echoTool\<lparr> td_id := ''hang'', td_execute := (\<lambda>input context. NeverSettles) \<rparr>"

definition hangingRegistry :: ToolRegistry where
  "hangingRegistry = snd (register hangingTool 1 (newToolRegistry DEFAULT_REGISTRY_CONFIG))"

section \<open>Decision Loop (src/agent/decision-loop.ts)\<close>

datatype ActionOutcome = SUCCESS | PARTIAL | FAILURE | TIMEOUT | OUTCOME_SKIPPED

record ToolInvocation =
  ti_toolId :: string
  ti_parameters :: DataRecord
  ti_rationale :: string

record AgentStep =
  as_id :: UniqueId
  as_stepNumber :: nat
  as_phase :: AgentPhase
  as_description :: string
  as_reasoning :: "string option"
  as_toolInvocation :: "ToolInvocation option"
  as_result :: "ToolResult option"
  as_outcome :: ActionOutcome
  as_durationMs :: int
  as_startedAt :: Timestamp
  as_completedAt :: Timestamp

datatype AdjustmentType = ADD_CONSTRAINT | MODIFY_PLAN | RETRY_ACTION | SKIP_ACTION

record ReflectionAdjustment =
  ra_type :: AdjustmentType
  ra_description :: string
  ra_data :: DataRecord

record ReflectionResult =
  rr_shouldContinue :: bool
  rr_isSuccess :: bool
  rr_reason :: string
  rr_adjustments :: "ReflectionAdjustment list"

text \<open>
  The two strategies are asynchronous functions supplied by the caller. The promise of a
  call either settles, by resolving with a value or by rejecting (an exception at the
  \<open>await\<close>), or stays pending for ever. The loop awaits it with no timeout
  (\<open>sessionTimeoutMs\<close> is read nowhere), so in the last case nothing after the \<open>await\<close>
  is ever run. The strategies are functions of their arguments here; the context they
  receive carries a fresh identifier after every update.
\<close>

datatype 'a Awaited = Eventually "'a Settled" | StaysPending

type_synonym Planner = "MCPContext \<Rightarrow> ExecutionPlan Awaited"
type_synonym Reflector = "MCPContext \<Rightarrow> AgentStep list \<Rightarrow> ReflectionResult Awaited"

text \<open>\<open>DecisionLoopConfig\<close>: the fields of \<open>AgentConfig\<close> and the two strategies.\<close>

record DecisionLoopConfig =
  dc_maxSteps :: int
  dc_toolTimeoutMs :: int
  dc_sessionTimeoutMs :: int
  dc_verbose :: bool
  dc_dryRun :: bool
  dc_allowedToolCategories :: "string list"
  dc_forbiddenPaths :: "string list"
  dc_planner :: Planner
  dc_reflector :: Reflector

text \<open>
  \<open>LoopResult\<close>. \<open>finalContext\<close> is \<open>this.context!\<close>: the assertion is erased at run time,
  so the field holds whatever \<open>this.context\<close> holds.
\<close>

record LoopResult =
  lr_sessionId :: UniqueId
  lr_success :: bool
  lr_steps :: "AgentStep list"
  lr_finalContext :: "MCPContext option"
  lr_duration :: int
  lr_reason :: string

datatype LoopEvent =
    LoopStart UniqueId UserIntent
  | LoopStep AgentStep
  | LoopComplete UniqueId "AgentStep list"
  | LoopFailed UniqueId string "AgentStep list"
  | LoopSuspended UniqueId
  | PlanningStart nat
  | PlanningComplete ExecutionPlan
  | ActionStart PlannedAction
  | ActionComplete PlannedAction ToolResult
  | ReflectionStart nat
  | ReflectionComplete bool string

text \<open>
  The environment of a run: what the clock returns at its successive reads and what
  \<open>uuidv4\<close> returns at its successive draws. Each call site below owns fixed indices of
  the two sequences; indices that a path does not read are skipped, which restricts
  nothing since both sequences are arbitrary.
\<close>

record Env =
  env_clock :: "nat \<Rightarrow> Timestamp"
  env_uuid :: "nat \<Rightarrow> UniqueId"

text \<open>
  The fields of \<open>DecisionLoop\<close>, followed by the trace of its \<open>emit\<close> calls and the two
  indices into the environment, which are not fields of the class. The loop runs alone:
  \<open>stop\<close> and \<open>suspend\<close> calls arriving from outside during an \<open>await\<close> are not modelled.
\<close>

record DecisionLoop =
  dl_config :: DecisionLoopConfig
  dl_toolRegistry :: ToolRegistry
  dl_contextManager :: ContextManager
  dl_lifecycle :: "LifecycleController option"
  dl_context :: "MCPContext option"
  dl_steps :: "AgentStep list"
  dl_isRunning :: bool
  dl_emitted :: "LoopEvent list"
  dl_tick :: nat
  dl_idn :: nat

text \<open>The constructor.\<close>

definition newDecisionLoop :: "DecisionLoopConfig \<Rightarrow> ToolRegistry \<Rightarrow> DecisionLoop" where
  "newDecisionLoop config toolRegistry =
    \<lparr> dl_config = config, dl_toolRegistry = toolRegistry,
      dl_contextManager = newContextManager None, dl_lifecycle = None, dl_context = None,
      dl_steps = [], dl_isRunning = False, dl_emitted = [], dl_tick = 0, dl_idn = 0 \<rparr>"

text \<open>How a call ends: normally, or with a thrown value.\<close>

datatype Completion = Normal | Abrupt Thrown

definition clockAt :: "Env \<Rightarrow> DecisionLoop \<Rightarrow> nat \<Rightarrow> Timestamp" where
  "clockAt env d k = env_clock env (dl_tick d + k)"

definition uuidAt :: "Env \<Rightarrow> DecisionLoop \<Rightarrow> nat \<Rightarrow> UniqueId" where
  "uuidAt env d k = env_uuid env (dl_idn d + k)"

definition emit :: "LoopEvent list \<Rightarrow> DecisionLoop \<Rightarrow> DecisionLoop" where
  "emit events d = d\<lparr> dl_emitted := dl_emitted d @ events \<rparr>"

text \<open>
  \<open>this.lifecycle.transition(target, reason)\<close> and \<open>this.lifecycle.fail(reason)\<close> as the
  loop calls them: three clock indices each. A phase method only calls them after its
  guard has found the lifecycle present.
\<close>

definition lifecycleTransition ::
  "Env \<Rightarrow> AgentPhase \<Rightarrow> string \<Rightarrow> DecisionLoop \<Rightarrow> Completion \<times> DecisionLoop"
where
  "lifecycleTransition env target reason d =
    (case dl_lifecycle d of
       None \<Rightarrow> (Normal, d)
     | Some lifecycle \<Rightarrow>
         (case transition target reason [] (clockAt env d 0) (clockAt env d 1) (clockAt env d 2)
                 lifecycle of
            (Returned, lifecycle') \<Rightarrow>
              (Normal, d\<lparr> dl_lifecycle := Some lifecycle', dl_tick := dl_tick d + 3 \<rparr>)
          | (Threw message, lifecycle') \<Rightarrow>
              (Abrupt (ThrownError message),
               d\<lparr> dl_lifecycle := Some lifecycle', dl_tick := dl_tick d + 3 \<rparr>)))"

definition lifecycleFail :: "Env \<Rightarrow> string \<Rightarrow> DecisionLoop \<Rightarrow> DecisionLoop" where
  "lifecycleFail env reason d =
    (case dl_lifecycle d of
       None \<Rightarrow> d
     | Some lifecycle \<Rightarrow>
         d\<lparr> dl_lifecycle :=
               Some (fail reason (clockAt env d 0) (clockAt env d 1) (clockAt env d 2) lifecycle),
            dl_tick := dl_tick d + 3 \<rparr>)"

definition lifecycleComplete ::
  "Env \<Rightarrow> string \<Rightarrow> DecisionLoop \<Rightarrow> Completion \<times> DecisionLoop"
where
  "lifecycleComplete env reason d =
    (case dl_lifecycle d of
       None \<Rightarrow> (Normal, d)
     | Some lifecycle \<Rightarrow>
         (case complete reason (clockAt env d 0) (clockAt env d 1) (clockAt env d 2) lifecycle of
            (Returned, lifecycle') \<Rightarrow>
              (Normal, d\<lparr> dl_lifecycle := Some lifecycle', dl_tick := dl_tick d + 3 \<rparr>)
          | (Threw message, lifecycle') \<Rightarrow>
              (Abrupt (ThrownError message),
               d\<lparr> dl_lifecycle := Some lifecycle', dl_tick := dl_tick d + 3 \<rparr>)))"

text \<open>\<open>createStep\<close>; \<open>completedAt\<close> is its clock read and \<open>stepId\<close> its identifier.\<close>

definition createStep ::
  "nat \<Rightarrow> AgentPhase \<Rightarrow> string \<Rightarrow> string option \<Rightarrow> ToolInvocation option \<Rightarrow>
   ToolResult option \<Rightarrow> ActionOutcome \<Rightarrow> Timestamp \<Rightarrow> Timestamp \<Rightarrow> UniqueId \<Rightarrow> AgentStep"
where
  "createStep stepNumber phase description reasoning toolInvocation result outcome startedAt
      completedAt stepId =
    \<lparr> as_id = stepId, as_stepNumber = stepNumber, as_phase = phase,
      as_description = description, as_reasoning = reasoning,
      as_toolInvocation = toolInvocation, as_result = result, as_outcome = outcome,
      as_durationMs = completedAt - startedAt, as_startedAt = startedAt,
      as_completedAt = completedAt \<rparr>"

text \<open>\<open>createResult\<close>; \<open>endTime\<close> is its clock read.\<close>

definition createResult ::
  "UniqueId \<Rightarrow> bool \<Rightarrow> string \<Rightarrow> int \<Rightarrow> int \<Rightarrow> DecisionLoop \<Rightarrow> LoopResult"
where
  "createResult sessionId success reason startTime endTime d =
    \<lparr> lr_sessionId = sessionId, lr_success = success, lr_steps = dl_steps d,
      lr_finalContext = dl_context d, lr_duration = endTime - startTime,
      lr_reason = reason \<rparr>"

text \<open>
  \<open>executePlanningPhase\<close>: clock indices 0 to 5, identifier indices 0 and 1. The result
  is \<open>None\<close> when the call never returns, which happens when the planner's promise stays
  pending.
\<close>

definition executePlanningPhase ::
  "Env \<Rightarrow> DecisionLoop \<Rightarrow> (Completion \<times> DecisionLoop) option"
where
  "executePlanningPhase env d =
    (case (dl_context d, dl_lifecycle d) of
       (Some context, Some lifecycle) \<Rightarrow>
         (let stepNumber = getStepNumber lifecycle;
              d1 = emit [PlanningStart stepNumber] d;
              stepStart = clockAt env d 0
          in case dc_planner (dl_config d) context of
               StaysPending \<Rightarrow> None
             | Eventually (Rejected error) \<Rightarrow>
                 Some (Abrupt error, d1\<lparr> dl_tick := dl_tick d + 1 \<rparr>)
             | Eventually (Resolved plan) \<Rightarrow>
                 (let (context', manager') =
                        update context (noUpdates\<lparr> uo_plan := Some (Some plan) \<rparr>)
                          (clockAt env d 1) (uuidAt env d 0) (dl_contextManager d);
                      step = createStep stepNumber PLANNING
                               (''Created plan with '' @ showNat (length (ep_actions plan))
                                @ '' actions'')
                               (Some (ep_description plan)) None None SUCCESS stepStart
                               (clockAt env d 2) (uuidAt env d 1);
                      d2 = emit [LoopStep step, PlanningComplete plan]
                             (d1\<lparr> dl_context := Some context', dl_contextManager := manager',
                                  dl_steps := dl_steps d @ [step],
                                  dl_tick := dl_tick d + 3, dl_idn := dl_idn d + 2 \<rparr>)
                  in Some (lifecycleTransition env ACTING
                             ''Plan created, beginning execution'' d2)))
     | _ \<Rightarrow> Some (Normal, d))"

text \<open>
  The result the loop synthesises when \<open>toolRegistry.invoke\<close> rejects.
\<close>

definition synthesizedFailure ::
  "UniqueId \<Rightarrow> string \<Rightarrow> Thrown \<Rightarrow> int \<Rightarrow> Timestamp \<Rightarrow> ToolResult"
where
  "synthesizedFailure resultId toolId error durationMs completedAt =
    \<lparr> tres_id = resultId, tres_toolId = toolId, tres_success = False, tres_data = None,
      tres_error = Some \<lparr> te_code = ''EXECUTION_ERROR'', te_message = thrownMessage error,
                           te_recoverable = True, te_suggestions = [], te_stack = None \<rparr>,
      tres_durationMs = durationMs, tres_completedAt = completedAt \<rparr>"

definition markAction :: "PlannedAction \<Rightarrow> ToolResult \<Rightarrow> PlannedAction \<Rightarrow> PlannedAction" where
  "markAction nextAction result a =
    (if pa_id a = pa_id nextAction
     then a\<lparr> pa_status := (if tres_success result then COMPLETED else ACTION_FAILED) \<rparr>
     else a)"

text \<open>
  \<open>executeActingPhase\<close>: clock indices 0 to 11, identifier indices 0 to 4. Index 0 is
  \<open>stepStart\<close>; 1 to 3 belong to \<open>invoke\<close>; 4 and 5 to the \<open>catch\<close> clause; 6 and 7 to the
  two context updates; 8 to \<open>createStep\<close>; 9 to 11 to the final transition.
\<close>

definition executeActingPhase :: "Env \<Rightarrow> DecisionLoop \<Rightarrow> Completion \<times> DecisionLoop" where
  "executeActingPhase env d =
    (case (dl_context d, dl_lifecycle d) of
       (Some context, Some lifecycle) \<Rightarrow>
         (case mc_activePlan context of
            None \<Rightarrow> (Normal, lifecycleFail env ''No active plan'' d)
          | Some plan \<Rightarrow>
              (case find (\<lambda>a. pa_status a = PENDING) (ep_actions plan) of
                 None \<Rightarrow> lifecycleTransition env OBSERVING ''All planned actions executed'' d
               | Some nextAction \<Rightarrow>
                   (let d1 = emit [ActionStart nextAction] d;
                        stepStart = clockAt env d 0;
                        stepNumber = getStepNumber lifecycle;
                        invocation = \<lparr> ti_toolId = pa_toolId nextAction,
                                       ti_parameters = pa_expectedParameters nextAction,
                                       ti_rationale = pa_description nextAction \<rparr>;
                        (settled, registry') =
                          invoke \<lparr> rq_toolId = pa_toolId nextAction,
                                   rq_input = Params (pa_expectedParameters nextAction),
                                   rq_context = context,
                                   rq_timeoutMs = Some (dc_toolTimeoutMs (dl_config d)),
                                   rq_skipValidation = None \<rparr>
                            (uuidAt env d 0) (clockAt env d 1) (clockAt env d 2) (clockAt env d 3)
                            (dl_toolRegistry d);
                        (result, outcome) =
                          (case settled of
                             Resolved r \<Rightarrow> (r, if tres_success r then SUCCESS else FAILURE)
                           | Rejected error \<Rightarrow>
                               (synthesizedFailure (uuidAt env d 1) (pa_toolId nextAction) error
                                  (clockAt env d 4 - stepStart) (clockAt env d 5),
                                FAILURE));
                        (context1, manager1) =
                          update context (noUpdates\<lparr> uo_addResults := Some [result] \<rparr>)
                            (clockAt env d 6) (uuidAt env d 2) (dl_contextManager d);
                        updatedActions = map (markAction nextAction result) (ep_actions plan);
                        updatedPlan = plan\<lparr> ep_actions := updatedActions,
                                             ep_currentIndex := ep_currentIndex plan + 1 \<rparr>;
                        (context2, manager2) =
                          update context1 (noUpdates\<lparr> uo_plan := Some (Some updatedPlan) \<rparr>)
                            (clockAt env d 7) (uuidAt env d 3) manager1;
                        step = createStep stepNumber ACTING
                                 (''Executed '' @ pa_toolId nextAction)
                                 (Some (pa_description nextAction)) (Some invocation)
                                 (Some result) outcome stepStart (clockAt env d 8)
                                 (uuidAt env d 4);
                        d2 = emit [LoopStep step, ActionComplete nextAction result]
                               (d1\<lparr> dl_toolRegistry := registry', dl_context := Some context2,
                                    dl_contextManager := manager2,
                                    dl_steps := dl_steps d @ [step],
                                    dl_tick := dl_tick d + 9, dl_idn := dl_idn d + 5 \<rparr>);
                        remainingActions = filter (\<lambda>a. pa_status a = PENDING) updatedActions
                    in if length remainingActions = 0 \<or> \<not> tres_success result
                       then lifecycleTransition env OBSERVING ''Proceeding to observation'' d2
                       else (Normal, d2))))
     | _ \<Rightarrow> (Normal, d))"

text \<open>\<open>executeObservingPhase\<close>: clock indices 0 to 4, identifier index 0.\<close>

definition executeObservingPhase :: "Env \<Rightarrow> DecisionLoop \<Rightarrow> Completion \<times> DecisionLoop" where
  "executeObservingPhase env d =
    (case (dl_context d, dl_lifecycle d) of
       (Some context, Some lifecycle) \<Rightarrow>
         (let stepNumber = getStepNumber lifecycle;
              stepStart = clockAt env d 0;
              recentResults = mc_recentResults context;
              successCount = length (filter tres_success recentResults);
              totalCount = length recentResults;
              step = createStep stepNumber OBSERVING
                       (''Observed '' @ showNat successCount @ ''/'' @ showNat totalCount
                        @ '' successful results'')
                       None None None SUCCESS stepStart (clockAt env d 1) (uuidAt env d 0);
              d1 = emit [LoopStep step]
                     (d\<lparr> dl_steps := dl_steps d @ [step], dl_tick := dl_tick d + 2,
                         dl_idn := dl_idn d + 1 \<rparr>)
          in lifecycleTransition env REFLECTING ''Results observed, reflecting'' d1)
     | _ \<Rightarrow> (Normal, d))"

text \<open>
  \<open>executeReflectingPhase\<close>: clock indices 0 to 4, identifier index 0. The result is
  \<open>None\<close> when the call never returns, which happens when the reflector's promise stays
  pending.
\<close>

definition executeReflectingPhase ::
  "Env \<Rightarrow> DecisionLoop \<Rightarrow> (Completion \<times> DecisionLoop) option"
where
  "executeReflectingPhase env d =
    (case (dl_context d, dl_lifecycle d) of
       (Some context, Some lifecycle) \<Rightarrow>
         (let stepNumber = getStepNumber lifecycle;
              d1 = emit [ReflectionStart stepNumber] d;
              stepStart = clockAt env d 0
          in case dc_reflector (dl_config d) context (dl_steps d) of
               StaysPending \<Rightarrow> None
             | Eventually (Rejected error) \<Rightarrow>
                 Some (Abrupt error, d1\<lparr> dl_tick := dl_tick d + 1 \<rparr>)
             | Eventually (Resolved reflection) \<Rightarrow>
                 (let step = createStep stepNumber REFLECTING (rr_reason reflection)
                               (Some (if rr_shouldContinue reflection
                                      then ''Continuing execution'' else ''Terminating''))
                               None None SUCCESS stepStart (clockAt env d 1) (uuidAt env d 0);
                      d2 = emit [ReflectionComplete (rr_shouldContinue reflection)
                                   (rr_reason reflection),
                                 LoopStep step]
                             (d1\<lparr> dl_steps := dl_steps d @ [step],
                                  dl_tick := dl_tick d + 2, dl_idn := dl_idn d + 1 \<rparr>)
                  in if \<not> rr_shouldContinue reflection then
                       (if rr_isSuccess reflection
                        then Some (lifecycleComplete env (rr_reason reflection) d2)
                        else Some (Normal, lifecycleFail env (rr_reason reflection) d2))
                     else Some (lifecycleTransition env PLANNING
                                  ''Continuing with next iteration'' d2)))
     | _ \<Rightarrow> Some (Normal, d))"

text \<open>
  How the \<open>while\<close> loop of \<open>run\<close> is left: by its condition or a \<open>break\<close>, by the
  \<open>return\<close> of the SUSPENDED case, or by an exception.
\<close>

datatype LoopExit = Finished | ReturnedSuspended | Raised Thrown

text \<open>
  A method call on \<open>this.lifecycle\<close> when it is null throws a \<open>TypeError\<close>. (Inside \<open>run\<close>
  the field has been assigned before the loop and nothing resets it.)
\<close>

definition nullLifecycle :: Thrown where
  "nullLifecycle = ThrownError ''Cannot read properties of null''"

text \<open>
  The \<open>while\<close> loop of \<open>run\<close>. It need not return: a phase the \<open>switch\<close> has no case for
  takes the \<open>default\<close> branch and the loop goes round again with nothing changed, and a
  phase method that awaits a promise which stays pending never returns. The function is
  partial, and \<open>None\<close> stands for a loop that never returns.
\<close>

partial_function (option) mainLoop ::
  "Env \<Rightarrow> UniqueId \<Rightarrow> DecisionLoop \<Rightarrow> (LoopExit \<times> DecisionLoop) option"
where
  "mainLoop env sessionId d =
    (if \<not> dl_isRunning d then Some (Finished, d)
     else case dl_lifecycle d of
       None \<Rightarrow> Some (Raised nullLifecycle, d)
     | Some lifecycle \<Rightarrow>
         if isTerminal lifecycle then Some (Finished, d)
         else if int (getStepNumber lifecycle) \<ge> dc_maxSteps (dl_config d) then
           Some (Finished,
                 lifecycleFail env
                   (''Exceeded maximum steps ('' @ showInt (dc_maxSteps (dl_config d)) @ '')'') d)
         else
           (case getCurrentPhase lifecycle of
              PLANNING \<Rightarrow>
                (case executePlanningPhase env d of
                   None \<Rightarrow> None
                 | Some (Normal, d') \<Rightarrow> mainLoop env sessionId d'
                 | Some (Abrupt error, d') \<Rightarrow> Some (Raised error, d'))
            | ACTING \<Rightarrow>
                (case executeActingPhase env d of
                   (Normal, d') \<Rightarrow> mainLoop env sessionId d'
                 | (Abrupt error, d') \<Rightarrow> Some (Raised error, d'))
            | OBSERVING \<Rightarrow>
                (case executeObservingPhase env d of
                   (Normal, d') \<Rightarrow> mainLoop env sessionId d'
                 | (Abrupt error, d') \<Rightarrow> Some (Raised error, d'))
            | REFLECTING \<Rightarrow>
                (case executeReflectingPhase env d of
                   None \<Rightarrow> None
                 | Some (Normal, d') \<Rightarrow> mainLoop env sessionId d'
                 | Some (Abrupt error, d') \<Rightarrow> Some (Raised error, d'))
            | SUSPENDED \<Rightarrow> Some (ReturnedSuspended, emit [LoopSuspended sessionId] d)
            | _ \<Rightarrow> mainLoop env sessionId d))"

declare mainLoop.simps [code]

text \<open>
  The state in which \<open>run\<close> enters its \<open>try\<close> block: clock indices 0 to 3 (\<open>startTime\<close>,
  the two reads of the lifecycle constructor, the read of \<open>create\<close>) and identifier
  indices 0 and 1 (session, context).
\<close>

definition runInit :: "Env \<Rightarrow> UserIntent \<Rightarrow> WorkspaceMetadata \<Rightarrow> DecisionLoop \<Rightarrow> DecisionLoop" where
  "runInit env intent workspace d =
    (let sessionId = uuidAt env d 0;
         lifecycle = newLifecycle sessionId (clockAt env d 1) (clockAt env d 2);
         (context, manager') =
           createContext \<lparr> co_sessionId = sessionId, co_intent = intent,
                           co_workspace = workspace, co_memoryRefs = None,
                           co_constraints = None \<rparr>
             (clockAt env d 3) (uuidAt env d 1) (dl_contextManager d)
     in emit [LoopStart sessionId intent]
          (d\<lparr> dl_lifecycle := Some lifecycle, dl_steps := [], dl_isRunning := True,
              dl_context := Some context, dl_contextManager := manager',
              dl_tick := dl_tick d + 4, dl_idn := dl_idn d + 2 \<rparr>))"

text \<open>
  \<open>run(intent, workspace)\<close>: the result and the loop object afterwards. The \<open>finally\<close>
  clause clears \<open>isRunning\<close> on every path; \<open>createResult\<close> reads the clock once more.
\<close>

definition run ::
  "Env \<Rightarrow> UserIntent \<Rightarrow> WorkspaceMetadata \<Rightarrow> DecisionLoop \<Rightarrow> (LoopResult \<times> DecisionLoop) option"
where
  "run env intent workspace d0 =
    (let startTime = clockAt env d0 0;
         sessionId = uuidAt env d0 0;
         d1 = runInit env intent workspace d0;
         catch = (\<lambda>error d.
           let reason = thrownMessage error;
               d' = emit [LoopFailed sessionId reason (dl_steps d)] (lifecycleFail env reason d)
           in Some (createResult sessionId False reason startTime (clockAt env d' 0) d',
                    d'\<lparr> dl_isRunning := False, dl_tick := dl_tick d' + 1 \<rparr>))
     in case lifecycleTransition env PLANNING ''Beginning task execution'' d1 of
          (Abrupt error, d2) \<Rightarrow> catch error d2
        | (Normal, d2) \<Rightarrow>
            (case mainLoop env sessionId d2 of
               None \<Rightarrow> None
             | Some (Raised error, d3) \<Rightarrow> catch error d3
             | Some (ReturnedSuspended, d3) \<Rightarrow>
                 Some (createResult sessionId False ''Suspended'' startTime (clockAt env d3 0) d3,
                       d3\<lparr> dl_isRunning := False, dl_tick := dl_tick d3 + 1 \<rparr>)
             | Some (Finished, d3) \<Rightarrow>
                 (case dl_lifecycle d3 of
                    None \<Rightarrow> catch nullLifecycle d3
                  | Some lifecycle \<Rightarrow>
                      (let success = (getCurrentPhase lifecycle = COMPLETE);
                           reason = (if success then ''Task completed successfully''
                                     else ''Task failed'');
                           d4 = (if success
                                 then emit [LoopComplete sessionId (dl_steps d3)] d3
                                 else emit [LoopFailed sessionId reason (dl_steps d3)] d3)
                       in Some (createResult sessionId success reason startTime
                                  (clockAt env d4 0) d4,
                                d4\<lparr> dl_isRunning := False, dl_tick := dl_tick d4 + 1 \<rparr>)))))"

text \<open>\<open>stop(reason)\<close> and \<open>suspend(reason)\<close> of the loop object.\<close>

definition stop :: "Env \<Rightarrow> string \<Rightarrow> DecisionLoop \<Rightarrow> DecisionLoop" where
  "stop env reason d =
    (if dl_isRunning d \<and> dl_lifecycle d \<noteq> None
     then lifecycleFail env reason (d\<lparr> dl_isRunning := False \<rparr>)
     else d)"

definition suspendLoop :: "Env \<Rightarrow> string \<Rightarrow> DecisionLoop \<Rightarrow> Completion \<times> DecisionLoop" where
  "suspendLoop env reason d =
    (if dl_isRunning d then
       (case dl_lifecycle d of
          None \<Rightarrow> (Normal, d)
        | Some lifecycle \<Rightarrow>
            (case suspend reason (clockAt env d 0) (clockAt env d 1) (clockAt env d 2) lifecycle of
               (Returned, lifecycle') \<Rightarrow>
                 (Normal, d\<lparr> dl_lifecycle := Some lifecycle', dl_tick := dl_tick d + 3 \<rparr>)
             | (Threw message, lifecycle') \<Rightarrow>
                 (Abrupt (ThrownError message),
                  d\<lparr> dl_lifecycle := Some lifecycle', dl_tick := dl_tick d + 3 \<rparr>)))
     else (Normal, d))"

text \<open>The context that \<open>run\<close> creates, which is the one the planner is first called with.\<close>

definition initialContext ::
  "Env \<Rightarrow> UserIntent \<Rightarrow> WorkspaceMetadata \<Rightarrow> DecisionLoop \<Rightarrow> MCPContext"
where
  "initialContext env intent workspace d =
    fst (createContext \<lparr> co_sessionId = uuidAt env d 0, co_intent = intent,
                          co_workspace = workspace, co_memoryRefs = None,
                          co_constraints = None \<rparr>
           (clockAt env d 3) (uuidAt env d 1) (dl_contextManager d))"

text \<open>
  Auxiliary notions for the loop: the number of pending actions of a plan, and the loop
  object being in a given phase at a given step number while running.
\<close>

definition pendingCount :: "ExecutionPlan \<Rightarrow> nat" where
  "pendingCount plan = length (filter (\<lambda>a. pa_status a = PENDING) (ep_actions plan))"

definition atPhase :: "DecisionLoop \<Rightarrow> AgentPhase \<Rightarrow> nat \<Rightarrow> bool" where
  "atPhase d phase n =
    (dl_isRunning d \<and>
     (case dl_lifecycle d of
        None \<Rightarrow> False
      | Some lifecycle \<Rightarrow> lc_currentPhase lifecycle = phase \<and> lc_stepNumber lifecycle = n))"

definition failedWith :: "DecisionLoop \<Rightarrow> string \<Rightarrow> bool" where
  "failedWith d reason =
    (case dl_lifecycle d of
       None \<Rightarrow> False
     | Some lifecycle \<Rightarrow>
         getCurrentPhase lifecycle = FAILED \<and> isTerminal lifecycle \<and>
         map_option phe_reason (lc_currentPhaseEntry lifecycle) = Some reason)"

text \<open>
  A concrete scenario: the clock counts its reads, identifiers are numbered, the planner
  always proposes one \<open>echo\<close> action, the reflector always asks to continue, and the step
  limit is 3.
\<close>

definition env0 :: Env where
  "env0 = \<lparr> env_clock = (\<lambda>k. int k), env_uuid = (\<lambda>k. ''id-'' @ showNat k) \<rparr>"

definition echoAction :: PlannedAction where
  "echoAction =
    \<lparr> pa_id = ''a1'', pa_index = 0, pa_toolId = ''echo'', pa_description = ''say hi'',
      pa_expectedParameters = [(''text'', ''hi'')], pa_dependsOn = [], pa_priority = NORMAL,
      pa_status = PENDING \<rparr>"

definition echoPlan :: ExecutionPlan where
  "echoPlan =
    \<lparr> ep_id = ''plan'', ep_description = ''Execute echo'', ep_actions = [echoAction],
      ep_currentIndex = 0, ep_confidence = 4 / 5, ep_createdAt = 0, ep_revision = 0 \<rparr>"

definition echoPlanner :: Planner where
  "echoPlanner = (\<lambda>context. Eventually (Resolved echoPlan))"

definition alwaysContinue :: Reflector where
  "alwaysContinue = (\<lambda>context steps.
     Eventually (Resolved
       \<lparr> rr_shouldContinue = True, rr_isSuccess = False,
         rr_reason = ''Continuing to next iteration'', rr_adjustments = [] \<rparr>))"

definition config3 :: DecisionLoopConfig where
  "config3 =
    \<lparr> dc_maxSteps = 3, dc_toolTimeoutMs = 30000, dc_sessionTimeoutMs = 300000,
      dc_verbose = False, dc_dryRun = False, dc_allowedToolCategories = [],
      dc_forbiddenPaths = [], dc_planner = echoPlanner, dc_reflector = alwaysContinue \<rparr>"

definition loop3 :: DecisionLoop where
  "loop3 = newDecisionLoop config3 readOnlyRegistry"

section \<open>Lifecycle Controller: properties\<close>

subsection \<open>The transition table\<close>

lemma canTransition_spec: "canTransition c t \<longleftrightarrow> t \<in> specAllowed (lc_currentPhase c)"
  by (cases "lc_currentPhase c"; cases t; simp add: canTransition_def VALID_TRANSITIONS_def)

lemma isTerminal_iff:
  "isTerminal c \<longleftrightarrow> lc_currentPhase c = COMPLETE \<or> lc_currentPhase c = FAILED"
  by (simp add: isTerminal_def TERMINAL_PHASES_def)

lemma canTransition_not_terminal: "canTransition c t \<Longrightarrow> \<not> isTerminal c"
  by (cases "lc_currentPhase c"; simp add: canTransition_spec isTerminal_iff)

lemma exitPhase_phase [simp]: "lc_currentPhase (exitPhase now c) = lc_currentPhase c"
  by (simp add: exitPhase_def split: option.splits)

lemma enterPhase_phase [simp]: "lc_currentPhase (enterPhase p r d now c) = lc_currentPhase c"
  by (simp add: enterPhase_def)

text \<open>
  Claim C1. In every controller state and for every target phase, \<open>canTransition\<close> answers
  exactly as the table of section 4.1 does. When the target is allowed, \<open>transition\<close>
  returns normally and the controller is in the target phase, with the old phase as
  previous phase. When the target is not allowed and the current phase is not terminal,
  \<open>transition\<close> throws the message of the \<open>INVALID_TRANSITION\<close> error it emits, and the
  current phase (indeed every field but the event trace) is as before.
\<close>

theorem C1_transition_table:
  "(canTransition c t \<longleftrightarrow> t \<in> specAllowed (lc_currentPhase c)) \<and>
   (t \<in> specAllowed (lc_currentPhase c) \<longrightarrow>
      fst (transition t reason dat ta tb tc c) = Returned \<and>
      lc_currentPhase (snd (transition t reason dat ta tb tc c)) = t \<and>
      lc_previousPhase (snd (transition t reason dat ta tb tc c)) = Some (lc_currentPhase c)) \<and>
   (t \<notin> specAllowed (lc_currentPhase c) \<and> \<not> isTerminal c \<longrightarrow>
      transition t reason dat ta tb tc c =
        (Threw (le_message (invalidTransitionError c t)),
         c\<lparr> lc_emitted := lc_emitted c @ [ErrorEvent (invalidTransitionError c t)] \<rparr>) \<and>
      le_code (invalidTransitionError c t) = ''INVALID_TRANSITION'' \<and>
      lc_currentPhase (snd (transition t reason dat ta tb tc c)) = lc_currentPhase c)"
proof (intro conjI impI)
  show "canTransition c t \<longleftrightarrow> t \<in> specAllowed (lc_currentPhase c)"
    by (rule canTransition_spec)
next
  assume a: "t \<in> specAllowed (lc_currentPhase c)"
  then have ct: "canTransition c t" by (simp add: canTransition_spec)
  then have nt: "\<not> isTerminal c" by (rule canTransition_not_terminal)
  from ct nt show "fst (transition t reason dat ta tb tc c) = Returned"
    by (simp add: transition_def Let_def)
  from ct nt show "lc_currentPhase (snd (transition t reason dat ta tb tc c)) = t"
    by (simp add: transition_def Let_def)
  from ct nt
  show "lc_previousPhase (snd (transition t reason dat ta tb tc c)) = Some (lc_currentPhase c)"
    by (simp add: transition_def Let_def enterPhase_def)
next
  assume a: "t \<notin> specAllowed (lc_currentPhase c) \<and> \<not> isTerminal c"
  then have ct: "\<not> canTransition c t" and nt: "\<not> isTerminal c"
    by (simp_all add: canTransition_spec)
  from ct nt show "transition t reason dat ta tb tc c =
        (Threw (le_message (invalidTransitionError c t)),
         c\<lparr> lc_emitted := lc_emitted c @ [ErrorEvent (invalidTransitionError c t)] \<rparr>)"
    by (simp add: transition_def Let_def)
  show "le_code (invalidTransitionError c t) = ''INVALID_TRANSITION''"
    by (simp add: invalidTransitionError_def)
  from ct nt
  show "lc_currentPhase (snd (transition t reason dat ta tb tc c)) = lc_currentPhase c"
    by (simp add: transition_def Let_def)
qed

theorem C1_transition_table_witness:
  "canTransition (newLifecycle ''s'' 0 0) PLANNING \<and>
   fst (transition PLANNING ''go'' [] 1 2 3 (newLifecycle ''s'' 0 0)) = Returned \<and>
   lc_currentPhase (snd (transition PLANNING ''go'' [] 1 2 3 (newLifecycle ''s'' 0 0)))
     = PLANNING \<and>
   \<not> canTransition (newLifecycle ''s'' 0 0) ACTING \<and>
   \<not> isTerminal (newLifecycle ''s'' 0 0) \<and>
   fst (transition ACTING ''go'' [] 1 2 3 (newLifecycle ''s'' 0 0)) =
     Threw (''Invalid transition: '' @ [CHR 0x27] @ ''IDLE'' @ [CHR 0x27] @ '' '' @ rightArrow
            @ '' '' @ [CHR 0x27] @ ''ACTING'' @ [CHR 0x27]) \<and>
   lc_currentPhase (snd (transition ACTING ''go'' [] 1 2 3 (newLifecycle ''s'' 0 0))) = IDLE"
  using C1_transition_table [of "newLifecycle ''s'' 0 0" PLANNING "''go''" "[]" 1 2 3]
        C1_transition_table [of "newLifecycle ''s'' 0 0" ACTING "''go''" "[]" 1 2 3]
  by (simp add: newLifecycle_def enterPhase_def isTerminal_iff invalidTransitionError_def)

subsection \<open>Terminal phases\<close>

text \<open>
  Claim C2. When the current phase is COMPLETE or FAILED, \<open>transition\<close> to any target
  throws the message of the \<open>TERMINAL_STATE\<close> error it emits and changes nothing but the
  event trace (so the phase stays terminal and the property holds again for the next
  call), and \<open>fail\<close> returns the controller exactly as it was: no field changes, no
  history entry is added and nothing is emitted.
\<close>

theorem C2_terminal_absorbing:
  "lc_currentPhase c = COMPLETE \<or> lc_currentPhase c = FAILED \<Longrightarrow>
   transition t reason dat ta tb tc c =
     (Threw (le_message (terminalStateError c t)),
      c\<lparr> lc_emitted := lc_emitted c @ [ErrorEvent (terminalStateError c t)] \<rparr>) \<and>
   le_code (terminalStateError c t) = ''TERMINAL_STATE'' \<and>
   lc_currentPhase (snd (transition t reason dat ta tb tc c)) = lc_currentPhase c \<and>
   lc_phaseHistory (snd (transition t reason dat ta tb tc c)) = lc_phaseHistory c \<and>
   fail reason' ta' tb' tc' c = c"
  by (simp add: transition_def fail_def isTerminal_iff Let_def terminalStateError_def)

lemma failed0_phase: "lc_currentPhase (fail ''boom'' 1 2 3 (newLifecycle ''s'' 0 0)) = FAILED"
  by (simp add: fail_def newLifecycle_def isTerminal_iff Let_def)

theorem C2_terminal_absorbing_witness:
  "lc_currentPhase (fail ''boom'' 1 2 3 (newLifecycle ''s'' 0 0)) = FAILED \<and>
   fst (transition PLANNING ''again'' [] 4 5 6 (fail ''boom'' 1 2 3 (newLifecycle ''s'' 0 0))) =
     Threw (''Cannot transition from terminal state '' @ [CHR 0x27] @ ''FAILED'' @ [CHR 0x27]) \<and>
   lc_currentPhase
     (snd (transition PLANNING ''again'' [] 4 5 6 (fail ''boom'' 1 2 3 (newLifecycle ''s'' 0 0))))
     = FAILED \<and>
   fail ''twice'' 7 8 9 (fail ''boom'' 1 2 3 (newLifecycle ''s'' 0 0)) =
     fail ''boom'' 1 2 3 (newLifecycle ''s'' 0 0)"
  using C2_terminal_absorbing
          [of "fail ''boom'' 1 2 3 (newLifecycle ''s'' 0 0)" PLANNING "''again''" "[]" 4 5 6
              "''twice''" 7 8 9]
  by (simp add: failed0_phase terminalStateError_def)

subsection \<open>Suspension\<close>

lemma suspended0_phase: "lc_currentPhase suspended0 = SUSPENDED"
  by (simp add: suspended0_def suspend_def transition_def canTransition_spec isTerminal_iff
        newLifecycle_def Let_def)

text \<open>
  What \<open>suspend\<close> does in each phase: it returns normally from IDLE, PLANNING, ACTING,
  OBSERVING and REFLECTING, leaving the controller in SUSPENDED with the old phase as
  previous phase and the step counter as it was; from SUSPENDED, COMPLETE and FAILED it
  throws \<open>Cannot suspend from phase '...'\<close> and the controller is unchanged.
\<close>

lemma suspend_by_phase:
  "(lc_currentPhase c \<in> {IDLE, PLANNING, ACTING, OBSERVING, REFLECTING} \<longrightarrow>
      fst (suspend reason ta tb tc c) = Returned \<and>
      lc_currentPhase (snd (suspend reason ta tb tc c)) = SUSPENDED \<and>
      lc_previousPhase (snd (suspend reason ta tb tc c)) = Some (lc_currentPhase c) \<and>
      lc_stepNumber (snd (suspend reason ta tb tc c)) = lc_stepNumber c) \<and>
   (lc_currentPhase c \<in> {SUSPENDED, COMPLETE, FAILED} \<longrightarrow>
      suspend reason ta tb tc c =
        (Threw (''Cannot suspend from phase '' @ [CHR 0x27] @ phaseName (lc_currentPhase c)
                @ [CHR 0x27]), c))"
proof (intro conjI impI)
  assume a: "lc_currentPhase c \<in> {IDLE, PLANNING, ACTING, OBSERVING, REFLECTING}"
  then have ct: "canTransition c SUSPENDED" by (auto simp: canTransition_spec)
  then have nt: "\<not> isTerminal c" by (rule canTransition_not_terminal)
  from ct nt show "fst (suspend reason ta tb tc c) = Returned"
    by (simp add: suspend_def transition_def Let_def)
  from ct nt show "lc_currentPhase (snd (suspend reason ta tb tc c)) = SUSPENDED"
    by (simp add: suspend_def transition_def Let_def)
  from ct nt
  show "lc_previousPhase (snd (suspend reason ta tb tc c)) = Some (lc_currentPhase c)"
    by (simp add: suspend_def transition_def Let_def enterPhase_def)
  from ct nt show "lc_stepNumber (snd (suspend reason ta tb tc c)) = lc_stepNumber c"
    by (simp add: suspend_def transition_def Let_def enterPhase_def exitPhase_def
          split: option.splits)
next
  assume "lc_currentPhase c \<in> {SUSPENDED, COMPLETE, FAILED}"
  then have "\<not> canTransition c SUSPENDED" by (auto simp: canTransition_spec)
  then show "suspend reason ta tb tc c =
        (Threw (''Cannot suspend from phase '' @ [CHR 0x27] @ phaseName (lc_currentPhase c)
                @ [CHR 0x27]), c)"
    by (simp add: suspend_def)
qed

text \<open>
  The sibling method \<open>fail\<close>, documented like \<open>suspend\<close> as valid from any non-terminal
  phase, does accept a suspended controller.
\<close>

lemma fail_from_suspended:
  "lc_currentPhase (fail ''boom'' 4 5 6 suspended0) = FAILED"
  by (simp add: fail_def isTerminal_iff suspended0_phase Let_def enterPhase_def)

text \<open>
  Claim C6. The claim makes \<open>suspend\<close> succeed from SUSPENDED, as the method's own
  documentation does (\<open>Suspends the agent. Valid from any non-terminal phase.\<close>, and the
  header of the file: \<open>Any state can transition to SUSPENDED\<close>). The code does not: a
  controller that has been suspended is in SUSPENDED, which is not a terminal phase, and a
  second \<open>suspend\<close> throws \<open>Cannot suspend from phase 'SUSPENDED'\<close> and leaves the
  controller as it was, because the guard \<open>canTransition(SUSPENDED)\<close> consults a table
  whose row for SUSPENDED lists PLANNING and FAILED only.
\<close>

theorem C6_resuspend_throws:
  "lc_currentPhase suspended0 = SUSPENDED \<and>
   \<not> isTerminal suspended0 \<and>
   suspend ''again'' 4 5 6 suspended0 =
     (Threw (''Cannot suspend from phase '' @ [CHR 0x27] @ ''SUSPENDED'' @ [CHR 0x27]),
      suspended0)"
  by (simp add: suspended0_phase suspend_def canTransition_spec isTerminal_iff)

subsection \<open>The phase history\<close>

lemma historyClosed_new: "historyClosed (newLifecycle sid t0 t1)"
  by (simp add: historyClosed_def newLifecycle_def enterPhase_def)

lemma historyClosed_transition:
  "historyClosed c \<Longrightarrow> historyClosed (snd (transition tp reason dat ta tb tc c))"
  by (auto simp: historyClosed_def transition_def Let_def enterPhase_def exitPhase_def
           split: option.splits)

lemma historyClosed_fail:
  "historyClosed c \<Longrightarrow> historyClosed (fail reason ta tb tc c)"
  by (auto simp: historyClosed_def fail_def Let_def enterPhase_def exitPhase_def
           split: option.splits)

lemma historyClosed_reachable: "reachable c \<Longrightarrow> historyClosed c"
proof (induction rule: reachable.induct)
  case (r_new sid t0 t1)
  show ?case by (rule historyClosed_new)
next
  case (r_transition c tp reason dat ta tb tc)
  then show ?case by (simp add: historyClosed_transition)
next
  case (r_fail c reason ta tb tc)
  then show ?case by (simp add: historyClosed_fail)
next
  case (r_complete c reason ta tb tc)
  then show ?case by (simp add: complete_def historyClosed_transition)
next
  case (r_suspend c reason ta tb tc)
  then show ?case by (simp add: suspend_def historyClosed_transition)
next
  case (r_resume c reason ta tb tc)
  then show ?case by (simp add: resume_def historyClosed_transition)
qed

text \<open>
  Claim C10. Right after construction the history returned by \<open>getState\<close> is empty
  although the current phase is IDLE. In every reachable controller state, every entry of
  that history has an exit time, and the entry of the phase that is currently open is
  held in \<open>currentPhaseEntry\<close>, has no exit time and is not in the history.
\<close>

theorem C10_history_only_exited:
  "st_phaseHistory (getState (newLifecycle sid t0 t1)) = [] \<and>
   st_currentPhase (getState (newLifecycle sid t0 t1)) = IDLE \<and>
   (reachable c \<longrightarrow>
      (\<forall>e \<in> set (st_phaseHistory (getState c)). phe_exitedAt e \<noteq> None) \<and>
      (\<exists>cur. lc_currentPhaseEntry c = Some cur \<and> phe_exitedAt cur = None \<and>
             phe_phase cur = st_currentPhase (getState c) \<and>
             cur \<notin> set (st_phaseHistory (getState c))))"
proof (intro conjI impI)
  show "st_phaseHistory (getState (newLifecycle sid t0 t1)) = []"
    by (simp add: getState_def newLifecycle_def enterPhase_def)
  show "st_currentPhase (getState (newLifecycle sid t0 t1)) = IDLE"
    by (simp add: getState_def newLifecycle_def enterPhase_def)
next
  assume "reachable c"
  then have h: "historyClosed c" by (rule historyClosed_reachable)
  then show "\<forall>e \<in> set (st_phaseHistory (getState c)). phe_exitedAt e \<noteq> None"
    by (simp add: historyClosed_def getState_def)
  from h obtain cur where cur: "lc_currentPhaseEntry c = Some cur" "phe_exitedAt cur = None"
      "phe_phase cur = lc_currentPhase c"
    by (auto simp: historyClosed_def split: option.splits)
  from h cur have "cur \<notin> set (lc_phaseHistory c)"
    by (auto simp: historyClosed_def)
  with cur show "\<exists>cur. lc_currentPhaseEntry c = Some cur \<and> phe_exitedAt cur = None \<and>
             phe_phase cur = st_currentPhase (getState c) \<and>
             cur \<notin> set (st_phaseHistory (getState c))"
    by (simp add: getState_def)
qed

lemma planning0_reachable: "reachable planning0"
  unfolding planning0_def by (rule r_transition, rule r_new)

lemma planning0_history:
  "lc_phaseHistory planning0 =
     [\<lparr> phe_phase = IDLE, phe_stepNumber = 0, phe_enteredAt = 0, phe_exitedAt = Some 1,
        phe_reason = ''Session initialized'' \<rparr>]"
  by (simp add: planning0_def transition_def canTransition_spec isTerminal_iff newLifecycle_def
        enterPhase_def exitPhase_def Let_def)

theorem C10_history_only_exited_witness:
  "reachable planning0 \<and>
   st_phaseHistory (getState planning0) =
     [\<lparr> phe_phase = IDLE, phe_stepNumber = 0, phe_enteredAt = 0, phe_exitedAt = Some 1,
        phe_reason = ''Session initialized'' \<rparr>] \<and>
   map phe_exitedAt (st_phaseHistory (getState planning0)) = [Some 1]"
  using C10_history_only_exited [of "''s''" 0 0 planning0] planning0_reachable
  by (simp add: getState_def planning0_history)

section \<open>Context Manager: properties\<close>

subsection \<open>JavaScript maps\<close>

lemma mapSet_keys_present:
  "k \<in> fst ` set m \<Longrightarrow> map fst (mapSet k v m) = map fst m"
proof (induction m)
  case Nil
  then show ?case by simp
next
  case (Cons x m)
  show ?case
  proof (cases "fst x = k")
    case True
    then show ?thesis by (cases x) simp
  next
    case False
    with Cons.prems have "k \<in> fst ` set m" by auto
    with Cons.IH False show ?thesis by (cases x) simp
  qed
qed

lemma mapSet_keys_absent:
  "k \<notin> fst ` set m \<Longrightarrow> map fst (mapSet k v m) = map fst m @ [k]"
  by (induction m) auto

lemma mapSet_distinct: "distinct (map fst m) \<Longrightarrow> distinct (map fst (mapSet k v m))"
  by (cases "k \<in> fst ` set m") (simp_all add: mapSet_keys_present mapSet_keys_absent)

lemma mapSet_map_of: "map_of (mapSet k v m) = (map_of m)(k \<mapsto> v)"
  by (induction m) auto

lemma mapSet_absent: "k \<notin> fst ` set m \<Longrightarrow> mapSet k v m = m @ [(k, v)]"
  by (induction m) auto

lemma set_mapSet: "set (mapSet k v m) \<subseteq> insert (k, v) (set m)"
  by (induction m) (auto split: if_splits)

lemma mapGet_mapSet: "mapGet (mapSet k v m) k' = (if k' = k then Some v else mapGet m k')"
  by (simp add: mapGet_def mapSet_map_of)

lemma assoc_eqI:
  "distinct (map fst xs) \<Longrightarrow> map fst xs = map fst ys \<Longrightarrow> map_of xs = map_of ys \<Longrightarrow> xs = ys"
proof (induction xs arbitrary: ys)
  case Nil
  then show ?case by simp
next
  case (Cons x xs)
  then obtain y ys' where ys: "ys = y # ys'" by (cases ys) auto
  with Cons.prems have fx: "fst x = fst y" and ks: "map fst xs = map fst ys'" by auto
  have e: "map_of (x # xs) k = map_of (y # ys') k" for k
    using Cons.prems(3) ys by (simp only:)
  have "map_of (x # xs) (fst x) = Some (snd x)" by (cases x) simp
  moreover have "map_of (y # ys') (fst x) = Some (snd y)" using fx by (cases y) simp
  ultimately have sx: "snd x = snd y" using e[of "fst x"] by simp
  from fx sx have xy: "x = y" by (simp add: prod_eq_iff)
  have nx: "fst x \<notin> fst ` set xs" using Cons.prems(1) by auto
  then have ny: "fst x \<notin> fst ` set ys'" using ks by (metis set_map)
  have "map_of xs = map_of ys'"
  proof
    fix k
    show "map_of xs k = map_of ys' k"
    proof (cases "k = fst x")
      case True
      have "map_of xs (fst x) = None" using nx by (simp add: map_of_eq_None_iff)
      moreover have "map_of ys' (fst x) = None" using ny by (simp add: map_of_eq_None_iff)
      ultimately show ?thesis using True by simp
    next
      case False
      with e[of k] xy show ?thesis by (cases x) (simp split: if_splits)
    qed
  qed
  with Cons.IH[of ys'] Cons.prems(1) ks have "xs = ys'" by simp
  with xy ys show ?case by simp
qed

subsection \<open>Recent results\<close>

lemma jsSliceFrom_neg:
  assumes "0 < n"
  shows "jsSliceFrom (- n) xs = drop (length xs - nat n) xs"
proof (cases "n < int (length xs)")
  case True
  then have "nat (int (length xs) - n) = length xs - nat n"
    using assms by (simp add: nat_diff_distrib')
  with True assms show ?thesis by (simp add: jsSliceFrom_def Let_def)
next
  case False
  then have "length xs - nat n = 0" using assms by simp
  with False assms show ?thesis by (simp add: jsSliceFrom_def Let_def)
qed

lemma mergeResults_positive:
  assumes "0 < cm_maxRecentResults m"
  shows "mergeResults m existing additions =
           drop (length (existing @ additions) - nat (cm_maxRecentResults m)) (existing @ additions)"
proof -
  define combined where "combined = existing @ additions"
  have "mergeResults m existing additions =
          (if int (length combined) > cm_maxRecentResults m
           then jsSliceFrom (- cm_maxRecentResults m) combined else combined)"
    by (simp add: mergeResults_def Let_def combined_def)
  also have "\<dots> = drop (length combined - nat (cm_maxRecentResults m)) combined"
    using assms by (simp add: jsSliceFrom_neg)
  finally show ?thesis by (simp only: combined_def)
qed

lemma mergeResults_bounded:
  assumes "0 < cm_maxRecentResults m"
  shows "int (length (mergeResults m existing additions)) \<le> cm_maxRecentResults m"
proof -
  have "length (mergeResults m existing additions) \<le> nat (cm_maxRecentResults m)"
    unfolding mergeResults_positive[OF assms] by (simp del: drop_append)
  then show ?thesis using assms by linarith
qed

lemma update_recentResults:
  "mc_recentResults (fst (update c u now nid m)) =
     mergeResults m (mc_recentResults c) (orElse (uo_addResults u) [])"
  by (simp add: update_def Let_def)

text \<open>
  With a positive limit the recent results of the updated context are the last
  \<open>maxRecentResults\<close> elements of the old results followed by the added ones.
\<close>

lemma update_results_bounded:
  assumes "0 < cm_maxRecentResults m"
  shows "mc_recentResults (fst (update c (u\<lparr> uo_addResults := Some rs \<rparr>) now nid m)) =
     drop (length (mc_recentResults c @ rs) - nat (cm_maxRecentResults m)) (mc_recentResults c @ rs) \<and>
   int (length (mc_recentResults (fst (update c (u\<lparr> uo_addResults := Some rs \<rparr>) now nid m))))
     \<le> cm_maxRecentResults m"
  using mergeResults_positive[OF assms, of "mc_recentResults c" rs]
        mergeResults_bounded[OF assms, of "mc_recentResults c" rs]
  by (simp only: update_recentResults orElse_def, simp del: drop_append)

text \<open>
  Claim C8 does not hold for a manager constructed with \<open>maxRecentResults = 0\<close>:
  \<open>combined.slice(-0)\<close> is \<open>combined.slice(0)\<close>, the whole array, so nothing is evicted.
  Here the limit is 0, the context holds no result, one result is added, and the updated
  context holds one result.
\<close>

theorem C8_zero_limit_keeps_everything:
  "cm_maxRecentResults (newContextManager (Some 0)) = 0 \<and>
   mc_recentResults ctx0 = [] \<and>
   mc_recentResults (fst (update ctx0 (noUpdates\<lparr> uo_addResults := Some [okResult ''r1''] \<rparr>)
                             7 ''ctx-2'' (newContextManager (Some 0))))
     = [okResult ''r1'']"
  by (simp add: update_def mergeResults_def jsSliceFrom_def newContextManager_def ctx0_def
        createContext_def noUpdates_def orElse_def Let_def)

subsection \<open>Facts\<close>

lemma keyed_put: "keyed m \<Longrightarrow> keyed (putFact f m)"
  unfolding keyed_def using set_mapSet[of "cf_statement f" f m]
  by (auto simp: mapSet_distinct)

lemma keyed_fold: "keyed m \<Longrightarrow> keyed (fold putFact fs m)"
  by (induction fs arbitrary: m) (simp_all add: keyed_put)

lemma keyed_nil: "keyed []" by (simp add: keyed_def)

lemma map_of_fold:
  "map_of (fold putFact fs m) k = (case lastWith k fs of Some g \<Rightarrow> Some g | None \<Rightarrow> map_of m k)"
  by (induction fs arbitrary: m) (auto simp: mapSet_map_of split: option.splits)

lemma keys_fold_present:
  "cf_statement ` set fs \<subseteq> fst ` set m \<Longrightarrow> map fst (fold putFact fs m) = map fst m"
proof (induction fs arbitrary: m)
  case Nil
  then show ?case by simp
next
  case (Cons f fs)
  then have "cf_statement f \<in> fst ` set m" by simp
  then have k: "map fst (putFact f m) = map fst m" by (rule mapSet_keys_present)
  then have "fst ` set (putFact f m) = fst ` set m" by (metis set_map)
  with Cons.prems have "cf_statement ` set fs \<subseteq> fst ` set (putFact f m)" by simp
  from Cons.IH[OF this] k show ?case by simp
qed

lemma keys_fold_super: "fst ` set m \<subseteq> fst ` set (fold putFact fs m)"
proof (induction fs arbitrary: m)
  case Nil
  then show ?case by simp
next
  case (Cons f fs)
  have "fst ` set m \<subseteq> fst ` set (putFact f m)"
    by (cases "cf_statement f \<in> fst ` set m")
       (metis mapSet_keys_present set_map subset_refl,
        metis mapSet_keys_absent set_map set_append Un_upper1 image_Un image_set)
  with Cons.IH[of "putFact f m"] show ?case by auto
qed

lemma keys_fold_adds: "cf_statement ` set fs \<subseteq> fst ` set (fold putFact fs m)"
proof (induction fs arbitrary: m)
  case Nil
  then show ?case by simp
next
  case (Cons f fs)
  have "cf_statement f \<in> fst ` set (putFact f m)"
    by (metis domI dom_map_of_conv_image_fst mapSet_map_of fun_upd_same)
  with keys_fold_super[of "putFact f m" fs] Cons.IH[of "putFact f m"] show ?case by auto
qed

lemma keyed_values: "keyed m \<Longrightarrow> map cf_statement (map snd m) = map fst m"
  by (induction m) (auto simp: keyed_def)

lemma rebuild_keyed: "keyed (acc @ m) \<Longrightarrow> fold putFact (map snd m) acc = acc @ m"
proof (induction m arbitrary: acc)
  case Nil
  then show ?case by simp
next
  case (Cons x m)
  obtain k f where x: "x = (k, f)" by (cases x)
  from Cons.prems x have kf: "k = cf_statement f" and nk: "k \<notin> fst ` set acc"
    by (auto simp: keyed_def)
  from nk have "mapSet k f acc = acc @ [(k, f)]" by (rule mapSet_absent)
  moreover from Cons.prems x have "keyed ((acc @ [(k, f)]) @ m)" by simp
  ultimately show ?case using Cons.IH[of "acc @ [(k, f)]"] x kf by simp
qed

lemma lastWith_last:
  "lastWith k fs =
     (if filter (\<lambda>g. cf_statement g = k) fs = [] then None
      else Some (last (filter (\<lambda>g. cf_statement g = k) fs)))"
  by (induction fs) auto

lemma keyed_filter:
  "keyed m \<Longrightarrow> filter (\<lambda>h. cf_statement h = k) (map snd m) =
     (case map_of m k of None \<Rightarrow> [] | Some g \<Rightarrow> [g])"
proof (induction m)
  case Nil
  then show ?case by simp
next
  case (Cons x m)
  obtain k' f where x: "x = (k', f)" by (cases x)
  from Cons.prems x have kf: "k' = cf_statement f" and nk: "k' \<notin> fst ` set m" and km: "keyed m"
    by (auto simp: keyed_def)
  show ?case
  proof (cases "k' = k")
    case True
    with nk have "map_of m k = None" by (simp add: map_of_eq_None_iff)
    with Cons.IH[OF km] True x kf show ?thesis by simp
  next
    case False
    with Cons.IH[OF km] x kf show ?thesis by simp
  qed
qed

lemma mergeFacts_keyed:
  "mergeFacts e a = map snd (fold putFact a (fold putFact e [])) \<and>
   keyed (fold putFact a (fold putFact e []))"
  by (simp add: mergeFacts_def mapValues_def Let_def keyed_fold keyed_nil)

lemma mergeFacts_distinct: "distinct (map cf_statement (mergeFacts e a))"
proof -
  let ?M = "fold putFact a (fold putFact e [])"
  have k: "keyed ?M" using mergeFacts_keyed[of e a] by simp
  have "map cf_statement (mergeFacts e a) = map cf_statement (map snd ?M)"
    by (simp only: conjunct1[OF mergeFacts_keyed])
  also have "\<dots> = map fst ?M" by (rule keyed_values[OF k])
  finally have "map cf_statement (mergeFacts e a) = map fst ?M" .
  moreover have "distinct (map fst ?M)" using k by (simp add: keyed_def)
  ultimately show ?thesis by (simp only:)
qed

lemma mergeFacts_latest:
  assumes "f \<in> set a"
  shows "filter (\<lambda>g. cf_statement g = cf_statement f) (mergeFacts e a) =
           [last (filter (\<lambda>g. cf_statement g = cf_statement f) a)]"
proof -
  let ?M = "fold putFact a (fold putFact e [])"
  from assms have ne: "filter (\<lambda>g. cf_statement g = cf_statement f) a \<noteq> []"
    by (auto simp: filter_empty_conv)
  then have "map_of ?M (cf_statement f) = Some (last (filter (\<lambda>g. cf_statement g = cf_statement f) a))"
    by (simp add: map_of_fold lastWith_last)
  with mergeFacts_keyed[of e a] keyed_filter[of ?M "cf_statement f"] show ?thesis by simp
qed

lemma fold_put_again:
  assumes "keyed m0"
  shows "fold putFact a (fold putFact a m0) = fold putFact a m0"
proof (rule assoc_eqI)
  let ?M = "fold putFact a m0"
  show "distinct (map fst (fold putFact a ?M))"
    using keyed_fold[OF keyed_fold[OF assms]] by (simp add: keyed_def)
  show "map fst (fold putFact a ?M) = map fst ?M"
    by (rule keys_fold_present) (rule keys_fold_adds)
  show "map_of (fold putFact a ?M) = map_of ?M"
    by (rule ext) (simp add: map_of_fold split: option.splits)
qed

lemma mergeFacts_idem: "mergeFacts (mergeFacts e a) a = mergeFacts e a"
proof -
  let ?M = "fold putFact a (fold putFact e [])"
  have k: "keyed ?M" using mergeFacts_keyed by simp
  then have "fold putFact (map snd ?M) [] = ?M" using rebuild_keyed[of "[]" ?M] by simp
  moreover have "fold putFact a ?M = ?M" using fold_put_again[OF keyed_fold[OF keyed_nil]] .
  ultimately show ?thesis by (simp add: mergeFacts_def mapValues_def Let_def)
qed

lemma mergeFacts_replace:
  assumes "cf_statement f \<in> cf_statement ` set e"
  shows "length (mergeFacts e [f]) = length (mergeFacts e [])"
proof -
  have "cf_statement ` set e \<subseteq> fst ` set (fold putFact e [])" by (rule keys_fold_adds)
  with assms have "cf_statement f \<in> fst ` set (fold putFact e [])" by auto
  then have "map fst (putFact f (fold putFact e [])) = map fst (fold putFact e [])"
    by (rule mapSet_keys_present)
  then have "length (map fst (putFact f (fold putFact e []))) = length (map fst (fold putFact e []))"
    by (simp only:)
  then have "length (putFact f (fold putFact e [])) = length (fold putFact e [])"
    by (simp only: length_map)
  then show ?thesis by (simp add: mergeFacts_def mapValues_def Let_def)
qed

lemma update_facts:
  "mc_facts (fst (update c u now nid m)) = mergeFacts (mc_facts c) (orElse (uo_addFacts u) [])"
  by (simp add: update_def Let_def)

lemma update_addFacts:
  "mc_facts (fst (update c (u\<lparr> uo_addFacts := Some fs \<rparr>) now nid m)) = mergeFacts (mc_facts c) fs"
  by (simp add: update_facts orElse_def)

lemma update_noFacts:
  "mc_facts (fst (update c (u\<lparr> uo_addFacts := None \<rparr>) now nid m)) = mergeFacts (mc_facts c) []"
  by (simp add: update_facts orElse_def)

text \<open>
  Claim C9. After \<open>update\<close> adds the facts \<open>fs\<close>: no two facts of the new context
  share a statement; for every added fact, the new context holds exactly one fact with
  its statement, namely the last fact of \<open>fs\<close> with that statement (this covers a
  statement added twice within one update, and, taking the result of an earlier update as
  \<open>c\<close>, across two updates); adding the same facts again leaves the facts as they are;
  and adding one fact whose statement is already present yields as many facts as adding
  none.
\<close>

theorem C9_facts_last_write_wins:
  "distinct (map cf_statement (mc_facts (fst (update c (u\<lparr> uo_addFacts := Some fs \<rparr>) now nid m)))) \<and>
   (\<forall>f \<in> set fs.
      filter (\<lambda>g. cf_statement g = cf_statement f)
        (mc_facts (fst (update c (u\<lparr> uo_addFacts := Some fs \<rparr>) now nid m)))
      = [last (filter (\<lambda>g. cf_statement g = cf_statement f) fs)]) \<and>
   mc_facts (fst (update (fst (update c (u\<lparr> uo_addFacts := Some fs \<rparr>) now nid m))
                         (u'\<lparr> uo_addFacts := Some fs \<rparr>) now' nid' m'))
     = mc_facts (fst (update c (u\<lparr> uo_addFacts := Some fs \<rparr>) now nid m)) \<and>
   (cf_statement f' \<in> cf_statement ` set (mc_facts c) \<longrightarrow>
      length (mc_facts (fst (update c (u\<lparr> uo_addFacts := Some [f'] \<rparr>) now nid m))) =
      length (mc_facts (fst (update c (u\<lparr> uo_addFacts := None \<rparr>) now nid m))))"
  apply (simp only: update_addFacts update_noFacts)
  apply (intro conjI ballI impI)
     apply (rule mergeFacts_distinct)
    apply (erule mergeFacts_latest)
   apply (rule mergeFacts_idem)
  apply (erule mergeFacts_replace)
  done

theorem C9_facts_last_write_wins_witness:
  "factA (1/2) ''first'' \<in> set [factA (1/2) ''first'', factA (9/10) ''second''] \<and>
   filter (\<lambda>g. cf_statement g = cf_statement (factA (1/2) ''first''))
     (mc_facts (fst (update ctx0
       (noUpdates\<lparr> uo_addFacts := Some [factA (1/2) ''first'', factA (9/10) ''second''] \<rparr>)
       7 ''ctx-2'' mgr0))) = [factA (9/10) ''second''] \<and>
   cf_statement (factA (9/10) ''second'') \<in> cf_statement ` set [factA (1/2) ''first'']"
  using C9_facts_last_write_wins [where c = ctx0 and u = noUpdates
          and fs = "[factA (1/2) ''first'', factA (9/10) ''second'']" and now = 7
          and nid = "''ctx-2''" and m = mgr0 and u' = noUpdates and now' = 8
          and nid' = "''ctx-3''" and m' = mgr0 and f' = "factA (1/2) ''first''"]
  by (simp add: factA_def)

subsection \<open>Versions and history\<close>

lemma getHistory_recordHistory:
  "getHistory (recordHistory sid c m) sid' =
     (if sid' = sid then getHistory m sid @ [c] else getHistory m sid')"
  by (simp add: getHistory_def recordHistory_def mapGet_mapSet orElse_def split: option.splits)

lemma ctx0_fields:
  "mc_id ctx0 = ''ctx-1''" "mc_version ctx0 = 1" "mc_sessionId ctx0 = ''session-1''"
  by (simp_all add: ctx0_def createContext_def Let_def)

lemma mgr0_history: "getHistory mgr0 ''session-1'' = [ctx0]"
  by (simp add: mgr0_def ctx0_def createContext_def Let_def initializeHistory_def
        newContextManager_def getHistory_def mapGet_def orElse_def)

subsection \<open>Double arithmetic on versions\<close>

lemma ulp_small: "n < 2 ^ 53 \<Longrightarrow> ulp n = 1"
  by (subst ulp.simps) simp

lemma ulp_large: "\<not> n < 2 ^ 53 \<Longrightarrow> ulp n = 2 * ulp (n div 2)"
  by (subst ulp.simps) simp

lemma ulp_limit: "ulp 9007199254740992 = 2"
  by (simp add: ulp_small ulp_large)

text \<open>Every integer of magnitude up to \<open>2^53\<close> is a double.\<close>

lemma roundToDouble_exact: "\<bar>x\<bar> \<le> 2 ^ 53 \<Longrightarrow> roundToDouble x = x"
proof (cases "\<bar>x\<bar> < 2 ^ 53")
  case True
  then have "nat \<bar>x\<bar> < 2 ^ 53" by (simp add: nat_less_iff)
  then show ?thesis
    by (simp add: roundToDouble_def ulp_small Let_def sgn_if)
next
  case False
  assume "\<bar>x\<bar> \<le> 2 ^ 53"
  with False have ax: "\<bar>x\<bar> = 9007199254740992" by simp
  then have n: "nat \<bar>x\<bar> = 9007199254740992" by simp
  from ax show ?thesis
    by (simp add: roundToDouble_def n ulp_limit Let_def sgn_if) arith
qed

lemma jsAdd_safe: "\<bar>v\<bar> < 2 ^ 53 \<Longrightarrow> jsAdd v 1 = v + 1"
  unfolding jsAdd_def by (rule roundToDouble_exact) simp

text \<open>
  \<open>2^53 + 1\<close> is not a double: it lies half-way between \<open>2^53\<close> and \<open>2^53 + 2\<close>, and the
  tie goes to \<open>2^53\<close>.
\<close>

lemma jsAdd_limit: "jsAdd 9007199254740992 1 = 9007199254740992"
  by (simp add: jsAdd_def roundToDouble_def ulp_small ulp_large Let_def)

lemma update_version: "mc_version (fst (update c u now nid m)) = jsAdd (mc_version c) 1"
  by (simp add: update_def Let_def)

lemma update_id: "mc_id (fst (update c u now nid m)) = nid"
  by (simp add: update_def Let_def)

subsection \<open>Reading the store\<close>

lemma deref_less: "deref s r = Some v \<Longrightarrow> r < length s"
  by (simp add: deref_def split: if_splits)

lemma deref_append: "r < length s \<Longrightarrow> deref (s @ ys) r = deref s r"
  by (simp add: deref_def nth_append)

lemma deref_append_new: "deref (s @ y # ys) (length s) = Some y"
  by (simp add: deref_def nth_append)

lemma deref_assign:
  "deref (assign h obj s) r = (if r = h \<and> h < length s then Some obj else deref s r)"
  by (simp add: deref_def assign_def)

lemmas read_defs =
  readContext_def readIntent_def readWorkspace_def readMemoryRefs_def readResults_def
  readPlan_def readFacts_def readConstraints_def readHistory_def

lemma read_less:
  "readContext s r = Some v1 \<Longrightarrow> r < length s"
  "readIntent s r = Some v2 \<Longrightarrow> r < length s"
  "readWorkspace s r = Some v3 \<Longrightarrow> r < length s"
  "readMemoryRefs s r = Some v4 \<Longrightarrow> r < length s"
  "readResults s r = Some v5 \<Longrightarrow> r < length s"
  "readPlan s r = Some v6 \<Longrightarrow> r < length s"
  "readFacts s r = Some v7 \<Longrightarrow> r < length s"
  "readConstraints s r = Some v8 \<Longrightarrow> r < length s"
  "readHistory s r = Some v9 \<Longrightarrow> r < length s"
  by (auto simp: read_defs dest: deref_less split: option.splits StoredObject.splits)

text \<open>A reader returns the same on two stores that hold the same object at the reference.\<close>

lemma read_cong:
  assumes "deref s' r = deref s r"
  shows "readContext s' r = readContext s r" and "readIntent s' r = readIntent s r"
    and "readWorkspace s' r = readWorkspace s r" and "readMemoryRefs s' r = readMemoryRefs s r"
    and "readResults s' r = readResults s r" and "readPlan s' r = readPlan s r"
    and "readFacts s' r = readFacts s r" and "readConstraints s' r = readConstraints s r"
    and "readHistory s' r = readHistory s r"
  using assms by (simp_all add: read_defs)

text \<open>An address that holds a history array holds nothing of another kind.\<close>

lemma history_distinct:
  assumes "readHistory s h = Some refs"
  shows "readContext s h = None" and "readIntent s h = None" and "readWorkspace s h = None"
    and "readMemoryRefs s h = None" and "readResults s h = None" and "readPlan s h = None"
    and "readFacts s h = None" and "readConstraints s h = None"
  using assms by (auto simp: read_defs split: option.splits StoredObject.splits)

lemma loadPlan_cong:
  assumes "\<And>r. p = Some r \<Longrightarrow> readPlan s' r = readPlan s r"
  shows "loadPlan s' p = loadPlan s p"
  using assms by (cases p) (simp_all add: loadPlan_def)

lemma loadContext_fields:
  assumes "loadContext s r = Some c"
  shows "\<exists>ob. readContext s r = Some ob \<and>
           readIntent s (ob_intent ob) = Some (mc_intent c) \<and>
           readWorkspace s (ob_workspace ob) = Some (mc_workspace c) \<and>
           readMemoryRefs s (ob_memoryRefs ob) = Some (mc_memoryRefs c) \<and>
           readResults s (ob_recentResults ob) = Some (mc_recentResults c) \<and>
           loadPlan s (ob_activePlan ob) = Some (mc_activePlan c) \<and>
           readFacts s (ob_facts ob) = Some (mc_facts c) \<and>
           readConstraints s (ob_constraints ob) = Some (mc_constraints c) \<and>
           mc_id c = ob_id ob \<and> mc_sessionId c = ob_sessionId ob \<and>
           mc_version c = ob_version ob \<and> mc_createdAt c = ob_createdAt ob \<and>
           mc_updatedAt c = ob_updatedAt ob"
  using assms by (auto simp: loadContext_def split: option.splits)

lemma loadContext_intro:
  assumes "readContext s r = Some ob"
      and "readIntent s (ob_intent ob) = Some intent"
      and "readWorkspace s (ob_workspace ob) = Some workspace"
      and "readMemoryRefs s (ob_memoryRefs ob) = Some memoryRefs"
      and "readResults s (ob_recentResults ob) = Some recentResults"
      and "loadPlan s (ob_activePlan ob) = Some activePlan"
      and "readFacts s (ob_facts ob) = Some facts"
      and "readConstraints s (ob_constraints ob) = Some constraints"
  shows "loadContext s r =
     Some \<lparr> mc_id = ob_id ob, mc_sessionId = ob_sessionId ob, mc_version = ob_version ob,
            mc_intent = intent, mc_workspace = workspace, mc_memoryRefs = memoryRefs,
            mc_recentResults = recentResults, mc_activePlan = activePlan,
            mc_facts = facts, mc_constraints = constraints,
            mc_createdAt = ob_createdAt ob, mc_updatedAt = ob_updatedAt ob \<rparr>"
  using assms by (simp add: loadContext_def)

lemma loadOptions_fields:
  assumes "loadOptions s updates = Some u"
  shows "(case so_memoryRefs updates of
            None \<Rightarrow> uo_memoryRefs u = None
          | Some r \<Rightarrow> \<exists>v. readMemoryRefs s r = Some v \<and> uo_memoryRefs u = Some v)"
    and "(case so_plan updates of
            None \<Rightarrow> uo_plan u = None
          | Some p \<Rightarrow> \<exists>v. loadPlan s p = Some v \<and> uo_plan u = Some v)"
    and "uo_addResults u = so_addResults updates" and "uo_addFacts u = so_addFacts updates"
    and "uo_addConstraints u = so_addConstraints updates"
    and "uo_workspace u = so_workspace updates"
  using assms by (auto simp: loadOptions_def split: option.splits) metis+

lemma read_append:
  assumes "r < length s"
  shows "readContext (s @ ys) r = readContext s r" and "readIntent (s @ ys) r = readIntent s r"
    and "readWorkspace (s @ ys) r = readWorkspace s r"
    and "readMemoryRefs (s @ ys) r = readMemoryRefs s r"
    and "readResults (s @ ys) r = readResults s r" and "readPlan (s @ ys) r = readPlan s r"
    and "readFacts (s @ ys) r = readFacts s r"
    and "readConstraints (s @ ys) r = readConstraints s r"
    and "readHistory (s @ ys) r = readHistory s r"
  using deref_append[OF assms, of ys] by (simp_all add: read_defs)

subsection \<open>What a call leaves alone\<close>

text \<open>
  A frame: the store \<open>s'\<close> holds at every address of \<open>s\<close>, the one in \<open>hopt\<close> apart, the
  object that \<open>s\<close> holds there. When the excepted address holds a history array, every
  read of another kind that succeeds in \<open>s\<close> gives the same in \<open>s'\<close>, and so does the
  value of a context.
\<close>

lemma frame_reads:
  assumes fr: "\<forall>r. r < length s \<longrightarrow> Some r \<noteq> hopt \<longrightarrow> deref s' r = deref s r"
      and ht: "\<forall>h. hopt = Some h \<longrightarrow> readHistory s h \<noteq> None"
  shows "readContext s r = Some v1 \<Longrightarrow> readContext s' r = Some v1"
    and "readIntent s r = Some v2 \<Longrightarrow> readIntent s' r = Some v2"
    and "readWorkspace s r = Some v3 \<Longrightarrow> readWorkspace s' r = Some v3"
    and "readMemoryRefs s r = Some v4 \<Longrightarrow> readMemoryRefs s' r = Some v4"
    and "readResults s r = Some v5 \<Longrightarrow> readResults s' r = Some v5"
    and "readPlan s r = Some v6 \<Longrightarrow> readPlan s' r = Some v6"
    and "readFacts s r = Some v7 \<Longrightarrow> readFacts s' r = Some v7"
    and "readConstraints s r = Some v8 \<Longrightarrow> readConstraints s' r = Some v8"
proof -
  have keep: "deref s' r = deref s r"
    if "r < length s"
      and "readContext s r \<noteq> None \<or> readIntent s r \<noteq> None \<or> readWorkspace s r \<noteq> None \<or>
           readMemoryRefs s r \<noteq> None \<or> readResults s r \<noteq> None \<or> readPlan s r \<noteq> None \<or>
           readFacts s r \<noteq> None \<or> readConstraints s r \<noteq> None"
  proof -
    have "Some r \<noteq> hopt"
    proof
      assume "Some r = hopt"
      then have "readHistory s r \<noteq> None" using ht by simp
      then obtain refs where "readHistory s r = Some refs" by auto
      from history_distinct[OF this] that(2) show False by simp
    qed
    with fr that(1) show ?thesis by simp
  qed
  show "readContext s r = Some v1 \<Longrightarrow> readContext s' r = Some v1"
    using keep[OF read_less(1)] read_cong(1)[of s' r s] by simp
  show "readIntent s r = Some v2 \<Longrightarrow> readIntent s' r = Some v2"
    using keep[OF read_less(2)] read_cong(2)[of s' r s] by simp
  show "readWorkspace s r = Some v3 \<Longrightarrow> readWorkspace s' r = Some v3"
    using keep[OF read_less(3)] read_cong(3)[of s' r s] by simp
  show "readMemoryRefs s r = Some v4 \<Longrightarrow> readMemoryRefs s' r = Some v4"
    using keep[OF read_less(4)] read_cong(4)[of s' r s] by simp
  show "readResults s r = Some v5 \<Longrightarrow> readResults s' r = Some v5"
    using keep[OF read_less(5)] read_cong(5)[of s' r s] by simp
  show "readPlan s r = Some v6 \<Longrightarrow> readPlan s' r = Some v6"
    using keep[OF read_less(6)] read_cong(6)[of s' r s] by simp
  show "readFacts s r = Some v7 \<Longrightarrow> readFacts s' r = Some v7"
    using keep[OF read_less(7)] read_cong(7)[of s' r s] by simp
  show "readConstraints s r = Some v8 \<Longrightarrow> readConstraints s' r = Some v8"
    using keep[OF read_less(8)] read_cong(8)[of s' r s] by simp
qed

lemma frame_loadPlan:
  assumes fr: "\<forall>r. r < length s \<longrightarrow> Some r \<noteq> hopt \<longrightarrow> deref s' r = deref s r"
      and ht: "\<forall>h. hopt = Some h \<longrightarrow> readHistory s h \<noteq> None"
      and lp: "loadPlan s p = Some v"
  shows "loadPlan s' p = Some v"
proof (cases p)
  case None
  with lp show ?thesis by (simp add: loadPlan_def)
next
  case (Some r)
  with lp obtain plan where rp: "readPlan s r = Some plan" and v: "v = Some plan"
    by (auto simp: loadPlan_def split: option.splits)
  have "readPlan s' r = Some plan"
    using rp by (rule frame_reads(6)[OF fr ht])
  with Some v show ?thesis by (simp add: loadPlan_def)
qed

lemma frame_loadContext:
  assumes fr: "\<forall>r. r < length s \<longrightarrow> Some r \<noteq> hopt \<longrightarrow> deref s' r = deref s r"
      and ht: "\<forall>h. hopt = Some h \<longrightarrow> readHistory s h \<noteq> None"
      and lc: "loadContext s r = Some c"
  shows "loadContext s' r = Some c"
proof -
  from loadContext_fields[OF lc] obtain ob where
    f: "readContext s r = Some ob"
       "readIntent s (ob_intent ob) = Some (mc_intent c)"
       "readWorkspace s (ob_workspace ob) = Some (mc_workspace c)"
       "readMemoryRefs s (ob_memoryRefs ob) = Some (mc_memoryRefs c)"
       "readResults s (ob_recentResults ob) = Some (mc_recentResults c)"
       "loadPlan s (ob_activePlan ob) = Some (mc_activePlan c)"
       "readFacts s (ob_facts ob) = Some (mc_facts c)"
       "readConstraints s (ob_constraints ob) = Some (mc_constraints c)"
    and g: "mc_id c = ob_id ob" "mc_sessionId c = ob_sessionId ob" "mc_version c = ob_version ob"
       "mc_createdAt c = ob_createdAt ob" "mc_updatedAt c = ob_updatedAt ob"
    by blast
  note fr' = frame_reads[OF fr ht]
  have lp: "loadPlan s' (ob_activePlan ob) = Some (mc_activePlan c)"
    using f(6) by (rule frame_loadPlan[OF fr ht])
  from loadContext_intro[OF fr'(1)[OF f(1)] fr'(2)[OF f(2)] fr'(3)[OF f(3)] fr'(4)[OF f(4)]
         fr'(5)[OF f(5)] lp fr'(7)[OF f(7)] fr'(8)[OF f(8)]]
  show ?thesis using g by simp
qed

text \<open>What \<open>recordHistory\<close> does to the store and to the session's history.\<close>

lemma recordHistoryStored_frame:
  assumes ht: "historyTyped m s sid"
  shows "\<exists>m' s'. recordHistoryStored sid x m s = Some (m', s') \<and>
           (\<forall>r. r < length s \<longrightarrow> Some r \<noteq> mapGet (sm_history m) sid \<longrightarrow>
                deref s' r = deref s r) \<and>
           getHistoryStored m' s' sid = getHistoryStored m s sid @ [x]"
proof (cases "mapGet (sm_history m) sid")
  case None
  then show ?thesis
    by (simp add: recordHistoryStored_def allocate_def getHistoryStored_def mapGet_mapSet
          readHistory_def deref_append deref_append_new orElse_def)
next
  case (Some h)
  with ht obtain refs where rh: "readHistory s h = Some refs"
    by (auto simp: historyTyped_def)
  have lt: "h < length s" using rh by (rule read_less)
  show ?thesis
    using Some rh lt
    by (simp add: recordHistoryStored_def getHistoryStored_def readHistory_def deref_assign
          orElse_def)
qed

text \<open>
  The statements of \<open>update\<close> before \<open>recordHistory\<close> only allocate: the store grows by
  the three merged arrays, the merged workspace when there is one, and the new context,
  whose value is the one the method of the previous section computes.
\<close>

lemma updateStored_build:
  assumes c: "loadContext s current = Some c"
      and u: "loadOptions s updates = Some u"
  shows "\<exists>news upd.
           updateStored current updates now nid m s =
             (case recordHistoryStored (mc_sessionId c) (length s + length news) m
                     (s @ news @ [StoredContext upd]) of
                None \<Rightarrow> None
              | Some (m', s6) \<Rightarrow> Some (length s + length news, m', s6)) \<and>
           loadContext (s @ news @ [StoredContext upd]) (length s + length news) =
             Some (fst (update c u now nid (limitOnly (sm_maxRecentResults m))))"
proof -
  from loadContext_fields[OF c] obtain cur where
    f: "readContext s current = Some cur"
       "readIntent s (ob_intent cur) = Some (mc_intent c)"
       "readWorkspace s (ob_workspace cur) = Some (mc_workspace c)"
       "readMemoryRefs s (ob_memoryRefs cur) = Some (mc_memoryRefs c)"
       "readResults s (ob_recentResults cur) = Some (mc_recentResults c)"
       "loadPlan s (ob_activePlan cur) = Some (mc_activePlan c)"
       "readFacts s (ob_facts cur) = Some (mc_facts c)"
       "readConstraints s (ob_constraints cur) = Some (mc_constraints c)"
    and g: "mc_id c = ob_id cur" "mc_sessionId c = ob_sessionId cur"
       "mc_version c = ob_version cur" "mc_createdAt c = ob_createdAt cur"
       "mc_updatedAt c = ob_updatedAt cur"
    by blast
  note lt = read_less(1)[OF f(1)] read_less(2)[OF f(2)] read_less(3)[OF f(3)]
    read_less(4)[OF f(4)] read_less(5)[OF f(5)] read_less(7)[OF f(7)] read_less(8)[OF f(8)]
  note uo = loadOptions_fields[OF u]
  define R where "R = mergeResults (limitOnly (sm_maxRecentResults m)) (mc_recentResults c)
                        (orElse (so_addResults updates) [])"
  define F where "F = mergeFacts (mc_facts c) (orElse (so_addFacts updates) [])"
  define K where "K = mergeConstraints (mc_constraints c) (orElse (so_addConstraints updates) [])"
  define W where "W = (case so_workspace updates of
                         Some w \<Rightarrow> mergeWorkspace (mc_workspace c) w
                       | None \<Rightarrow> mc_workspace c)"
  define news where "news = [StoredResults R, StoredFacts F, StoredConstraints K]
                      @ (case so_workspace updates of
                           Some w \<Rightarrow> [StoredWorkspace W]
                         | None \<Rightarrow> [])"
  define wref where "wref = (case so_workspace updates of
                               Some w \<Rightarrow> Suc (Suc (Suc (length s)))
                             | None \<Rightarrow> ob_workspace cur)"
  define upd where "upd =
      \<lparr> ob_id = nid, ob_sessionId = ob_sessionId cur,
        ob_version = jsAdd (ob_version cur) 1, ob_intent = ob_intent cur,
        ob_workspace = wref,
        ob_memoryRefs = orElse (so_memoryRefs updates) (ob_memoryRefs cur),
        ob_recentResults = length s,
        ob_activePlan = (case so_plan updates of Some p \<Rightarrow> p | None \<Rightarrow> ob_activePlan cur),
        ob_facts = Suc (length s), ob_constraints = Suc (Suc (length s)),
        ob_createdAt = ob_createdAt cur, ob_updatedAt = now \<rparr>"
  let ?s5 = "s @ news @ [StoredContext upd]"
  let ?x = "length s + length news"
  have eq: "updateStored current updates now nid m s =
      (case recordHistoryStored (mc_sessionId c) ?x m ?s5 of
         None \<Rightarrow> None
       | Some (m', s6) \<Rightarrow> Some (?x, m', s6))"
  proof (cases "so_workspace updates")
    case None
    then show ?thesis
      by (simp add: updateStored_def mergeResultsStored_def mergeFactsStored_def
            mergeConstraintsStored_def allocate_def Let_def f g read_append lt
            news_def upd_def wref_def R_def F_def K_def cong: option.case_cong)
  next
    case (Some w)
    then show ?thesis
      by (simp add: updateStored_def mergeResultsStored_def mergeFactsStored_def
            mergeConstraintsStored_def mergeWorkspaceStored_def allocate_def Let_def f g
            read_append lt news_def upd_def wref_def R_def F_def K_def W_def
            cong: option.case_cong)
  qed
  have old: "\<forall>r. r < length s \<longrightarrow> Some r \<noteq> (None :: Ref option) \<longrightarrow> deref ?s5 r = deref s r"
    by (simp add: deref_append)
  have noh: "\<forall>h. (None :: Ref option) = Some h \<longrightarrow> readHistory s h \<noteq> None" by simp
  note keep = frame_reads[OF old noh]
  have rx: "readContext ?s5 ?x = Some upd"
    by (simp add: readContext_def deref_def nth_append)
  have r1: "readIntent ?s5 (ob_intent upd) = Some (mc_intent c)"
    using keep(2)[OF f(2)] by (simp add: upd_def)
  have r2: "readWorkspace ?s5 (ob_workspace upd) = Some W"
  proof (cases "so_workspace updates")
    case None
    then show ?thesis using keep(3)[OF f(3)] by (simp add: upd_def wref_def W_def)
  next
    case (Some w)
    then show ?thesis
      by (simp add: upd_def wref_def news_def readWorkspace_def deref_def nth_append)
  qed
  have r3: "readMemoryRefs ?s5 (ob_memoryRefs upd) = Some (orElse (uo_memoryRefs u) (mc_memoryRefs c))"
  proof (cases "so_memoryRefs updates")
    case None
    then show ?thesis using keep(4)[OF f(4)] uo(1) by (simp add: upd_def orElse_def)
  next
    case (Some r)
    with uo(1) obtain v where v: "readMemoryRefs s r = Some v" "uo_memoryRefs u = Some v"
      by auto
    from keep(4)[OF v(1)] Some v(2) show ?thesis by (simp add: upd_def orElse_def)
  qed
  have r4: "readResults ?s5 (ob_recentResults upd) = Some R"
    by (simp add: upd_def news_def readResults_def deref_def nth_append)
  have r5: "loadPlan ?s5 (ob_activePlan upd) =
              Some (case uo_plan u of Some p \<Rightarrow> p | None \<Rightarrow> mc_activePlan c)"
  proof (cases "so_plan updates")
    case None
    then show ?thesis
      using frame_loadPlan[OF old noh f(6)] uo(2) by (simp add: upd_def)
  next
    case (Some p)
    with uo(2) obtain v where v: "loadPlan s p = Some v" "uo_plan u = Some v" by auto
    from frame_loadPlan[OF old noh v(1)] Some v(2) show ?thesis by (simp add: upd_def)
  qed
  have r6: "readFacts ?s5 (ob_facts upd) = Some F"
    by (simp add: upd_def news_def readFacts_def deref_def nth_append)
  have r7: "readConstraints ?s5 (ob_constraints upd) = Some K"
    by (simp add: upd_def news_def readConstraints_def deref_def nth_append)
  have "loadContext ?s5 ?x =
          Some (fst (update c u now nid (limitOnly (sm_maxRecentResults m))))"
    unfolding loadContext_intro[OF rx r1 r2 r3 r4 r5 r6 r7]
    by (simp add: update_def Let_def upd_def R_def F_def K_def W_def uo(3-6) g limitOnly_def
          mergeResults_def)
  with eq show ?thesis by blast
qed

text \<open>
  The whole call. It returns; the reference it returns is new; the value of the object
  there is the context of the previous section's \<open>update\<close>; every object that existed
  before is as it was, the session's history array excepted; and that array, or a new
  one for a session that had none, lists the session's earlier contexts followed by the
  new one.
\<close>

lemma updateStored_frame:
  assumes c: "loadContext s current = Some c"
      and u: "loadOptions s updates = Some u"
      and h: "historyTyped m s (mc_sessionId c)"
  shows "\<exists>updated m' s'.
           updateStored current updates now nid m s = Some (updated, m', s') \<and>
           length s \<le> updated \<and>
           loadContext s' updated =
             Some (fst (update c u now nid (limitOnly (sm_maxRecentResults m)))) \<and>
           loadContext s' current = Some c \<and>
           (\<forall>r. r < length s \<longrightarrow> Some r \<noteq> mapGet (sm_history m) (mc_sessionId c) \<longrightarrow>
                deref s' r = deref s r) \<and>
           getHistoryStored m' s' (mc_sessionId c) =
             getHistoryStored m s (mc_sessionId c) @ [updated]"
proof -
  let ?sid = "mc_sessionId c"
  let ?hopt = "mapGet (sm_history m) ?sid"
  from updateStored_build[OF c u, of now nid m] obtain news upd where
    eq: "updateStored current updates now nid m s =
             (case recordHistoryStored ?sid (length s + length news) m
                     (s @ news @ [StoredContext upd]) of
                None \<Rightarrow> None
              | Some (m', s6) \<Rightarrow> Some (length s + length news, m', s6))"
    and new: "loadContext (s @ news @ [StoredContext upd]) (length s + length news) =
             Some (fst (update c u now nid (limitOnly (sm_maxRecentResults m))))"
    by blast
  let ?s5 = "s @ news @ [StoredContext upd]"
  let ?x = "length s + length news"
  have ht: "\<forall>x. ?hopt = Some x \<longrightarrow> readHistory s x \<noteq> None"
    using h by (auto simp: historyTyped_def)
  have ht5: "\<forall>x. ?hopt = Some x \<longrightarrow> readHistory ?s5 x \<noteq> None"
  proof (intro allI impI)
    fix x assume "?hopt = Some x"
    with ht obtain refs where "readHistory s x = Some refs" by auto
    then show "readHistory ?s5 x \<noteq> None"
      using read_append(9)[OF read_less(9), of s x refs "news @ [StoredContext upd]"] by simp
  qed
  then have h5: "historyTyped m ?s5 ?sid" by (auto simp: historyTyped_def split: option.splits)
  have gh5: "getHistoryStored m ?s5 ?sid = getHistoryStored m s ?sid"
  proof (cases ?hopt)
    case None
    then show ?thesis by (simp add: getHistoryStored_def)
  next
    case (Some x)
    with ht obtain refs where "readHistory s x = Some refs" by auto
    then show ?thesis
      using Some read_append(9)[OF read_less(9), of s x refs "news @ [StoredContext upd]"]
      by (simp add: getHistoryStored_def)
  qed
  from recordHistoryStored_frame[OF h5, of ?x] obtain m' s' where
    rh: "recordHistoryStored ?sid ?x m ?s5 = Some (m', s')"
    and fr5: "\<forall>r. r < length ?s5 \<longrightarrow> Some r \<noteq> ?hopt \<longrightarrow> deref s' r = deref ?s5 r"
    and gh: "getHistoryStored m' s' ?sid = getHistoryStored m ?s5 ?sid @ [?x]"
    by blast
  have fr: "\<forall>r. r < length s \<longrightarrow> Some r \<noteq> ?hopt \<longrightarrow> deref s' r = deref s r"
    using fr5 by (simp add: deref_append)
  have res: "updateStored current updates now nid m s = Some (?x, m', s')"
    using eq rh by simp
  have l1: "loadContext s' ?x =
              Some (fst (update c u now nid (limitOnly (sm_maxRecentResults m))))"
    using new by (rule frame_loadContext[OF fr5 ht5])
  have l2: "loadContext s' current = Some c"
    using c by (rule frame_loadContext[OF fr ht])
  from res l1 l2 fr gh gh5 show ?thesis by auto
qed

subsection \<open>The result of an update and what the update leaves alone\<close>

lemma created0_value:
  "created0 = (6, \<lparr> sm_maxRecentResults = 10, sm_history = [(''session-1'', 7)] \<rparr>,
     [StoredIntent (createMinimalIntent ''do it'' 0),
      StoredWorkspace (createMinimalWorkspace ''/w'' 0),
      StoredMemoryRefs [], StoredResults [], StoredFacts [], StoredConstraints [],
      StoredContext
        \<lparr> ob_id = ''ctx-1'', ob_sessionId = ''session-1'', ob_version = 1, ob_intent = 0,
          ob_workspace = 1, ob_memoryRefs = 2, ob_recentResults = 3, ob_activePlan = None,
          ob_facts = 4, ob_constraints = 5, ob_createdAt = 1, ob_updatedAt = 1 \<rparr>,
      StoredHistory [6]])"
  by (simp add: created0_def createStored_def allocate_def store0_def Let_def)

lemma created0_load: "loadContext (snd (snd created0)) (fst created0) = Some ctx0"
  by (simp add: created0_value loadContext_def read_defs loadPlan_def deref_def ctx0_def
        createContext_def Let_def orElse_def)

lemma created0_options: "loadOptions (snd (snd created0)) noStoredUpdates = Some noUpdates"
  by (simp add: loadOptions_def noStoredUpdates_def noUpdates_def)

lemma created0_history:
  "historyTyped (fst (snd created0)) (snd (snd created0)) (mc_sessionId ctx0)"
  by (simp add: created0_value historyTyped_def mapGet_def readHistory_def deref_def ctx0_fields)

text \<open>
  When \<open>uuidv4\<close> never returns an identifier twice, the context that \<open>update\<close> makes
  from a context whose identifier is an earlier draw carries another identifier.
\<close>

lemma update_id_fresh:
  assumes "inj (uuid :: nat \<Rightarrow> UniqueId)" and "mc_id c = uuid k" and "k < n"
  shows "mc_id (fst (update c u now (uuid n) m)) \<noteq> mc_id c"
  using assms by (auto simp: update_id inj_eq)

text \<open>
  Claim C3, as stated, fails in two of its parts. The version of the result is
  \<open>c.version + 1\<close> computed in doubles: for a context at version \<open>2^53\<close> that is \<open>2^53\<close>
  again, not \<open>c.version + 1\<close>. And the identifier of the result is whatever \<open>uuidv4\<close>
  returns: \<open>update\<close> does not compare it with \<open>c.id\<close>, so a draw that repeats the
  identifier of the context passed in gives a result with the same identifier.
\<close>

theorem C3_update_counterexample:
  "mc_version ctxAtLimit = 9007199254740992 \<and>
   mc_version (fst (update ctxAtLimit noUpdates 7 ''ctx-2'' mgr0)) = 9007199254740992 \<and>
   mc_id ctxWithUuid = ''3b241101-e2bb-4255-8caf-4136c566a962'' \<and>
   mc_id (fst (update ctxWithUuid noUpdates 7 ''3b241101-e2bb-4255-8caf-4136c566a962'' mgr0))
     = ''3b241101-e2bb-4255-8caf-4136c566a962''"
  by (simp add: update_version update_id ctxAtLimit_def ctxWithUuid_def jsAdd_limit)

text \<open>
  Claim C3, amended. Let \<open>c\<close> be the value of the context object at \<open>current\<close> and \<open>u\<close>
  the value of the options, in a store where the session's history, if there is one, is an
  array, and let the version of \<open>c\<close> be an integer of magnitude below \<open>2^53\<close>. Then
  \<open>update\<close> returns; the reference it returns is to a new object (no object was at that
  address before, so it is not \<open>current\<close>); the value of that object is the context that
  \<open>update\<close> of the previous section computes from \<open>c\<close> and \<open>u\<close>, its identifier is the
  one drawn from \<open>uuidv4\<close> for this call and its version is \<open>c.version + 1\<close>. Afterwards
  the object at \<open>current\<close> is the object that was there before, with every field as it
  was, and its value is still \<open>c\<close>. Every other object that existed before the call is
  unchanged as well, except the array of the session's history; that array, or a new one
  when the session had none, lists the contexts it listed before followed by the new one.
\<close>

theorem C3_update_nondestructive:
  assumes "loadContext s current = Some c"
      and "loadOptions s updates = Some u"
      and "historyTyped m s (mc_sessionId c)"
      and "\<bar>mc_version c\<bar> < 2 ^ 53"
  shows "\<exists>updated m' s' c'.
           updateStored current updates now nid m s = Some (updated, m', s') \<and>
           deref s updated = None \<and> updated \<noteq> current \<and>
           loadContext s' updated = Some c' \<and>
           c' = fst (update c u now nid (limitOnly (sm_maxRecentResults m))) \<and>
           mc_id c' = nid \<and>
           mc_version c' = mc_version c + 1 \<and>
           deref s' current = deref s current \<and>
           loadContext s' current = Some c \<and>
           (\<forall>r. r < length s \<longrightarrow> Some r \<noteq> mapGet (sm_history m) (mc_sessionId c) \<longrightarrow>
                deref s' r = deref s r) \<and>
           getHistoryStored m' s' (mc_sessionId c) =
             getHistoryStored m s (mc_sessionId c) @ [updated]"
proof -
  let ?c' = "fst (update c u now nid (limitOnly (sm_maxRecentResults m)))"
  from updateStored_frame[OF assms(1,2,3), of now nid] obtain updated m' s' where
    res: "updateStored current updates now nid m s = Some (updated, m', s')"
    and ge: "length s \<le> updated"
    and new: "loadContext s' updated = Some ?c'"
    and old: "loadContext s' current = Some c"
    and fr: "\<forall>r. r < length s \<longrightarrow> Some r \<noteq> mapGet (sm_history m) (mc_sessionId c) \<longrightarrow>
                deref s' r = deref s r"
    and gh: "getHistoryStored m' s' (mc_sessionId c) =
               getHistoryStored m s (mc_sessionId c) @ [updated]"
    by blast
  from loadContext_fields[OF assms(1)] obtain cur where
    rc: "readContext s current = Some cur" by blast
  have lt: "current < length s" using rc by (rule read_less)
  have fresh: "deref s updated = None" using ge by (simp add: deref_def)
  have ne: "updated \<noteq> current" using ge lt by simp
  have nh: "Some current \<noteq> mapGet (sm_history m) (mc_sessionId c)"
  proof
    assume "Some current = mapGet (sm_history m) (mc_sessionId c)"
    with assms(3) obtain refs where "readHistory s current = Some refs"
      by (auto simp: historyTyped_def split: option.splits)
    from history_distinct(1)[OF this] rc show False by simp
  qed
  have same: "deref s' current = deref s current" using fr lt nh by simp
  have ver: "mc_version ?c' = mc_version c + 1"
    using jsAdd_safe[OF assms(4)] by (simp add: update_version)
  from res fresh ne new ver same old fr gh show ?thesis
    by (simp add: update_id)
qed

theorem C3_update_nondestructive_witness:
  "loadContext (snd (snd created0)) (fst created0) = Some ctx0 \<and>
   loadOptions (snd (snd created0)) noStoredUpdates = Some noUpdates \<and>
   historyTyped (fst (snd created0)) (snd (snd created0)) (mc_sessionId ctx0) \<and>
   \<bar>mc_version ctx0\<bar> < 2 ^ 53 \<and>
   map_option (\<lambda>r. deref (snd (snd created0)) (fst r)) updated0 = Some None \<and>
   map_option (\<lambda>r. map_option mc_id (loadContext (snd (snd r)) (fst r))) updated0
     = Some (Some ''ctx-2'') \<and>
   map_option (\<lambda>r. map_option mc_version (loadContext (snd (snd r)) (fst r))) updated0
     = Some (Some 2) \<and>
   map_option (\<lambda>r. deref (snd (snd r)) (fst created0)) updated0
     = Some (deref (snd (snd created0)) (fst created0)) \<and>
   map_option (\<lambda>r. loadContext (snd (snd r)) (fst created0)) updated0 = Some (Some ctx0)"
proof -
  have v: "\<bar>mc_version ctx0\<bar> < 2 ^ 53" by (simp add: ctx0_fields)
  from C3_update_nondestructive[OF created0_load created0_options created0_history v,
         of 7 "''ctx-2''"]
  obtain updated m' s' c' where
    r: "updated0 = Some (updated, m', s')"
    and p: "deref (snd (snd created0)) updated = None"
      "loadContext s' updated = Some c'" "mc_id c' = ''ctx-2''"
      "mc_version c' = mc_version ctx0 + 1"
      "deref s' (fst created0) = deref (snd (snd created0)) (fst created0)"
      "loadContext s' (fst created0) = Some ctx0"
    unfolding updated0_def by blast
  show ?thesis
    unfolding r
    using p created0_load created0_options created0_history v by (simp add: ctx0_fields)
qed

section \<open>Tool Registry: properties\<close>

subsection \<open>Permissions\<close>

lemma checkPermissions_missing:
  "snd (checkPermissions reg required) =
     filter (\<lambda>p. p \<notin> set (rc_grantedPermissions (tr_config reg))) required"
  by (simp add: checkPermissions_def Let_def)

lemma checkPermissions_valid:
  "fst (checkPermissions reg required) \<longleftrightarrow>
     (\<forall>p \<in> set required. p \<in> set (rc_grantedPermissions (tr_config reg)))"
  by (simp add: checkPermissions_def Let_def filter_empty_conv)

text \<open>
  Claim C4. When the requested tool is registered and enabled and at least one of its
  declared permissions is not granted, \<open>invoke\<close> resolves with a failed result whose error
  has code \<open>PERMISSION_DENIED\<close>, is not recoverable, and whose message is
  \<open>Missing permissions: \<close> followed by exactly the missing permissions, in declaration
  order and comma-separated. The registry is returned as it was: its effect trace gains
  nothing, so the tool's \<open>execute\<close> was not called (nor its validator, and no event was
  emitted), and no entry changed.
\<close>

theorem C4_permission_denied:
  assumes "mapGet (tr_tools reg) (rq_toolId request) = Some entry"
      and "re_enabled entry"
      and "\<exists>p \<in> set (td_permissions (re_definition entry)).
              p \<notin> set (rc_grantedPermissions (tr_config reg))"
  shows "invoke request executionId startTime endTime now reg =
          (Resolved
             \<lparr> tres_id = executionId, tres_toolId = rq_toolId request, tres_success = False,
               tres_data = None,
               tres_error = Some
                 \<lparr> te_code = ''PERMISSION_DENIED'',
                   te_message = ''Missing permissions: '' @ joinWith '', ''
                     (map permissionName
                        (filter (\<lambda>p. p \<notin> set (rc_grantedPermissions (tr_config reg)))
                           (td_permissions (re_definition entry)))),
                   te_recoverable = False, te_suggestions = [], te_stack = None \<rparr>,
               tres_durationMs = endTime - startTime, tres_completedAt = now \<rparr>,
           reg)"
proof -
  from assms(3) have "\<not> fst (checkPermissions reg (td_permissions (re_definition entry)))"
    by (simp add: checkPermissions_valid)
  with assms(1,2) show ?thesis
    by (simp add: invoke_def Let_def createErrorResult_def checkPermissions_missing)
qed

lemma readOnly_tools:
  "mapGet (tr_tools readOnlyRegistry) ''fs.write'' =
     Some \<lparr> re_definition = writeTool, re_registeredAt = 2, re_enabled = True,
            re_invocationCount = 0, re_lastInvokedAt = None, re_averageDurationMs = 0 \<rparr>"
  "rc_grantedPermissions (tr_config readOnlyRegistry) = [FILE_READ]"
  by (simp_all add: readOnlyRegistry_def register_def newToolRegistry_def
        DEFAULT_REGISTRY_CONFIG_def mapGet_def Let_def echoTool_def writeTool_def)

theorem C4_permission_denied_witness:
  "mapGet (tr_tools readOnlyRegistry) ''fs.write'' =
     Some \<lparr> re_definition = writeTool, re_registeredAt = 2, re_enabled = True,
            re_invocationCount = 0, re_lastInvokedAt = None, re_averageDurationMs = 0 \<rparr> \<and>
   FILE_WRITE \<in> set (td_permissions writeTool) \<and>
   FILE_WRITE \<notin> set (rc_grantedPermissions (tr_config readOnlyRegistry)) \<and>
   invoke (echoRequest ''fs.write'') ''x1'' 10 12 13 readOnlyRegistry =
     (Resolved
        \<lparr> tres_id = ''x1'', tres_toolId = ''fs.write'', tres_success = False, tres_data = None,
          tres_error = Some \<lparr> te_code = ''PERMISSION_DENIED'',
                               te_message = ''Missing permissions: FILE_WRITE'',
                               te_recoverable = False, te_suggestions = [], te_stack = None \<rparr>,
          tres_durationMs = 2, tres_completedAt = 13 \<rparr>,
      readOnlyRegistry)"
  using C4_permission_denied [of readOnlyRegistry "echoRequest ''fs.write''"
          "\<lparr> re_definition = writeTool, re_registeredAt = 2, re_enabled = True,
             re_invocationCount = 0, re_lastInvokedAt = None, re_averageDurationMs = 0 \<rparr>"
          "''x1''" 10 12 13]
  by (simp add: readOnly_tools echoRequest_def) (simp add: writeTool_def echoTool_def)

subsection \<open>Metrics\<close>

lemma updateMetrics_tools:
  "tr_tools (updateMetrics entry d now reg) =
     mapSet (td_id (re_definition entry)) (bumped entry d now) (tr_tools reg)"
  by (simp add: updateMetrics_def bumped_def Let_def)

lemma dispatch_tools:
  "tr_tools (snd (dispatch request entry eid tS tE now reg)) =
     (if resolvesInTime reg entry request eid
      then mapSet (td_id (re_definition entry)) (bumped entry (tE - tS) now) (tr_tools reg)
      else tr_tools reg)"
  by (simp add: dispatch_def resolvesInTime_def Let_def updateMetrics_tools
           split: Settled.splits)

lemma validateInput_tools: "tr_tools (snd (validateInput d i c reg)) = tr_tools reg"
  by (simp add: validateInput_def split: option.splits)

lemma validateInput_config: "tr_config (snd (validateInput d i c reg)) = tr_config reg"
  by (simp add: validateInput_def split: option.splits)

lemma validateInput_fst:
  "fst (validateInput d i c reg) =
     (case td_validate d of Some validate \<Rightarrow> validate i c | None \<Rightarrow> Inr validationSuccess)"
  by (simp add: validateInput_def split: option.splits)

lemma resolvesInTime_config:
  "tr_config reg' = tr_config reg \<Longrightarrow>
   resolvesInTime reg' entry request eid = resolvesInTime reg entry request eid"
  by (simp add: resolvesInTime_def)

lemma invoke_tools:
  assumes "mapGet (tr_tools reg) (rq_toolId request) = Some entry"
  shows "tr_tools (snd (invoke request eid tS tE now reg)) =
     (if completes reg entry request eid
      then mapSet (td_id (re_definition entry)) (bumped entry (tE - tS) now) (tr_tools reg)
      else tr_tools reg)"
proof (cases "re_enabled entry \<and> fst (checkPermissions reg (td_permissions (re_definition entry)))")
  case False
  with assms show ?thesis
    by (auto simp: invoke_def completes_def Let_def)
next
  case gates: True
  show ?thesis
  proof (cases "rq_skipValidation request = Some True")
    case True
    with assms gates show ?thesis
      by (simp add: invoke_def completes_def Let_def dispatch_tools validationPasses_def)
  next
    case noskip: False
    obtain v reg1 where vi: "validateInput (re_definition entry) (rq_input request) (rq_context request) reg = (v, reg1)"
      by (cases "validateInput (re_definition entry) (rq_input request) (rq_context request) reg")
    have t1: "tr_tools reg1 = tr_tools reg" and c1: "tr_config reg1 = tr_config reg"
      using validateInput_tools[of "re_definition entry" "rq_input request" "rq_context request" reg]
            validateInput_config[of "re_definition entry" "rq_input request" "rq_context request" reg]
            vi by simp_all
    have v: "v = (case td_validate (re_definition entry) of
                    Some validate \<Rightarrow> validate (rq_input request) (rq_context request)
                  | None \<Rightarrow> Inr validationSuccess)"
      using validateInput_fst[of "re_definition entry" "rq_input request" "rq_context request" reg] vi
      by simp
    show ?thesis
    proof (cases v)
      case (Inl thrown)
      with v have veq: "(case td_validate (re_definition entry) of
                    Some validate \<Rightarrow> validate (rq_input request) (rq_context request)
                  | None \<Rightarrow> Inr validationSuccess) = Inl thrown" by simp
      have "\<not> validationPasses (re_definition entry) request"
        using noskip veq by (auto simp: validationPasses_def split: option.splits)
      with assms gates noskip vi Inl t1 show ?thesis
        by (simp add: invoke_def completes_def Let_def)
    next
      case (Inr validation)
      with v have veq: "(case td_validate (re_definition entry) of
                    Some validate \<Rightarrow> validate (rq_input request) (rq_context request)
                  | None \<Rightarrow> Inr validationSuccess) = Inr validation" by simp
      have vp: "validationPasses (re_definition entry) request = vr_valid validation"
        using noskip veq
        by (auto simp: validationPasses_def validationSuccess_def split: option.splits)
      with assms gates noskip vi Inr t1 resolvesInTime_config[OF c1] show ?thesis
        by (simp add: invoke_def completes_def Let_def dispatch_tools)
    qed
  qed
qed

lemma hanging_entry:
  "mapGet (tr_tools hangingRegistry) ''hang'' =
     Some \<lparr> re_definition = hangingTool, re_registeredAt = 1, re_enabled = True,
            re_invocationCount = 0, re_lastInvokedAt = None, re_averageDurationMs = 0 \<rparr>"
  by (simp add: hangingRegistry_def register_def newToolRegistry_def
        DEFAULT_REGISTRY_CONFIG_def mapGet_def Let_def hangingTool_def echoTool_def)

text \<open>
  Claim C5, as stated, fails: the metrics are not updated on every path. A tool whose
  promise never settles is invoked; the timer wins after the default 30000 ms and
  \<open>invoke\<close> resolves with an \<open>EXECUTION_ERROR\<close> result, but the tool's entry still shows
  no invocation, no last-invoked time and the old average.
\<close>

theorem C5_metrics_counterexample:
  "fst (invoke (echoRequest ''hang'') ''x1'' 10 30010 30011 hangingRegistry) =
     Resolved (createErrorResult ''x1'' ''hang'' ''EXECUTION_ERROR''
                 ''Tool execution timed out after 30000ms'' True 30000 30011) \<and>
   getMetrics hangingRegistry ''hang'' =
     Some \<lparr> re_definition = hangingTool, re_registeredAt = 1, re_enabled = True,
            re_invocationCount = 0, re_lastInvokedAt = None, re_averageDurationMs = 0 \<rparr> \<and>
   getMetrics (snd (invoke (echoRequest ''hang'') ''x1'' 10 30010 30011 hangingRegistry)) ''hang'' =
     Some \<lparr> re_definition = hangingTool, re_registeredAt = 1, re_enabled = True,
            re_invocationCount = 0, re_lastInvokedAt = None, re_averageDurationMs = 0 \<rparr>"
proof -
  have cfg: "tr_config hangingRegistry = DEFAULT_REGISTRY_CONFIG"
    by (simp add: hangingRegistry_def register_def newToolRegistry_def mapGet_def Let_def
          DEFAULT_REGISTRY_CONFIG_def)
  have ex: "td_execute hangingTool = (\<lambda>input context. NeverSettles)"
       "td_permissions hangingTool = []" "td_validate hangingTool = None"
    by (simp_all add: hangingTool_def echoTool_def)
  have digits: "showInt 30000 = ''30000''"
    by (simp add: showInt_def showNat.simps digitChar_def)
  show ?thesis
    by (simp add: invoke_def dispatch_def getMetrics_def hanging_entry echoRequest_def
          checkPermissions_def validateInput_def validationSuccess_def executeWithTimeout_def
          timeoutError_def thrownMessage_def orElse_def cfg ex digits
          DEFAULT_REGISTRY_CONFIG_def Let_def)
qed

text \<open>
  Claim C5, amended. The statement is about an invocation of a registered tool (stored
  under its own id) during which nothing else changes the registry: no other invocation
  overlaps it and no registration call is made before it returns. \<open>entry\<close> is the tool's
  entry when the invocation starts. The entry afterwards is: when the tool is enabled, its
  permissions are granted, validation passes and its promise resolves before the timer,
  \<open>entry\<close> with the invocation count incremented by one, the last-invoked time set to the
  current time and the average duration recomputed as
  \<open>(oldAvg * oldCount + thisDuration) / newCount\<close> (whether or not the result the tool
  resolved with reports success); on every other path (disabled, permission denied,
  validator threw or rejected the input, timeout, rejected promise) \<open>entry\<close>, unchanged.
  The count is a natural number and the average an exact rational, where the source
  computes both in doubles (the count is exact in a double until it reaches \<open>2^53\<close>;
  entries start at a count of 0 and only this increment changes it).
\<close>

theorem C5_metrics_on_completion:
  assumes "mapGet (tr_tools reg) (rq_toolId request) = Some entry"
      and "td_id (re_definition entry) = rq_toolId request"
  shows "getMetrics (snd (invoke request eid tS tE now reg)) (rq_toolId request) =
     Some (if completes reg entry request eid
           then entry\<lparr> re_invocationCount := re_invocationCount entry + 1,
                       re_lastInvokedAt := Some now,
                       re_averageDurationMs :=
                         (re_averageDurationMs entry * of_nat (re_invocationCount entry)
                          + of_int (tE - tS))
                         / of_nat (re_invocationCount entry + 1) \<rparr>
           else entry)"
  using assms invoke_tools[OF assms(1), of eid tS tE now]
  by (simp add: getMetrics_def mapGet_mapSet bumped_def)

lemma readOnly_echo:
  "mapGet (tr_tools readOnlyRegistry) ''echo'' =
     Some \<lparr> re_definition = echoTool, re_registeredAt = 1, re_enabled = True,
            re_invocationCount = 0, re_lastInvokedAt = None, re_averageDurationMs = 0 \<rparr>"
  by (simp add: readOnlyRegistry_def register_def newToolRegistry_def
        DEFAULT_REGISTRY_CONFIG_def mapGet_def Let_def echoTool_def writeTool_def)

lemma readOnly_echo_completes:
  "completes readOnlyRegistry
     \<lparr> re_definition = echoTool, re_registeredAt = 1, re_enabled = True,
       re_invocationCount = 0, re_lastInvokedAt = None, re_averageDurationMs = 0 \<rparr>
     (echoRequest ''echo'') ''x1''"
proof -
  have cfg: "rc_defaultTimeoutMs (tr_config readOnlyRegistry) = 30000"
    by (simp add: readOnlyRegistry_def register_def newToolRegistry_def mapGet_def Let_def
          DEFAULT_REGISTRY_CONFIG_def echoTool_def writeTool_def)
  show ?thesis
    by (simp add: completes_def checkPermissions_def validationPasses_def resolvesInTime_def
          executeWithTimeout_def timerDelay_def echoTool_def echoRequest_def orElse_def cfg
          Let_def)
qed

theorem C5_metrics_on_completion_witness:
  "mapGet (tr_tools readOnlyRegistry) (rq_toolId (echoRequest ''echo'')) =
     Some \<lparr> re_definition = echoTool, re_registeredAt = 1, re_enabled = True,
            re_invocationCount = 0, re_lastInvokedAt = None, re_averageDurationMs = 0 \<rparr> \<and>
   td_id echoTool = rq_toolId (echoRequest ''echo'') \<and>
   getMetrics (snd (invoke (echoRequest ''echo'') ''x1'' 10 12 13 readOnlyRegistry)) ''echo'' =
     Some \<lparr> re_definition = echoTool, re_registeredAt = 1, re_enabled = True,
            re_invocationCount = 1, re_lastInvokedAt = Some 13, re_averageDurationMs = 2 \<rparr>"
  using C5_metrics_on_completion [of readOnlyRegistry "echoRequest ''echo''"
          "\<lparr> re_definition = echoTool, re_registeredAt = 1, re_enabled = True,
             re_invocationCount = 0, re_lastInvokedAt = None, re_averageDurationMs = 0 \<rparr>"
          "''x1''" 10 12 13]
        readOnly_echo readOnly_echo_completes
  by (simp add: echoRequest_def) (simp add: echoTool_def)

section \<open>Decision Loop: properties\<close>

subsection \<open>Lifecycle calls made by the loop\<close>

lemma transition_ok:
  assumes "canTransition lc t"
  shows "fst (transition t r dat a b c lc) = Returned"
    and "lc_currentPhase (snd (transition t r dat a b c lc)) = t"
    and "lc_stepNumber (snd (transition t r dat a b c lc)) =
           (if t \<noteq> SUSPENDED then lc_stepNumber lc + 1 else lc_stepNumber lc)"
  using assms canTransition_not_terminal[OF assms]
  by (simp_all add: transition_def Let_def enterPhase_def exitPhase_def split: option.splits)

lemma fail_result:
  assumes "\<not> isTerminal lc"
  shows "lc_currentPhase (fail r a b c lc) = FAILED"
    and "map_option phe_reason (lc_currentPhaseEntry (fail r a b c lc)) = Some r"
  using assms by (simp_all add: fail_def Let_def enterPhase_def)

lemma lifecycleTransition_ok:
  assumes "dl_lifecycle d = Some lc" and "canTransition lc target" and "target \<noteq> SUSPENDED"
      and "dl_isRunning d"
  shows "fst (lifecycleTransition env target reason d) = Normal"
    and "atPhase (snd (lifecycleTransition env target reason d)) target (lc_stepNumber lc + 1)"
    and "dl_config (snd (lifecycleTransition env target reason d)) = dl_config d"
    and "dl_context (snd (lifecycleTransition env target reason d)) = dl_context d"
proof -
  let ?tr = "transition target reason [] (clockAt env d 0) (clockAt env d 1) (clockAt env d 2) lc"
  obtain o' lc' where tr: "?tr = (o', lc')" by (cases ?tr)
  with transition_ok[OF assms(2), of reason "[]" "clockAt env d 0" "clockAt env d 1" "clockAt env d 2"] assms(3)
  have o': "o' = Returned" and p: "lc_currentPhase lc' = target"
    and n: "lc_stepNumber lc' = lc_stepNumber lc + 1" by simp_all
  from assms(1) tr o' have eq: "lifecycleTransition env target reason d =
      (Normal, d\<lparr> dl_lifecycle := Some lc', dl_tick := dl_tick d + 3 \<rparr>)"
    by (simp add: lifecycleTransition_def)
  show "fst (lifecycleTransition env target reason d) = Normal" by (simp add: eq)
  show "atPhase (snd (lifecycleTransition env target reason d)) target (lc_stepNumber lc + 1)"
    using p n assms(4) by (simp add: eq atPhase_def)
  show "dl_config (snd (lifecycleTransition env target reason d)) = dl_config d" by (simp add: eq)
  show "dl_context (snd (lifecycleTransition env target reason d)) = dl_context d" by (simp add: eq)
qed

lemma lifecycleFail_failedWith:
  assumes "dl_lifecycle d = Some lc" and "\<not> isTerminal lc"
  shows "failedWith (lifecycleFail env reason d) reason"
  using assms fail_result[OF assms(2)]
  by (simp add: lifecycleFail_def failedWith_def getCurrentPhase_def isTerminal_iff)

subsection \<open>One round of the loop\<close>

lemma showInt_3: "showInt 3 = ''3''"
  by (simp add: showInt_def showNat.simps digitChar_def)

lemma mainLoop_overLimit:
  assumes "atPhase d p n" and "p \<noteq> COMPLETE" and "p \<noteq> FAILED"
      and "dc_maxSteps (dl_config d) \<le> int n"
  shows "mainLoop env sid d =
     Some (Finished,
           lifecycleFail env
             (''Exceeded maximum steps ('' @ showInt (dc_maxSteps (dl_config d)) @ '')'') d)"
  using assms
  by (subst mainLoop.simps)
     (auto simp: atPhase_def isTerminal_iff getStepNumber_def split: option.splits)

lemma mainLoop_planning:
  assumes "atPhase d PLANNING n" and "int n < dc_maxSteps (dl_config d)"
  shows "mainLoop env sid d =
     (case executePlanningPhase env d of
        None \<Rightarrow> None
      | Some (Normal, d') \<Rightarrow> mainLoop env sid d'
      | Some (Abrupt error, d') \<Rightarrow> Some (Raised error, d'))"
  using assms
  by (subst mainLoop.simps)
     (auto simp: atPhase_def isTerminal_iff getStepNumber_def getCurrentPhase_def
           split: option.splits)

lemma mainLoop_acting:
  assumes "atPhase d ACTING n" and "int n < dc_maxSteps (dl_config d)"
  shows "mainLoop env sid d =
     (case executeActingPhase env d of
        (Normal, d') \<Rightarrow> mainLoop env sid d'
      | (Abrupt error, d') \<Rightarrow> Some (Raised error, d'))"
  using assms
  by (subst mainLoop.simps)
     (auto simp: atPhase_def isTerminal_iff getStepNumber_def getCurrentPhase_def
           split: option.splits)

lemma update_plan:
  "mc_activePlan (fst (update c (noUpdates\<lparr> uo_plan := Some (Some p) \<rparr>) now nid m)) = Some p"
  by (simp add: update_def Let_def noUpdates_def)

lemma pending_decreases:
  assumes "find (\<lambda>a. pa_status a = PENDING) xs = Some x"
  shows "length (filter (\<lambda>a. pa_status a = PENDING) (map (markAction x result) xs))
           < length (filter (\<lambda>a. pa_status a = PENDING) xs)"
proof -
  let ?P = "\<lambda>a. pa_status a = PENDING"
  let ?Q = "\<lambda>a. pa_status (markAction x result a) = PENDING"
  from assms have xin: "x \<in> set xs" and px: "?P x"
    by (auto simp: find_Some_iff)
  have imp: "?Q a \<Longrightarrow> ?P a" for a by (auto simp: markAction_def split: if_splits)
  have nq: "\<not> ?Q x" by (simp add: markAction_def)
  have "filter ?P (map (markAction x result) xs) = map (markAction x result) (filter ?Q xs)"
    by (simp add: filter_map comp_def)
  then have "length (filter ?P (map (markAction x result) xs)) = length (filter ?Q xs)" by simp
  also have "filter ?Q xs = filter ?Q (filter ?P xs)"
    using imp by (auto intro: filter_cong)
  also have "length (filter ?Q (filter ?P xs)) < length (filter ?P xs)"
    using xin px nq by (intro length_filter_less[of x]) auto
  finally show ?thesis .
qed

lemma canTransition_from:
  "lc_currentPhase lc = IDLE \<Longrightarrow> canTransition lc PLANNING"
  "lc_currentPhase lc = PLANNING \<Longrightarrow> canTransition lc ACTING"
  "lc_currentPhase lc = ACTING \<Longrightarrow> canTransition lc OBSERVING"
  by (simp_all add: canTransition_spec)

lemma acting_step:
  assumes at: "atPhase d ACTING n"
      and ctx: "dl_context d = Some ctx"
      and plan: "mc_activePlan ctx = Some plan"
  shows "fst (executeActingPhase env d) = Normal \<and>
         dl_config (snd (executeActingPhase env d)) = dl_config d \<and>
         (atPhase (snd (executeActingPhase env d)) OBSERVING (n + 1) \<or>
          (atPhase (snd (executeActingPhase env d)) ACTING n \<and>
           (\<exists>ctx' plan'. dl_context (snd (executeActingPhase env d)) = Some ctx' \<and>
                         mc_activePlan ctx' = Some plan' \<and>
                         pendingCount plan' < pendingCount plan)))"
proof -
  from at obtain lc where lc: "dl_lifecycle d = Some lc" "lc_currentPhase lc = ACTING"
      "lc_stepNumber lc = n" and run: "dl_isRunning d"
    by (auto simp: atPhase_def split: option.splits)
  have ct: "canTransition lc OBSERVING" using lc(2) by (rule canTransition_from)
  show ?thesis
  proof (cases "find (\<lambda>a. pa_status a = PENDING) (ep_actions plan)")
    case None
    then have eq: "executeActingPhase env d =
        lifecycleTransition env OBSERVING ''All planned actions executed'' d"
      using lc ctx plan by (simp add: executeActingPhase_def)
    show ?thesis
      unfolding eq
      using lifecycleTransition_ok[OF lc(1) ct _ run, of env "''All planned actions executed''"] lc(3)
      by simp
  next
    case (Some nextAction)
    define settled where "settled = fst (invoke \<lparr> rq_toolId = pa_toolId nextAction,
                                   rq_input = Params (pa_expectedParameters nextAction),
                                   rq_context = ctx,
                                   rq_timeoutMs = Some (dc_toolTimeoutMs (dl_config d)),
                                   rq_skipValidation = None \<rparr>
                            (uuidAt env d 0) (clockAt env d 1) (clockAt env d 2) (clockAt env d 3)
                            (dl_toolRegistry d))"
    define registry' where "registry' = snd (invoke \<lparr> rq_toolId = pa_toolId nextAction,
                                   rq_input = Params (pa_expectedParameters nextAction),
                                   rq_context = ctx,
                                   rq_timeoutMs = Some (dc_toolTimeoutMs (dl_config d)),
                                   rq_skipValidation = None \<rparr>
                            (uuidAt env d 0) (clockAt env d 1) (clockAt env d 2) (clockAt env d 3)
                            (dl_toolRegistry d))"
    define ro where "ro = (case settled of
                             Resolved r \<Rightarrow> (r, if tres_success r then SUCCESS else FAILURE)
                           | Rejected error \<Rightarrow>
                               (synthesizedFailure (uuidAt env d 1) (pa_toolId nextAction) error
                                  (clockAt env d 4 - clockAt env d 0) (clockAt env d 5),
                                FAILURE))"
    define result where "result = fst ro"
    define outcome where "outcome = snd ro"
    define u1 where "u1 = update ctx (noUpdates\<lparr> uo_addResults := Some [result] \<rparr>)
                            (clockAt env d 6) (uuidAt env d 2) (dl_contextManager d)"
    define updatedPlan where "updatedPlan = plan\<lparr> ep_actions := map (markAction nextAction result) (ep_actions plan),
                                             ep_currentIndex := ep_currentIndex plan + 1 \<rparr>"
    define u2 where "u2 = update (fst u1) (noUpdates\<lparr> uo_plan := Some (Some updatedPlan) \<rparr>)
                            (clockAt env d 7) (uuidAt env d 3) (snd u1)"
    define step where "step = createStep (getStepNumber lc) ACTING
                                 (''Executed '' @ pa_toolId nextAction)
                                 (Some (pa_description nextAction))
                                 (Some \<lparr> ti_toolId = pa_toolId nextAction,
                                       ti_parameters = pa_expectedParameters nextAction,
                                       ti_rationale = pa_description nextAction \<rparr>)
                                 (Some result) outcome (clockAt env d 0) (clockAt env d 8)
                                 (uuidAt env d 4)"
    define d2 where "d2 = emit [LoopStep step, ActionComplete nextAction result]
                               ((emit [ActionStart nextAction] d)
                                  \<lparr> dl_toolRegistry := registry', dl_context := Some (fst u2),
                                    dl_contextManager := snd u2,
                                    dl_steps := dl_steps d @ [step],
                                    dl_tick := dl_tick d + 9, dl_idn := dl_idn d + 5 \<rparr>)"
    have eq: "executeActingPhase env d =
        (if length (filter (\<lambda>a. pa_status a = PENDING)
                      (map (markAction nextAction result) (ep_actions plan))) = 0
            \<or> \<not> tres_success result
         then lifecycleTransition env OBSERVING ''Proceeding to observation'' d2
         else (Normal, d2))"
      unfolding executeActingPhase_def d2_def step_def u2_def updatedPlan_def u1_def
        outcome_def result_def ro_def registry'_def settled_def
      by (simp only: lc(1) ctx plan Some option.case prod.case Let_def split_beta fst_conv snd_conv)
    have d2lc: "dl_lifecycle d2 = Some lc" and d2run: "dl_isRunning d2"
      and d2cfg: "dl_config d2 = dl_config d" and d2ctx: "dl_context d2 = Some (fst u2)"
      using lc run by (simp_all add: d2_def emit_def)
    have d2plan: "mc_activePlan (fst u2) = Some updatedPlan"
      by (simp add: u2_def update_plan)
    have less: "pendingCount updatedPlan < pendingCount plan"
      using pending_decreases[OF Some, of result]
      by (simp add: pendingCount_def updatedPlan_def)
    show ?thesis
    proof (cases "length (filter (\<lambda>a. pa_status a = PENDING)
                      (map (markAction nextAction result) (ep_actions plan))) = 0
            \<or> \<not> tres_success result")
      case True
      then have eq': "executeActingPhase env d =
          lifecycleTransition env OBSERVING ''Proceeding to observation'' d2"
        using eq by (simp only: if_True)
      show ?thesis
        unfolding eq'
        using lifecycleTransition_ok[OF d2lc ct _ d2run, of env "''Proceeding to observation''"]
              lc(3) d2cfg
        by simp
    next
      case False
      then have eq': "executeActingPhase env d = (Normal, d2)" using eq by (simp only: if_False)
      have "atPhase d2 ACTING n" using d2lc d2run lc by (simp add: atPhase_def)
      with d2cfg d2ctx d2plan less show ?thesis unfolding eq' by auto
    qed
  qed
qed

lemma planning_step_pending:
  assumes at: "atPhase d PLANNING n"
      and ctx: "dl_context d = Some ctx"
      and pl: "dc_planner (dl_config d) ctx = StaysPending"
  shows "executePlanningPhase env d = None"
  using assms
  by (auto simp: executePlanningPhase_def atPhase_def Let_def split: option.splits)

lemma planning_step_rejected:
  assumes at: "atPhase d PLANNING n"
      and ctx: "dl_context d = Some ctx"
      and pl: "dc_planner (dl_config d) ctx = Eventually (Rejected error)"
  shows "\<exists>d'. executePlanningPhase env d = Some (Abrupt error, d') \<and>
              dl_lifecycle d' = dl_lifecycle d"
  using assms
  by (auto simp: executePlanningPhase_def atPhase_def Let_def emit_def split: option.splits)

lemma planning_step_resolved:
  assumes at: "atPhase d PLANNING n"
      and ctx: "dl_context d = Some ctx"
      and pl: "dc_planner (dl_config d) ctx = Eventually (Resolved plan)"
  shows "\<exists>d'. executePlanningPhase env d = Some (Normal, d') \<and>
              dl_config d' = dl_config d \<and>
              atPhase d' ACTING (n + 1) \<and>
              (\<exists>ctx'. dl_context d' = Some ctx' \<and> mc_activePlan ctx' = Some plan)"
proof -
  from at obtain lc where lc: "dl_lifecycle d = Some lc" "lc_currentPhase lc = PLANNING"
      "lc_stepNumber lc = n" and run: "dl_isRunning d"
    by (auto simp: atPhase_def split: option.splits)
  have ct: "canTransition lc ACTING" using lc(2) by (rule canTransition_from)
  define u where "u = update ctx (noUpdates\<lparr> uo_plan := Some (Some plan) \<rparr>)
                          (clockAt env d 1) (uuidAt env d 0) (dl_contextManager d)"
  define step where "step = createStep (getStepNumber lc) PLANNING
                               (''Created plan with '' @ showNat (length (ep_actions plan))
                                @ '' actions'')
                               (Some (ep_description plan)) None None SUCCESS (clockAt env d 0)
                               (clockAt env d 2) (uuidAt env d 1)"
  define d2 where "d2 = emit [LoopStep step, PlanningComplete plan]
                             ((emit [PlanningStart (getStepNumber lc)] d)
                                \<lparr> dl_context := Some (fst u), dl_contextManager := snd u,
                                  dl_steps := dl_steps d @ [step],
                                  dl_tick := dl_tick d + 3, dl_idn := dl_idn d + 2 \<rparr>)"
  let ?t = "lifecycleTransition env ACTING ''Plan created, beginning execution'' d2"
  have eq: "executePlanningPhase env d = Some ?t"
    using lc ctx pl
    by (simp add: executePlanningPhase_def Let_def split_beta u_def step_def d2_def)
  have d2lc: "dl_lifecycle d2 = Some lc" and d2run: "dl_isRunning d2"
    and d2cfg: "dl_config d2 = dl_config d" and d2ctx: "dl_context d2 = Some (fst u)"
    using lc run by (simp_all add: d2_def emit_def)
  have pl2: "mc_activePlan (fst u) = Some plan" by (simp add: u_def update_plan)
  from lifecycleTransition_ok[OF d2lc ct _ d2run, of env "''Plan created, beginning execution''"]
       lc(3) d2cfg d2ctx pl2
  have "fst ?t = Normal" "dl_config (snd ?t) = dl_config d" "atPhase (snd ?t) ACTING (n + 1)"
       "dl_context (snd ?t) = Some (fst u)"
    by simp_all
  with pl2 eq show ?thesis by (cases ?t) auto
qed

lemma acting_loop:
  assumes "atPhase d ACTING 2" and "dc_maxSteps (dl_config d) = 3"
      and "dl_context d = Some ctx" and "mc_activePlan ctx = Some plan"
  shows "\<exists>d'. mainLoop env sid d = Some (Finished, d') \<and>
              failedWith d' ''Exceeded maximum steps (3)''"
  using assms
proof (induction "pendingCount plan" arbitrary: d ctx plan rule: less_induct)
  case less
  let ?r = "executeActingPhase env d"
  from acting_step[OF less.prems(1,3,4), of env]
  have n: "fst ?r = Normal" and cfg: "dl_config (snd ?r) = dl_config d"
    and alt: "atPhase (snd ?r) OBSERVING 3 \<or>
          (atPhase (snd ?r) ACTING 2 \<and>
           (\<exists>ctx' plan'. dl_context (snd ?r) = Some ctx' \<and> mc_activePlan ctx' = Some plan' \<and>
                         pendingCount plan' < pendingCount plan))"
    by simp_all
  have unfold: "mainLoop env sid d = mainLoop env sid (snd ?r)"
    using mainLoop_acting[OF less.prems(1), of env sid] less.prems(2) n
    by (cases ?r) simp
  from alt show ?case
  proof
    assume obs: "atPhase (snd ?r) OBSERVING 3"
    then obtain lc where lc: "dl_lifecycle (snd ?r) = Some lc" "lc_currentPhase lc = OBSERVING"
      by (auto simp: atPhase_def split: option.splits)
    then have nt: "\<not> isTerminal lc" by (simp add: isTerminal_iff)
    have "mainLoop env sid (snd ?r) =
        Some (Finished, lifecycleFail env ''Exceeded maximum steps (3)'' (snd ?r))"
      using mainLoop_overLimit[OF obs, of env sid] cfg less.prems(2) by (simp add: showInt_3)
    with lifecycleFail_failedWith[OF lc(1) nt] unfold show ?thesis by simp
  next
    assume "atPhase (snd ?r) ACTING 2 \<and>
           (\<exists>ctx' plan'. dl_context (snd ?r) = Some ctx' \<and> mc_activePlan ctx' = Some plan' \<and>
                         pendingCount plan' < pendingCount plan)"
    then obtain ctx' plan' where a: "atPhase (snd ?r) ACTING 2"
      and c: "dl_context (snd ?r) = Some ctx'" and p: "mc_activePlan ctx' = Some plan'"
      and l: "pendingCount plan' < pendingCount plan" by auto
    from less.hyps[OF l a _ c p] cfg less.prems(2) unfold show ?thesis by simp
  qed
qed

subsection \<open>A run with a step limit of three\<close>

lemma runInit_props:
  "dl_lifecycle (runInit env intent workspace d) =
     Some (newLifecycle (uuidAt env d 0) (clockAt env d 1) (clockAt env d 2))"
  "dl_isRunning (runInit env intent workspace d)"
  "dl_context (runInit env intent workspace d) = Some (initialContext env intent workspace d)"
  "dl_config (runInit env intent workspace d) = dl_config d"
  by (simp_all add: runInit_def initialContext_def emit_def Let_def split_beta)

lemma newLifecycle_props:
  "lc_currentPhase (newLifecycle sid t0 t1) = IDLE" "lc_stepNumber (newLifecycle sid t0 t1) = 0"
  by (simp_all add: newLifecycle_def enterPhase_def)

lemma failedWith_not_complete:
  "failedWith d reason \<Longrightarrow>
   \<exists>lc. dl_lifecycle d = Some lc \<and> getCurrentPhase lc = FAILED"
  by (auto simp: failedWith_def split: option.splits)

text \<open>
  With \<open>maxSteps = 3\<close> and a planner whose first promise settles, the run ends,
  unsuccessfully and with the lifecycle FAILED. The transition into PLANNING is step 1 and
  the one into ACTING step 2; the acting phase stays at step 2 while it works through the
  pending actions, whose number decreases with every round (each invocation of a tool
  settles, by the timer at the latest), and its transition into OBSERVING is step 3, where
  the limit check fails the lifecycle. The reflector is never called.
\<close>

lemma run_unfold:
  assumes "dl_lifecycle (runInit env intent workspace d0) = Some lc0"
      and "canTransition lc0 PLANNING"
  shows "run env intent workspace d0 =
     (let startTime = clockAt env d0 0;
          sessionId = uuidAt env d0 0;
          catch = (\<lambda>error d.
            let reason = thrownMessage error;
                d' = emit [LoopFailed sessionId reason (dl_steps d)] (lifecycleFail env reason d)
            in Some (createResult sessionId False reason startTime (clockAt env d' 0) d',
                     d'\<lparr> dl_isRunning := False, dl_tick := dl_tick d' + 1 \<rparr>))
      in case mainLoop env sessionId
                (snd (lifecycleTransition env PLANNING ''Beginning task execution''
                        (runInit env intent workspace d0))) of
               None \<Rightarrow> None
             | Some (Raised error, d3) \<Rightarrow> catch error d3
             | Some (ReturnedSuspended, d3) \<Rightarrow>
                 Some (createResult sessionId False ''Suspended'' startTime (clockAt env d3 0) d3,
                       d3\<lparr> dl_isRunning := False, dl_tick := dl_tick d3 + 1 \<rparr>)
             | Some (Finished, d3) \<Rightarrow>
                 (case dl_lifecycle d3 of
                    None \<Rightarrow> catch nullLifecycle d3
                  | Some lifecycle \<Rightarrow>
                      (let success = (getCurrentPhase lifecycle = COMPLETE);
                           reason = (if success then ''Task completed successfully''
                                     else ''Task failed'');
                           d4 = (if success
                                 then emit [LoopComplete sessionId (dl_steps d3)] d3
                                 else emit [LoopFailed sessionId reason (dl_steps d3)] d3)
                       in Some (createResult sessionId success reason startTime
                                  (clockAt env d4 0) d4,
                                d4\<lparr> dl_isRunning := False, dl_tick := dl_tick d4 + 1 \<rparr>))))"
proof -
  let ?t = "lifecycleTransition env PLANNING ''Beginning task execution''
              (runInit env intent workspace d0)"
  have "fst ?t = Normal"
    using lifecycleTransition_ok(1)[OF assms(1,2) _ runInit_props(2)] by simp
  then show ?thesis by (cases ?t) (simp add: run_def Let_def)
qed

lemma run_start:
  shows "atPhase (snd (lifecycleTransition env PLANNING ''Beginning task execution''
                         (runInit env intent workspace d0))) PLANNING 1"
    and "dl_config (snd (lifecycleTransition env PLANNING ''Beginning task execution''
                         (runInit env intent workspace d0))) = dl_config d0"
    and "dl_context (snd (lifecycleTransition env PLANNING ''Beginning task execution''
                         (runInit env intent workspace d0)))
           = Some (initialContext env intent workspace d0)"
proof -
  let ?lc0 = "newLifecycle (uuidAt env d0 0) (clockAt env d0 1) (clockAt env d0 2)"
  have ct: "canTransition ?lc0 PLANNING"
    by (rule canTransition_from) (rule newLifecycle_props)
  note ok = lifecycleTransition_ok[OF runInit_props(1) ct _ runInit_props(2),
              of env "''Beginning task execution''" intent workspace]
  show "atPhase (snd (lifecycleTransition env PLANNING ''Beginning task execution''
                         (runInit env intent workspace d0))) PLANNING 1"
    using ok(2) by (simp add: newLifecycle_props)
  show "dl_config (snd (lifecycleTransition env PLANNING ''Beginning task execution''
                         (runInit env intent workspace d0))) = dl_config d0"
    using ok(3) by (simp add: runInit_props)
  show "dl_context (snd (lifecycleTransition env PLANNING ''Beginning task execution''
                         (runInit env intent workspace d0)))
           = Some (initialContext env intent workspace d0)"
    using ok(4) by (simp add: runInit_props)
qed

lemma run_step_limit:
  assumes "dc_maxSteps (dl_config d0) = 3"
      and "dc_planner (dl_config d0) (initialContext env intent workspace d0)
             = Eventually outcome"
  shows "\<exists>r d'. run env intent workspace d0 = Some (r, d') \<and>
           lr_success r = False \<and> \<not> dl_isRunning d' \<and>
           (case outcome of
              Resolved plan \<Rightarrow>
                lr_reason r = ''Task failed'' \<and> failedWith d' ''Exceeded maximum steps (3)''
            | Rejected error \<Rightarrow>
                lr_reason r = thrownMessage error \<and> failedWith d' (thrownMessage error))"
proof -
  let ?sid = "uuidAt env d0 0"
  let ?ctx = "initialContext env intent workspace d0"
  let ?d2 = "snd (lifecycleTransition env PLANNING ''Beginning task execution''
                    (runInit env intent workspace d0))"
  let ?lc0 = "newLifecycle ?sid (clockAt env d0 1) (clockAt env d0 2)"
  have ct: "canTransition ?lc0 PLANNING"
    by (rule canTransition_from) (rule newLifecycle_props)
  note at2 = run_start(1)[of env intent workspace d0]
  note cfg2 = run_start(2)[of env intent workspace d0]
  note ctx2 = run_start(3)[of env intent workspace d0]
  have lt: "(1::int) < dc_maxSteps (dl_config ?d2)" using cfg2 assms(1) by simp
  have ml: "mainLoop env ?sid ?d2 =
     (case executePlanningPhase env ?d2 of
        None \<Rightarrow> None
      | Some (Normal, d') \<Rightarrow> mainLoop env ?sid d'
      | Some (Abrupt error, d') \<Rightarrow> Some (Raised error, d'))"
    using mainLoop_planning[OF at2, of env ?sid] lt by simp
  note runeq = run_unfold[OF runInit_props(1) ct]
  show ?thesis
  proof (cases outcome)
    case (Rejected error)
    then have pl: "dc_planner (dl_config ?d2) ?ctx = Eventually (Rejected error)"
      using cfg2 assms(2) by simp
    from planning_step_rejected[OF at2 ctx2 pl, of env]
    obtain dp where pa: "executePlanningPhase env ?d2 = Some (Abrupt error, dp)"
      and plc: "dl_lifecycle dp = dl_lifecycle ?d2" by blast
    from at2 obtain lc where lc: "dl_lifecycle ?d2 = Some lc" "lc_currentPhase lc = PLANNING"
      by (auto simp: atPhase_def split: option.splits)
    then have nt: "\<not> isTerminal lc" by (simp add: isTerminal_iff)
    have m: "mainLoop env ?sid ?d2 = Some (Raised error, dp)"
      using ml pa by simp
    have fw: "failedWith (lifecycleFail env (thrownMessage error) dp) (thrownMessage error)"
      using lifecycleFail_failedWith[of dp lc env "thrownMessage error"] plc lc nt by simp
    show ?thesis
      using Rejected fw
      by (simp add: runeq m Let_def createResult_def emit_def failedWith_def)
  next
    case (Resolved plan)
    then have pl: "dc_planner (dl_config ?d2) ?ctx = Eventually (Resolved plan)"
      using cfg2 assms(2) by simp
    from planning_step_resolved[OF at2 ctx2 pl, of env]
    obtain dp ctx' where pn: "executePlanningPhase env ?d2 = Some (Normal, dp)"
      and pcfg: "dl_config dp = dl_config ?d2"
      and pat: "atPhase dp ACTING (1 + 1)"
      and pctx: "dl_context dp = Some ctx'"
      and pplan: "mc_activePlan ctx' = Some plan"
      by auto
    have pat2: "atPhase dp ACTING 2" using pat by (simp add: numeral_2_eq_2)
    have m3: "dc_maxSteps (dl_config dp) = 3" using pcfg cfg2 assms(1) by simp
    from acting_loop[OF pat2 m3 pctx pplan, of env ?sid]
    obtain d3 where d3: "mainLoop env ?sid dp = Some (Finished, d3)"
      and fw: "failedWith d3 ''Exceeded maximum steps (3)''" by auto
    have m: "mainLoop env ?sid ?d2 = Some (Finished, d3)"
      using ml pn d3 by simp
    from fw obtain lc where lc: "dl_lifecycle d3 = Some lc" "getCurrentPhase lc = FAILED"
      by (auto dest: failedWith_not_complete)
    show ?thesis
      using Resolved fw lc
      by (simp add: runeq m Let_def createResult_def emit_def failedWith_def)
  qed
qed

text \<open>
  When the planner's first promise stays pending, \<open>run\<close> never returns: the \<open>await\<close> in
  the planning phase has no timeout.
\<close>

lemma run_planner_pending:
  assumes "dc_maxSteps (dl_config d0) = 3"
      and "dc_planner (dl_config d0) (initialContext env intent workspace d0) = StaysPending"
  shows "run env intent workspace d0 = None"
proof -
  let ?sid = "uuidAt env d0 0"
  let ?ctx = "initialContext env intent workspace d0"
  let ?d2 = "snd (lifecycleTransition env PLANNING ''Beginning task execution''
                    (runInit env intent workspace d0))"
  let ?lc0 = "newLifecycle ?sid (clockAt env d0 1) (clockAt env d0 2)"
  have ct: "canTransition ?lc0 PLANNING"
    by (rule canTransition_from) (rule newLifecycle_props)
  note at2 = run_start(1)[of env intent workspace d0]
  note cfg2 = run_start(2)[of env intent workspace d0]
  note ctx2 = run_start(3)[of env intent workspace d0]
  have lt: "(1::int) < dc_maxSteps (dl_config ?d2)" using cfg2 assms(1) by simp
  have pl: "dc_planner (dl_config ?d2) ?ctx = StaysPending" using cfg2 assms(2) by simp
  have "mainLoop env ?sid ?d2 = None"
    using mainLoop_planning[OF at2, of env ?sid] lt planning_step_pending[OF at2 ctx2 pl, of env]
    by simp
  then show ?thesis
    by (simp add: run_unfold[OF runInit_props(1) ct] Let_def)
qed

lemma loop3_planner:
  "dc_maxSteps (dl_config loop3) = 3"
  "dc_planner (dl_config loop3) c = echoPlanner c"
  by (simp_all add: loop3_def newDecisionLoop_def config3_def)

text \<open>
  Claim C7, as stated, fails in its last part: in the scenario of the claim (step limit 3,
  a reflector that always asks to continue, a planner proposing one action) the run ends
  with \<open>success = false\<close>, but \<open>LoopResult.reason\<close> is the generic \<open>Task failed\<close>, which
  does not indicate that the step limit was exhausted.
\<close>

theorem C7_reason_counterexample:
  "dc_maxSteps (dl_config loop3) = 3 \<and>
   dc_reflector (dl_config loop3) = alwaysContinue \<and>
   map_option (lr_success \<circ> fst)
     (run env0 (createMinimalIntent ''hello'' 0) (createMinimalWorkspace ''/w'' 0) loop3)
     = Some False \<and>
   map_option (lr_reason \<circ> fst)
     (run env0 (createMinimalIntent ''hello'' 0) (createMinimalWorkspace ''/w'' 0) loop3)
     = Some ''Task failed''"
proof -
  have pl: "dc_planner (dl_config loop3)
     (initialContext env0 (createMinimalIntent ''hello'' 0) (createMinimalWorkspace ''/w'' 0)
        loop3)
     = Eventually (Resolved echoPlan)"
    by (simp add: loop3_planner(2) echoPlanner_def)
  from run_step_limit[OF loop3_planner(1) pl]
  obtain r d' where
    "run env0 (createMinimalIntent ''hello'' 0) (createMinimalWorkspace ''/w'' 0) loop3
       = Some (r, d')"
    "lr_success r = False" "lr_reason r = ''Task failed''"
    by auto
  then show ?thesis
    by (simp add: loop3_def newDecisionLoop_def config3_def)
qed

text \<open>
  Claim C7, amended in the reason it reports. Running the loop with \<open>maxSteps = 3\<close>, when
  the promise of the planner's first call settles: \<open>run\<close> returns, with
  \<open>LoopResult.success = false\<close>, the loop no longer running and the lifecycle in phase
  FAILED. When the planner resolved with a plan, \<open>LoopResult.reason\<close> is \<open>Task failed\<close>,
  and the text \<open>Exceeded maximum steps (3)\<close> is the reason recorded in the lifecycle's
  entry for the FAILED phase; when the planner rejected, \<open>LoopResult.reason\<close> and the
  lifecycle's reason are the message of what it threw. The statement holds for every
  reflector, the one of the claim included: the reflector is not reached. The loop is
  taken on its own, with no \<open>stop\<close> or \<open>suspend\<close> call arriving during the run.
\<close>

theorem C7_step_limit:
  assumes "dc_maxSteps (dl_config d0) = 3"
      and "dc_planner (dl_config d0) (initialContext env intent workspace d0)
             = Eventually outcome"
  shows "\<exists>r d'. run env intent workspace d0 = Some (r, d') \<and>
           lr_success r = False \<and> \<not> dl_isRunning d' \<and>
           (case outcome of
              Resolved plan \<Rightarrow>
                lr_reason r = ''Task failed'' \<and> failedWith d' ''Exceeded maximum steps (3)''
            | Rejected error \<Rightarrow>
                lr_reason r = thrownMessage error \<and> failedWith d' (thrownMessage error))"
  using assms by (rule run_step_limit)

theorem C7_step_limit_witness:
  "dc_maxSteps (dl_config loop3) = 3 \<and>
   dc_planner (dl_config loop3)
     (initialContext env0 (createMinimalIntent ''go'' 0) (createMinimalWorkspace ''/w'' 0) loop3)
     = Eventually (Resolved echoPlan) \<and>
   map_option (lr_success \<circ> fst)
     (run env0 (createMinimalIntent ''go'' 0) (createMinimalWorkspace ''/w'' 0) loop3)
     = Some False \<and>
   map_option (lr_reason \<circ> fst)
     (run env0 (createMinimalIntent ''go'' 0) (createMinimalWorkspace ''/w'' 0) loop3)
     = Some ''Task failed'' \<and>
   map_option (\<lambda>rd. failedWith (snd rd) ''Exceeded maximum steps (3)'')
     (run env0 (createMinimalIntent ''go'' 0) (createMinimalWorkspace ''/w'' 0) loop3)
     = Some True"
proof -
  have pl: "dc_planner (dl_config loop3)
     (initialContext env0 (createMinimalIntent ''go'' 0) (createMinimalWorkspace ''/w'' 0) loop3)
     = Eventually (Resolved echoPlan)"
    by (simp add: loop3_planner(2) echoPlanner_def)
  from C7_step_limit[OF loop3_planner(1) pl]
  obtain r d' where
    "run env0 (createMinimalIntent ''go'' 0) (createMinimalWorkspace ''/w'' 0) loop3
       = Some (r, d')"
    "lr_success r = False" "lr_reason r = ''Task failed''"
    "failedWith d' ''Exceeded maximum steps (3)''"
    by auto
  then show ?thesis
    by (simp add: loop3_planner(1) pl)
qed

end
